(* ===== verification/Prelude.thy ===== *)
theory Prelude
  imports Main "HOL-Library.AList"
begin

text \<open>
  Shared vocabulary of the development: the named collections the component theories
  fill, the model of the few JavaScript library operations on arrays that
  \<^verbatim>\<open>src/index.js\<close> uses (\<^verbatim>\<open>Array.prototype.slice\<close> with a negative start),
  ordered token sets (the browser's \<^verbatim>\<open>DOMTokenList\<close>, i.e. \<^verbatim>\<open>element.classList\<close>)
  and generic lemmas on lists that several components share.
\<close>

named_theorems handler_defs "unfolding rules of the page's event handlers"
named_theorems dom_simps "rewrite rules for class lists and DOM node lists"

type_synonym jstring = string

text \<open>Characters that cannot be written inside a string literal of this file.\<close>

definition dq :: char where "dq = CHR 0x22"
definition sq :: char where "sq = CHR 0x27"
definition bslash :: char where "bslash = CHR 0x5C"

section \<open>Array.prototype.slice with a negative start\<close>

text \<open>
  \<^verbatim>\<open>arr.slice(-n)\<close> for \<open>n > 0\<close> returns the last \<open>n\<close> elements of \<open>arr\<close>, or all of
  them when there are fewer (ECMAScript: the start index \<open>len - n\<close> is clamped at 0).
\<close>

definition slice_last :: "nat \<Rightarrow> 'a list \<Rightarrow> 'a list" where
  "slice_last n xs = drop (length xs - n) xs"

section \<open>Ordered token sets: classList\<close>

text \<open>
  A \<^verbatim>\<open>DOMTokenList\<close> is an ordered set of tokens: \<^verbatim>\<open>add\<close> appends a token that is
  absent, \<^verbatim>\<open>remove\<close> deletes it, \<^verbatim>\<open>toggle\<close> does one or the other and returns whether
  the token is present afterwards, \<^verbatim>\<open>contains\<close> tests membership.
\<close>

definition tok_add :: "string \<Rightarrow> string list \<Rightarrow> string list" where
  "tok_add t ts = (if t \<in> set ts then ts else ts @ [t])"

definition tok_remove :: "string \<Rightarrow> string list \<Rightarrow> string list" where
  "tok_remove t ts = filter (\<lambda>u. u \<noteq> t) ts"

definition tok_toggle :: "string \<Rightarrow> string list \<Rightarrow> bool \<times> string list" where
  "tok_toggle t ts = (if t \<in> set ts then (False, tok_remove t ts) else (True, tok_add t ts))"

section \<open>Node.insertBefore on a child list\<close>

text \<open>
  \<^verbatim>\<open>parent.insertBefore(n, ref)\<close> for a node \<open>n\<close> not yet in the document (the only
  use in the source): \<open>n\<close> is put right before the child \<open>ref\<close>.
\<close>

fun insert_before :: "'a \<Rightarrow> 'a \<Rightarrow> 'a list \<Rightarrow> 'a list" where
  "insert_before n r [] = []"
| "insert_before n r (x # xs) = (if x = r then n # x # xs else x # insert_before n r xs)"

section \<open>Lemmas\<close>

lemma length_slice_last [simp]: "length (slice_last n xs) = min n (length xs)"
  by (simp add: slice_last_def)

lemma slice_last_id [simp]: "length xs \<le> n \<Longrightarrow> slice_last n xs = xs"
  by (simp add: slice_last_def)

lemma slice_last_suffix: "\<exists>ys. xs = ys @ slice_last n xs"
  by (metis append_take_drop_id slice_last_def)

lemma set_slice_last: "set (slice_last n xs) \<subseteq> set xs"
  by (simp add: slice_last_def set_drop_subset)

lemma last_slice_last: "0 < n \<Longrightarrow> xs \<noteq> [] \<Longrightarrow> last (slice_last n xs) = last xs"
  by (simp add: slice_last_def)

lemma set_tok_add [simp, dom_simps]: "set (tok_add t ts) = insert t (set ts)"
  by (auto simp: tok_add_def)

lemma set_tok_remove [simp, dom_simps]: "set (tok_remove t ts) = set ts - {t}"
  by (auto simp: tok_remove_def)

lemma distinct_tok_add [simp, dom_simps]: "distinct (tok_add t ts) = distinct ts"
  by (auto simp: tok_add_def)

lemma distinct_tok_remove [simp, dom_simps]: "distinct ts \<Longrightarrow> distinct (tok_remove t ts)"
  by (simp add: tok_remove_def)

lemma tok_toggle_present [simp, dom_simps]:
  "fst (tok_toggle t ts) \<longleftrightarrow> t \<notin> set ts"
  by (simp add: tok_toggle_def)

lemma set_tok_toggle [dom_simps]:
  "set (snd (tok_toggle t ts)) = (if t \<in> set ts then set ts - {t} else insert t (set ts))"
  by (simp add: tok_toggle_def)

lemma tok_add_absent [simp]: "t \<notin> set ts \<Longrightarrow> tok_add t ts = ts @ [t]"
  by (simp add: tok_add_def)

lemma tok_remove_absent [simp]: "t \<notin> set ts \<Longrightarrow> tok_remove t ts = ts"
  by (auto simp: tok_remove_def filter_id_conv)

lemma list_all_slice_last [simp]: "list_all P xs \<Longrightarrow> list_all P (slice_last n xs)"
  by (auto simp: slice_last_def list_all_iff dest: in_set_dropD)

lemma insert_before_append:
  "r \<notin> set xs \<Longrightarrow> insert_before n r (xs @ r # ys) = xs @ n # r # ys"
  by (induction xs) auto

end
