(* ===== verification/Js_Value.thy ===== *)
theory Js_Value
  imports Prelude
begin

text \<open>
  The JavaScript values the script handles. Everything it keeps in its comment list comes
  from \<^verbatim>\<open>JSON.parse\<close> or is an object literal it builds, so a value is a JSON value
  (\<open>json\<close>) or \<^verbatim>\<open>undefined\<close> (\<open>jsval\<close>), the result of reading a property that does
  not exist. Strings are lists of UTF-16 code units restricted to the Latin-1 range
  (\<open>char\<close> is 8 bits); numbers are integers, which covers every number the script
  writes (\<^verbatim>\<open>Date.now()\<close>). The theory gives the language operations the source
  relies on: truthiness (\<^verbatim>\<open>if (x)\<close>, \<^verbatim>\<open>a || b\<close>), \<^verbatim>\<open>String(v)\<close> with the
  \<^verbatim>\<open>TypeError\<close> it throws on some objects, property
  access \<^verbatim>\<open>c.name\<close> (which throws on \<^verbatim>\<open>null\<close>) and \<^verbatim>\<open>String.prototype.trim\<close>.
\<close>

datatype json =
    JNull
  | JBool bool
  | JNum int
  | JStr string
  | JArr "json list"
  | JObj "(string \<times> json) list"

datatype jsval = Undef | Val json

datatype js_error = TypeError | SyntaxError

section \<open>Truthiness\<close>

text \<open>ECMAScript ToBoolean: \<^verbatim>\<open>undefined\<close>, \<^verbatim>\<open>null\<close>, \<^verbatim>\<open>false\<close>, \<^verbatim>\<open>0\<close> and the
  empty string are falsy; every object, arrays included, is truthy.\<close>

fun js_truthy :: "jsval \<Rightarrow> bool" where
  "js_truthy Undef = False"
| "js_truthy (Val JNull) = False"
| "js_truthy (Val (JBool b)) = b"
| "js_truthy (Val (JNum n)) = (n \<noteq> 0)"
| "js_truthy (Val (JStr s)) = (s \<noteq> [])"
| "js_truthy (Val (JArr xs)) = True"
| "js_truthy (Val (JObj kvs)) = True"

section \<open>Decimal numerals\<close>

text \<open>Number::toString for integers: decimal digits, a leading minus sign when negative.\<close>

fun nat_dec :: "nat \<Rightarrow> string" where
  "nat_dec n = (if n < 10 then [char_of (48 + n)] else nat_dec (n div 10) @ [char_of (48 + n mod 10)])"

definition int_dec :: "int \<Rightarrow> string" where
  "int_dec i = (if i < 0 then CHR ''-'' # nat_dec (nat (- i)) else nat_dec (nat i))"

declare nat_dec.simps [simp del]

definition is_digit :: "char \<Rightarrow> bool" where
  "is_digit c \<longleftrightarrow> (48::nat) \<le> of_char c \<and> of_char c \<le> (57::nat)"

section \<open>String(v)\<close>

text \<open>
  ECMAScript ToString on the values above, when it returns: \<^verbatim>\<open>"null"\<close>,
  \<^verbatim>\<open>"true"\<close>/\<^verbatim>\<open>"false"\<close>, the decimal numeral, the string itself,
  \<^verbatim>\<open>Array.prototype.join(",")\<close> for an array (a \<^verbatim>\<open>null\<close> element gives the empty
  string), \<^verbatim>\<open>"[object Object]"\<close> for an object. When it throws is \<open>js_throws\<close> below,
  and \<open>js_ToString\<close> is the conversion with its exception.
\<close>

fun js_join :: "string \<Rightarrow> string list \<Rightarrow> string" where
  "js_join sep [] = []"
| "js_join sep [x] = x"
| "js_join sep (x # y # zs) = x @ sep @ js_join sep (y # zs)"

fun json_to_string :: "json \<Rightarrow> string" where
  "json_to_string JNull = ''null''"
| "json_to_string (JBool b) = (if b then ''true'' else ''false'')"
| "json_to_string (JNum n) = int_dec n"
| "json_to_string (JStr s) = s"
| "json_to_string (JArr xs) =
     js_join '','' (map (\<lambda>x. if x = JNull then [] else json_to_string x) xs)"
| "json_to_string (JObj kvs) = ''[object Object]''"

fun js_String :: "jsval \<Rightarrow> string" where
  "js_String Undef = ''undefined''"
| "js_String (Val v) = json_to_string v"

text \<open>
  Converting an object to a primitive (ToPrimitive, for \<^verbatim>\<open>String(v)\<close> and for
  \<^verbatim>\<open>new Date(v)\<close> alike) calls the first callable of its \<^verbatim>\<open>toString\<close> and
  \<^verbatim>\<open>valueOf\<close> whose result is a primitive, and throws a \<^verbatim>\<open>TypeError\<close> when there is
  none. No property of a parsed value is callable: an own key \<^verbatim>\<open>toString\<close> hides
  \<^verbatim>\<open>Object.prototype.toString\<close>, and the inherited \<^verbatim>\<open>valueOf\<close> returns the object
  itself, so the conversion of an object throws exactly when it has that own key. An
  array converts through \<^verbatim>\<open>join\<close>, which converts each element that is not
  \<^verbatim>\<open>null\<close>; primitives and \<^verbatim>\<open>undefined\<close> never throw.
\<close>

fun json_throws :: "json \<Rightarrow> bool" where
  "json_throws (JObj kvs) = (''toString'' \<in> set (map fst kvs))"
| "json_throws (JArr xs) = list_ex json_throws xs"
| "json_throws JNull = False"
| "json_throws (JBool b) = False"
| "json_throws (JNum n) = False"
| "json_throws (JStr s) = False"

fun js_throws :: "jsval \<Rightarrow> bool" where
  "js_throws Undef = False"
| "js_throws (Val v) = json_throws v"

definition js_ToString :: "jsval \<Rightarrow> js_error + string" where
  "js_ToString v = (if js_throws v then Inl TypeError else Inr (js_String v))"

section \<open>Property access\<close>

text \<open>
  \<^verbatim>\<open>v.k\<close> for the keys the script reads (\<^verbatim>\<open>name\<close>, \<^verbatim>\<open>body\<close>, \<^verbatim>\<open>ts\<close>): a
  \<^verbatim>\<open>TypeError\<close> on \<^verbatim>\<open>null\<close>; on an object the value of its own property, the last
  one when a key repeats; \<^verbatim>\<open>undefined\<close> otherwise, since no prototype of a JSON value
  defines these keys.
\<close>

fun get_prop :: "json \<Rightarrow> string \<Rightarrow> js_error + jsval" where
  "get_prop JNull k = Inl TypeError"
| "get_prop (JObj kvs) k = Inr (case map_of (rev kvs) k of None \<Rightarrow> Undef | Some v \<Rightarrow> Val v)"
| "get_prop (JBool b) k = Inr Undef"
| "get_prop (JNum n) k = Inr Undef"
| "get_prop (JStr s) k = Inr Undef"
| "get_prop (JArr xs) k = Inr Undef"

section \<open>String.prototype.trim\<close>

text \<open>
  White space and line terminators of ECMAScript within the Latin-1 range: tab, line feed,
  vertical tab, form feed, carriage return, space and no-break space (U+00A0).
\<close>

definition js_ws :: "char \<Rightarrow> bool" where
  "js_ws c \<longleftrightarrow> of_char c \<in> {9, 10, 11, 12, 13, 32, 160 :: nat}"

definition js_trim :: "string \<Rightarrow> string" where
  "js_trim s = rev (dropWhile js_ws (rev (dropWhile js_ws s)))"

section \<open>Lemmas\<close>

lemma nat_dec_digits: "\<forall>c \<in> set (nat_dec n). is_digit c"
proof (induction n rule: nat_dec.induct)
  case (1 n)
  have dig: "is_digit (char_of (48 + k))" if "k < 10" for k :: nat
    using that by (simp add: is_digit_def of_char_of)
  show ?case
    using "1" dig [of n] dig [of "n mod 10"] by (subst nat_dec.simps) auto
qed

lemma nat_dec_nonempty [simp]: "nat_dec n \<noteq> []"
  by (subst nat_dec.simps) simp

lemma get_prop_ok [simp]: "v \<noteq> JNull \<Longrightarrow> \<exists>r. get_prop v k = Inr r"
  by (cases v) auto

lemma js_trim_infix: "\<exists>a b. s = a @ js_trim s @ b"
proof -
  have "s = takeWhile js_ws s @ dropWhile js_ws s" by simp
  moreover have "rev (dropWhile js_ws s) = takeWhile js_ws (rev (dropWhile js_ws s)) @ dropWhile js_ws (rev (dropWhile js_ws s))"
    by simp
  then have "dropWhile js_ws s = js_trim s @ rev (takeWhile js_ws (rev (dropWhile js_ws s)))"
    unfolding js_trim_def by (metis rev_append rev_rev_ident)
  ultimately show ?thesis by metis
qed

lemma length_js_trim: "length (js_trim s) \<le> length s"
proof -
  obtain a b where "s = a @ js_trim s @ b"
    using js_trim_infix by blast
  then have "length s = length a + length (js_trim s) + length b"
    by (metis add.assoc length_append)
  then show ?thesis by simp
qed

lemma js_trim_hd: "js_trim s \<noteq> [] \<Longrightarrow> \<not> js_ws (hd (js_trim s))"
proof -
  assume ne: "js_trim s \<noteq> []"
  let ?d = "dropWhile js_ws s"
  have "hd (js_trim s) = hd ?d"
    using ne unfolding js_trim_def
    by (metis append_take_drop_id dropWhile_eq_Nil_conv hd_append2 rev_is_Nil_conv rev_append rev_rev_ident takeWhile_dropWhile_id)
  moreover have "?d \<noteq> []"
    using ne unfolding js_trim_def by (metis dropWhile.simps(1) rev.simps(1))
  ultimately show ?thesis by (metis hd_dropWhile)
qed

lemma js_trim_last: "js_trim s \<noteq> [] \<Longrightarrow> \<not> js_ws (last (js_trim s))"
proof -
  assume ne: "js_trim s \<noteq> []"
  let ?r = "dropWhile js_ws (rev (dropWhile js_ws s))"
  have "?r \<noteq> []" using ne by (simp add: js_trim_def)
  then have "\<not> js_ws (hd ?r)" by (metis hd_dropWhile)
  moreover have "last (js_trim s) = hd ?r"
    using \<open>?r \<noteq> []\<close> by (simp add: js_trim_def last_rev)
  ultimately show ?thesis by simp
qed

lemma dropWhile_hd_keep: "xs = [] \<or> \<not> P (hd xs) \<Longrightarrow> dropWhile P xs = xs"
  by (cases xs) auto

lemma js_trim_idem: "js_trim (js_trim s) = js_trim s"
proof (cases "js_trim s = []")
  case False
  let ?t = "js_trim s"
  have "dropWhile js_ws ?t = ?t" using js_trim_hd [OF False] by (intro dropWhile_hd_keep) simp
  moreover have "dropWhile js_ws (rev ?t) = rev ?t"
    using js_trim_last [OF False] False by (intro dropWhile_hd_keep) (simp add: hd_rev)
  ultimately show ?thesis by (simp add: js_trim_def [of ?t])
qed (simp add: js_trim_def [of "[]"])

end
