(* ===== verification/Json_Text.thy ===== *)
theory Json_Text
  imports Js_Value
begin

text \<open>
  \<^verbatim>\<open>JSON.stringify\<close> and \<^verbatim>\<open>JSON.parse\<close>, the browser built-ins through which
  \<^verbatim>\<open>saveComments\<close> and \<^verbatim>\<open>loadComments\<close> (\<^verbatim>\<open>src/index.js\<close>, lines 163--174)
  store the comment list as text, modelled from ECMAScript on the values of
  \<open>Js_Value\<close>. \<open>json_print\<close> writes no white space and escapes strings as
  QuoteJSONString does; \<open>parse_value\<close> is a recursive-descent parser over the
  characters, with a fuel argument, and \<open>json_parse\<close> runs it with fuel
  \<open>2 * length s + 2\<close>. The parser is split into steps that take the recursive calls as
  arguments (\<open>parse_token\<close>, \<open>elems_step\<close>, \<open>member_step\<close>), so that each step is
  reasoned about once. An object with a repeated key keeps the last value at the first
  position, as \<^verbatim>\<open>JSON.parse\<close> does (\<open>obj_build\<close>).

  Not modelled: numbers with a fraction or an exponent (the model rejects them, the
  browser accepts them; the script never writes one) and \<^verbatim>\<open>\\u\<close> escapes of code
  units above U+00FF (outside the model's character type).

  The lemmas show that printing and parsing are inverse on well-formed values (no
  repeated object key) and that the fuel given by \<open>json_parse\<close> never runs out.
\<close>

section \<open>JSON.stringify\<close>

definition json_ws :: "char \<Rightarrow> bool" where
  "json_ws c \<longleftrightarrow> c \<in> {CHR 0x20, CHR 0x09, CHR 0x0A, CHR 0x0D}"

definition hex_digit :: "nat \<Rightarrow> char" where
  "hex_digit n = (if n < 10 then char_of (48 + n) else char_of (87 + n))"

definition json_esc_char :: "char \<Rightarrow> string" where
  "json_esc_char c =
     (if c = dq then [bslash, dq]
      else if c = bslash then [bslash, bslash]
      else if c = CHR 0x08 then [bslash, CHR ''b'']
      else if c = CHR 0x09 then [bslash, CHR ''t'']
      else if c = CHR 0x0A then [bslash, CHR ''n'']
      else if c = CHR 0x0C then [bslash, CHR ''f'']
      else if c = CHR 0x0D then [bslash, CHR ''r'']
      else if of_char c < (32::nat)
      then [bslash, CHR ''u'', CHR ''0'', CHR ''0'', hex_digit (of_char c div 16), hex_digit (of_char c mod 16)]
      else [c])"

definition json_quote :: "string \<Rightarrow> string" where
  "json_quote s = dq # concat (map json_esc_char s) @ [dq]"

fun json_print :: "json \<Rightarrow> string" where
  "json_print JNull = ''null''"
| "json_print (JBool b) = (if b then ''true'' else ''false'')"
| "json_print (JNum i) = int_dec i"
| "json_print (JStr s) = json_quote s"
| "json_print (JArr xs) = CHR ''['' # js_join '','' (map json_print xs) @ '']''"
| "json_print (JObj kvs) =
     CHR ''{'' # js_join '','' (map (\<lambda>(k, v). json_quote k @ CHR '':'' # json_print v) kvs) @ ''}''"

section \<open>JSON.parse\<close>

definition hex_val :: "char \<Rightarrow> nat option" where
  "hex_val c =
     (let n = of_char c in
      if 48 \<le> n \<and> n \<le> 57 then Some (n - 48)
      else if 97 \<le> n \<and> n \<le> 102 then Some (n - 87)
      else if 65 \<le> n \<and> n \<le> 70 then Some (n - 55)
      else None)"

definition unicode_escape :: "string \<Rightarrow> char option" where
  "unicode_escape hs =
     (case those (map hex_val hs) of
        Some [a, b, c, d] \<Rightarrow>
          (let n = ((a * 16 + b) * 16 + c) * 16 + d in if n < 256 then Some (char_of n) else None)
      | _ \<Rightarrow> None)"

definition simple_escape :: "char \<Rightarrow> char option" where
  "simple_escape e =
     (if e = dq then Some dq
      else if e = bslash then Some bslash
      else if e = CHR ''/'' then Some (CHR ''/'')
      else if e = CHR ''b'' then Some (CHR 0x08)
      else if e = CHR ''f'' then Some (CHR 0x0C)
      else if e = CHR ''n'' then Some (CHR 0x0A)
      else if e = CHR ''r'' then Some (CHR 0x0D)
      else if e = CHR ''t'' then Some (CHR 0x09)
      else None)"

function parse_str_body :: "string \<Rightarrow> (string \<times> string) option" where
  "parse_str_body [] = None"
| "parse_str_body (c # cs) =
     (if c = dq then Some ([], cs)
      else if c = bslash then
        (case cs of
           [] \<Rightarrow> None
         | e # cs' \<Rightarrow>
             (if e = CHR ''u'' then
                (case unicode_escape (take 4 cs') of
                   None \<Rightarrow> None
                 | Some d \<Rightarrow> map_option (\<lambda>(s, r). (d # s, r)) (parse_str_body (drop 4 cs')))
              else
                (case simple_escape e of
                   None \<Rightarrow> None
                 | Some d \<Rightarrow> map_option (\<lambda>(s, r). (d # s, r)) (parse_str_body cs'))))
      else if of_char c < (32::nat) then None
      else map_option (\<lambda>(s, r). (c # s, r)) (parse_str_body cs))"
  by pat_completeness auto
termination
  by (relation "measure length") auto

definition digits_val :: "string \<Rightarrow> nat" where
  "digits_val ds = foldl (\<lambda>n d. 10 * n + (of_char d - 48)) 0 ds"

definition parse_nat :: "string \<Rightarrow> (nat \<times> string) option" where
  "parse_nat cs =
     (let ds = takeWhile is_digit cs in
      if ds = [] then None
      else if hd ds = CHR ''0'' \<and> 1 < length ds then None
      else Some (digits_val ds, dropWhile is_digit cs))"

definition parse_num :: "string \<Rightarrow> (int \<times> string) option" where
  "parse_num cs =
     (case cs of
        [] \<Rightarrow> None
      | c # r \<Rightarrow>
          if c = CHR ''-'' then map_option (\<lambda>(n, r'). (- int n, r')) (parse_nat r)
          else map_option (\<lambda>(n, r'). (int n, r')) (parse_nat cs))"

definition obj_put :: "string \<Rightarrow> json \<Rightarrow> (string \<times> json) list \<Rightarrow> (string \<times> json) list" where
  "obj_put k v kvs =
     (if k \<in> fst ` set kvs then map (\<lambda>(k', v'). if k' = k then (k', v) else (k', v')) kvs
      else kvs @ [(k, v)])"

definition obj_build :: "(string \<times> json) list \<Rightarrow> (string \<times> json) list" where
  "obj_build kvs = fold (\<lambda>(k, v). obj_put k v) kvs []"

type_synonym 'a pres = "(js_error + 'a \<times> string) option"

definition pres_err :: "'a pres" where
  "pres_err = Some (Inl SyntaxError)"

definition pres_map :: "('a \<Rightarrow> 'b) \<Rightarrow> 'a pres \<Rightarrow> 'b pres" where
  "pres_map f res =
     (case res of
        None \<Rightarrow> None
      | Some (Inl e) \<Rightarrow> Some (Inl e)
      | Some (Inr (x, r)) \<Rightarrow> Some (Inr (f x, r)))"

definition parse_scalar :: "char \<Rightarrow> string \<Rightarrow> json pres" where
  "parse_scalar c r =
     (if c = dq then
        (case parse_str_body r of None \<Rightarrow> pres_err | Some (s, r') \<Rightarrow> Some (Inr (JStr s, r')))
      else if c = CHR ''t'' then
        (if take 3 r = ''rue'' then Some (Inr (JBool True, drop 3 r)) else pres_err)
      else if c = CHR ''f'' then
        (if take 4 r = ''alse'' then Some (Inr (JBool False, drop 4 r)) else pres_err)
      else if c = CHR ''n'' then
        (if take 3 r = ''ull'' then Some (Inr (JNull, drop 3 r)) else pres_err)
      else
        (case parse_num (c # r) of None \<Rightarrow> pres_err | Some (i, r') \<Rightarrow> Some (Inr (JNum i, r'))))"

definition parse_token ::
  "(string \<Rightarrow> json list pres) \<Rightarrow> (string \<Rightarrow> (string \<times> json) list pres) \<Rightarrow> char \<Rightarrow> string \<Rightarrow> json pres" where
  "parse_token pe pm c r =
     (if c = CHR ''['' then
        (case dropWhile json_ws r of
           [] \<Rightarrow> pres_err
         | d # r' \<Rightarrow> if d = CHR '']'' then Some (Inr (JArr [], r')) else pres_map JArr (pe r))
      else if c = CHR ''{'' then
        (case dropWhile json_ws r of
           [] \<Rightarrow> pres_err
         | d # r' \<Rightarrow> if d = CHR ''}'' then Some (Inr (JObj [], r')) else pres_map (JObj \<circ> obj_build) (pm r))
      else parse_scalar c r)"

definition elems_step ::
  "(string \<Rightarrow> json pres) \<Rightarrow> (string \<Rightarrow> json list pres) \<Rightarrow> string \<Rightarrow> json list pres" where
  "elems_step pv pe cs =
     (case pv cs of
        None \<Rightarrow> None
      | Some (Inl e) \<Rightarrow> Some (Inl e)
      | Some (Inr (v, r)) \<Rightarrow>
          (case dropWhile json_ws r of
             [] \<Rightarrow> pres_err
           | d # r' \<Rightarrow>
               if d = CHR '']'' then Some (Inr ([v], r'))
               else if d = CHR '','' then pres_map (Cons v) (pe r')
               else pres_err))"

definition member_step ::
  "(string \<Rightarrow> json pres) \<Rightarrow> (string \<Rightarrow> (string \<times> json) list pres) \<Rightarrow> string \<Rightarrow> (string \<times> json) list pres" where
  "member_step pv pm cs =
     (case dropWhile json_ws cs of
        [] \<Rightarrow> pres_err
      | c # r \<Rightarrow>
          if c \<noteq> dq then pres_err
          else (case parse_str_body r of
                  None \<Rightarrow> pres_err
                | Some (k, r1) \<Rightarrow>
                    (case dropWhile json_ws r1 of
                       [] \<Rightarrow> pres_err
                     | d # r2 \<Rightarrow>
                         if d \<noteq> CHR '':'' then pres_err
                         else (case pv r2 of
                                 None \<Rightarrow> None
                               | Some (Inl e) \<Rightarrow> Some (Inl e)
                               | Some (Inr (v, r3)) \<Rightarrow>
                                   (case dropWhile json_ws r3 of
                                      [] \<Rightarrow> pres_err
                                    | e # r4 \<Rightarrow>
                                        if e = CHR ''}'' then Some (Inr ([(k, v)], r4))
                                        else if e = CHR '','' then pres_map (Cons (k, v)) (pm r4)
                                        else pres_err)))))"

fun parse_value :: "nat \<Rightarrow> string \<Rightarrow> json pres"
and parse_elems :: "nat \<Rightarrow> string \<Rightarrow> json list pres"
and parse_members :: "nat \<Rightarrow> string \<Rightarrow> (string \<times> json) list pres" where
  "parse_value 0 cs = None"
| "parse_value (Suc n) cs =
     (case dropWhile json_ws cs of
        [] \<Rightarrow> pres_err
      | c # r \<Rightarrow> parse_token (parse_elems n) (parse_members n) c r)"
| "parse_elems 0 cs = None"
| "parse_elems (Suc n) cs = elems_step (parse_value n) (parse_elems n) cs"
| "parse_members 0 cs = None"
| "parse_members (Suc n) cs = member_step (parse_value n) (parse_members n) cs"

definition json_parse :: "string \<Rightarrow> js_error + json" where
  "json_parse s =
     (case parse_value (2 * length s + 2) s of
        Some (Inr (v, r)) \<Rightarrow> if dropWhile json_ws r = [] then Inr v else Inl SyntaxError
      | Some (Inl e) \<Rightarrow> Inl e
      | None \<Rightarrow> Inl SyntaxError)"

section \<open>Measures and predicates of the proofs\<close>

definition num_stop :: "string \<Rightarrow> bool" where
  "num_stop r \<longleftrightarrow> r = [] \<or> \<not> is_digit (hd r)"

fun jsize :: "json \<Rightarrow> nat" where
  "jsize (JArr xs) = Suc (sum_list (map jsize xs) + length xs)"
| "jsize (JObj kvs) = Suc (sum_list (map (\<lambda>(k, v). jsize v) kvs) + length kvs)"
| "jsize _ = 1"

fun json_wf :: "json \<Rightarrow> bool" where
  "json_wf (JArr xs) = list_all json_wf xs"
| "json_wf (JObj kvs) = (distinct (map fst kvs) \<and> list_all (\<lambda>(k, v). json_wf v) kvs)"
| "json_wf _ = True"

definition json_stop :: "string \<Rightarrow> bool" where
  "json_stop r \<longleftrightarrow> r = [] \<or> hd r \<in> {CHR '','', CHR '']'', CHR ''}''}"

definition shorter_res :: "'a pres \<Rightarrow> string \<Rightarrow> bool" where
  "shorter_res res cs \<longleftrightarrow> (\<forall>v r. res = Some (Inr (v, r)) \<longrightarrow> length r < length cs)"

definition shorter_fun :: "(string \<Rightarrow> 'a pres) \<Rightarrow> bool" where
  "shorter_fun f \<longleftrightarrow> (\<forall>cs. shorter_res (f cs) cs)"

text \<open>What a parse result promises of the value it returns: \<open>res_all P\<close> of one result,
  \<open>fun_all P\<close> of every result of a parser; \<open>member_wf\<close> of an object member.\<close>

definition res_all :: "('a \<Rightarrow> bool) \<Rightarrow> 'a pres \<Rightarrow> bool" where
  "res_all P res \<longleftrightarrow> (\<forall>v r. res = Some (Inr (v, r)) \<longrightarrow> P v)"

definition fun_all :: "('a \<Rightarrow> bool) \<Rightarrow> (string \<Rightarrow> 'a pres) \<Rightarrow> bool" where
  "fun_all P f \<longleftrightarrow> (\<forall>cs. res_all P (f cs))"

definition member_wf :: "string \<times> json \<Rightarrow> bool" where
  "member_wf kv \<longleftrightarrow> json_wf (snd kv)"

section \<open>Lemmas\<close>



lemma hex_val_hex_digit: "k < 16 \<Longrightarrow> hex_val (hex_digit k) = Some k"
  by (auto simp: hex_val_def hex_digit_def Let_def of_char_of)

lemma unicode_escape_ctrl:
  assumes "of_char c < (32::nat)"
  shows "unicode_escape [CHR ''0'', CHR ''0'', hex_digit (of_char c div 16), hex_digit (of_char c mod 16)] = Some c"
proof -
  have "hex_val (CHR ''0'') = Some 0" by (simp add: hex_val_def)
  moreover have "hex_val (hex_digit (of_char c div 16)) = Some (of_char c div 16)"
    using assms by (intro hex_val_hex_digit) auto
  moreover have "hex_val (hex_digit (of_char c mod 16)) = Some (of_char c mod 16)"
    by (intro hex_val_hex_digit) auto
  moreover have "(of_char c div 16) * 16 + of_char c mod 16 = (of_char c :: nat)"
    by simp
  ultimately show ?thesis
    using assms by (simp add: unicode_escape_def)
qed

lemma parse_str_body_esc:
  "parse_str_body (json_esc_char c @ r) = map_option (\<lambda>(s, r'). (c # s, r')) (parse_str_body r)"
proof -
  consider "c = dq" | "c = bslash" | "c = CHR 0x08" | "c = CHR 0x09" | "c = CHR 0x0A"
    | "c = CHR 0x0C" | "c = CHR 0x0D"
    | "c \<notin> {dq, bslash, CHR 0x08, CHR 0x09, CHR 0x0A, CHR 0x0C, CHR 0x0D}" "of_char c < (32::nat)"
    | "c \<notin> {dq, bslash, CHR 0x08, CHR 0x09, CHR 0x0A, CHR 0x0C, CHR 0x0D}" "\<not> of_char c < (32::nat)"
    by blast
  then show ?thesis
  proof cases
    case 8
    then show ?thesis
      by (simp add: json_esc_char_def unicode_escape_ctrl bslash_def dq_def)
  next
    case 9
    then show ?thesis
      by (simp add: json_esc_char_def)
  qed (simp_all add: json_esc_char_def simple_escape_def bslash_def dq_def)
qed

lemma parse_str_body_quote: "parse_str_body (concat (map json_esc_char s) @ dq # r) = Some (s, r)"
  by (induction s) (simp_all add: parse_str_body_esc)

lemma digits_val_snoc: "digits_val (ds @ [d]) = 10 * digits_val ds + (of_char d - 48)"
  by (simp add: digits_val_def)

lemma digits_val_nat_dec: "digits_val (nat_dec n) = n"
proof (induction n rule: nat_dec.induct)
  case (1 n)
  show ?case
  proof (cases "n < 10")
    case True
    then show ?thesis by (subst nat_dec.simps) (simp add: digits_val_def of_char_of)
  next
    case False
    then have "digits_val (nat_dec n) = 10 * (n div 10) + (of_char (char_of (48 + n mod 10)) - 48)"
      using "1" by (subst nat_dec.simps) (simp add: digits_val_snoc)
    also have "\<dots> = n" by (simp add: of_char_of)
    finally show ?thesis .
  qed
qed

lemma nat_dec_hd_nonzero: "0 < n \<Longrightarrow> hd (nat_dec n) \<noteq> CHR ''0''"
proof (induction n rule: nat_dec.induct)
  case (1 n)
  show ?case
  proof (cases "n < 10")
    case True
    then have "nat_dec n = [char_of (48 + n)]" by (subst nat_dec.simps) simp
    then have "of_char (hd (nat_dec n)) = (48 + n :: nat)" using True by (simp add: of_char_of)
    moreover have "of_char (CHR ''0'') = (48::nat)" by simp
    ultimately show ?thesis using "1.prems" by auto
  next
    case False
    then have "nat_dec n = nat_dec (n div 10) @ [char_of (48 + n mod 10)]" by (subst nat_dec.simps) simp
    moreover have "hd (nat_dec (n div 10)) \<noteq> CHR ''0''" using "1.IH" False by simp
    ultimately show ?thesis by simp
  qed
qed

lemma nat_dec_zero: "nat_dec 0 = ''0''"
  by (subst nat_dec.simps) code_simp

lemma parse_nat_nat_dec: "num_stop r \<Longrightarrow> parse_nat (nat_dec n @ r) = Some (n, r)"
proof -
  assume stop: "num_stop r"
  have dig: "\<forall>c \<in> set (nat_dec n). is_digit c" by (rule nat_dec_digits)
  have tw: "takeWhile is_digit (nat_dec n @ r) = nat_dec n"
    using dig stop by (cases r) (auto simp: num_stop_def takeWhile_append2)
  have dw: "dropWhile is_digit (nat_dec n @ r) = r"
    using dig stop by (cases r) (auto simp: num_stop_def dropWhile_append2)
  have lz: "\<not> (hd (nat_dec n) = CHR ''0'' \<and> 1 < length (nat_dec n))"
    using nat_dec_hd_nonzero [of n] by (cases "n = 0") (auto simp: nat_dec_zero)
  show ?thesis
    using tw dw lz by (simp add: parse_nat_def digits_val_nat_dec Let_def)
qed

lemma parse_num_int_dec: "num_stop r \<Longrightarrow> parse_num (int_dec i @ r) = Some (i, r)"
proof (cases "i < 0")
  case True
  assume "num_stop r"
  then show ?thesis using True by (simp add: int_dec_def parse_num_def parse_nat_nat_dec)
next
  case False
  assume stop: "num_stop r"
  obtain c cs where cs: "nat_dec (nat i) = c # cs" by (cases "nat_dec (nat i)") auto
  have "is_digit c" using nat_dec_digits [of "nat i"] cs by simp
  then have "c \<noteq> CHR ''-''" by (auto simp: is_digit_def)
  then show ?thesis using False stop cs parse_nat_nat_dec [OF stop, of "nat i"]
    by (simp add: int_dec_def parse_num_def)
qed

lemma json_stop_num_stop: "json_stop r \<Longrightarrow> num_stop r"
  by (auto simp: json_stop_def num_stop_def is_digit_def)

lemma int_dec_cons: "\<exists>c cs. int_dec i = c # cs \<and> (c = CHR ''-'' \<or> is_digit c)"
proof (cases "i < 0")
  case False
  obtain c cs where cs: "nat_dec (nat i) = c # cs"
    by (cases "nat_dec (nat i)") auto
  then have "is_digit c" using nat_dec_digits [of "nat i"] by simp
  then show ?thesis using False cs by (simp add: int_dec_def)
qed (simp add: int_dec_def)

lemma json_print_cons:
  "\<exists>c cs. json_print j = c # cs \<and> \<not> json_ws c \<and> c \<notin> {CHR '']'', CHR ''}'', CHR '',''}"
proof (cases j)
  case (JNum i)
  obtain c cs where cs: "int_dec i = c # cs \<and> (c = CHR ''-'' \<or> is_digit c)"
    using int_dec_cons by blast
  then show ?thesis using JNum by (auto simp: json_ws_def is_digit_def)
qed (auto simp: json_ws_def json_quote_def dq_def)

lemma dq_neq [simp]: "dq \<noteq> CHR ''[''" "dq \<noteq> CHR ''{''" "json_ws dq = False"
  "dq \<noteq> CHR ''t''" "dq \<noteq> CHR ''f''" "dq \<noteq> CHR ''n''" "dq \<noteq> CHR ''}''"
  by (simp_all add: dq_def json_ws_def)

lemma json_ws_punct [simp]:
  "\<not> json_ws CHR '':''" "\<not> json_ws CHR '',''" "\<not> json_ws CHR '']''" "\<not> json_ws CHR ''}''"
  "\<not> json_ws CHR ''[''" "\<not> json_ws CHR ''{''"
  by (simp_all add: json_ws_def)

lemma dropWhile_json_print:
  "dropWhile json_ws (json_print j @ r) = json_print j @ r"
  using json_print_cons [of j] by auto

lemma parse_elems_print:
  assumes IH: "\<And>x n r. x \<in> set xs \<Longrightarrow> json_wf x \<Longrightarrow> jsize x \<le> n \<Longrightarrow> json_stop r \<Longrightarrow>
                 parse_value n (json_print x @ r) = Some (Inr (x, r))"
  shows "xs \<noteq> [] \<Longrightarrow> list_all json_wf xs \<Longrightarrow> sum_list (map jsize xs) + length xs \<le> n \<Longrightarrow>
         parse_elems n (js_join '','' (map json_print xs) @ CHR '']'' # r) = Some (Inr (xs, r))"
  using IH
proof (induction xs arbitrary: n)
  case Nil
  then show ?case by simp
next
  case (Cons x xs)
  then obtain m where n: "n = Suc m" and m: "jsize x \<le> m" by (cases n) auto
  show ?case
  proof (cases xs)
    case Nil
    have "parse_value m (json_print x @ CHR '']'' # r) = Some (Inr (x, CHR '']'' # r))"
      using Cons.prems m by (auto simp: json_stop_def)
    then show ?thesis using n Nil by (simp add: elems_step_def)
  next
    case (Cons y ys)
    let ?tl = "js_join '','' (map json_print xs) @ CHR '']'' # r"
    have "parse_value m (json_print x @ CHR '','' # ?tl) = Some (Inr (x, CHR '','' # ?tl))"
      using Cons.prems m by (auto simp: json_stop_def)
    moreover have "parse_elems m ?tl = Some (Inr (xs, r))"
      using Cons.IH Cons.prems n Cons by auto
    ultimately show ?thesis using n Cons by (simp add: elems_step_def pres_map_def)
  qed
qed

lemma parse_members_print:
  assumes IH: "\<And>k v n r. (k, v) \<in> set kvs \<Longrightarrow> json_wf v \<Longrightarrow> jsize v \<le> n \<Longrightarrow> json_stop r \<Longrightarrow>
                 parse_value n (json_print v @ r) = Some (Inr (v, r))"
  shows "kvs \<noteq> [] \<Longrightarrow> list_all (\<lambda>(k, v). json_wf v) kvs \<Longrightarrow>
         sum_list (map (\<lambda>(k, v). jsize v) kvs) + length kvs \<le> n \<Longrightarrow>
         parse_members n (js_join '','' (map (\<lambda>(k, v). json_quote k @ CHR '':'' # json_print v) kvs)
                          @ CHR ''}'' # r) = Some (Inr (kvs, r))"
  using IH
proof (induction kvs arbitrary: n)
  case Nil
  then show ?case by simp
next
  case (Cons kv kvs)
  obtain k v where kv: "kv = (k, v)" by (cases kv)
  from Cons.prems kv obtain m where n: "n = Suc m" and m: "jsize v \<le> m" by (cases n) auto
  have q: "json_quote k @ rest = dq # concat (map json_esc_char k) @ dq # rest" for rest
    by (simp add: json_quote_def)
  show ?case
  proof (cases "kvs = []")
    case True
    have "parse_value m (json_print v @ CHR ''}'' # r) = Some (Inr (v, CHR ''}'' # r))"
      using Cons.prems(4) [of k v m "CHR ''}'' # r"] Cons.prems(2) m kv by (simp add: json_stop_def)
    then show ?thesis using n True kv q
      by (simp add: member_step_def parse_str_body_quote)
  next
    case False
    let ?tl = "js_join '','' (map (\<lambda>(k, v). json_quote k @ CHR '':'' # json_print v) kvs) @ CHR ''}'' # r"
    have "parse_value m (json_print v @ CHR '','' # ?tl) = Some (Inr (v, CHR '','' # ?tl))"
      using Cons.prems(4) [of k v m "CHR '','' # ?tl"] Cons.prems(2) m kv by (simp add: json_stop_def)
    moreover have "parse_members m ?tl = Some (Inr (kvs, r))"
      using Cons.IH [of m] Cons.prems False n kv by auto
    moreover obtain kv' kvs' where "kvs = kv' # kvs'" using False by (cases kvs) auto
    ultimately show ?thesis using n kv q
      by (simp add: member_step_def pres_map_def parse_str_body_quote)
  qed
qed

lemma obj_build_distinct_aux:
  "distinct (map fst (acc @ kvs)) \<Longrightarrow> fold (\<lambda>(k, v). obj_put k v) kvs acc = acc @ kvs"
proof (induction kvs arbitrary: acc)
  case Nil
  then show ?case by simp
next
  case (Cons kv kvs)
  obtain k v where kv: "kv = (k, v)" by (cases kv)
  with Cons.prems have "k \<notin> fst ` set acc" by auto
  then have "obj_put k v acc = acc @ [(k, v)]" by (simp add: obj_put_def)
  then show ?case using Cons kv by simp
qed

lemma obj_build_distinct: "distinct (map fst kvs) \<Longrightarrow> obj_build kvs = kvs"
  using obj_build_distinct_aux [of "[]" kvs] by (simp add: obj_build_def)

lemma parse_value_print:
  "json_wf j \<Longrightarrow> jsize j \<le> n \<Longrightarrow> json_stop r \<Longrightarrow> parse_value n (json_print j @ r) = Some (Inr (j, r))"
proof (induction j arbitrary: n r)
  case JNull
  then obtain m where "n = Suc m" by (cases n) auto
  then show ?case by (simp add: json_ws_def dq_def parse_token_def parse_scalar_def)
next
  case (JBool b)
  then obtain m where "n = Suc m" by (cases n) auto
  then show ?case by (simp add: json_ws_def dq_def parse_token_def parse_scalar_def)
next
  case (JNum i)
  then obtain m where n: "n = Suc m" by (cases n) auto
  obtain c cs where cs: "int_dec i = c # cs" and c: "c = CHR ''-'' \<or> is_digit c"
    using int_dec_cons by blast
  have "parse_num (int_dec i @ r) = Some (i, r)"
    using JNum.prems by (simp add: parse_num_int_dec json_stop_num_stop)
  moreover have "\<not> json_ws c" "c \<noteq> CHR ''[''" "c \<noteq> CHR ''{''" "c \<noteq> dq"
    "c \<noteq> CHR ''t''" "c \<noteq> CHR ''f''" "c \<noteq> CHR ''n''"
    using c by (auto simp: json_ws_def is_digit_def dq_def)
  ultimately show ?case using n cs by (simp add: parse_token_def parse_scalar_def)
next
  case (JStr s)
  then obtain m where "n = Suc m" by (cases n) auto
  then show ?case by (simp add: json_quote_def parse_str_body_quote parse_token_def parse_scalar_def)
next
  case (JArr xs)
  then obtain m where n: "n = Suc m" by (cases n) auto
  show ?case
  proof (cases "xs = []")
    case True
    then show ?thesis using n by (simp add: parse_token_def)
  next
    case False
    let ?body = "js_join '','' (map json_print xs) @ CHR '']'' # r"
    obtain x xs' where xs: "xs = x # xs'" using False by (cases xs) auto
    obtain c cs where "json_print x = c # cs" and c: "\<not> json_ws c" "c \<noteq> CHR '']''"
      using json_print_cons [of x] by auto
    then obtain cs' where hd: "?body = c # cs'" using xs by (cases xs') auto
    have "parse_elems m ?body = Some (Inr (xs, r))"
      using JArr n False by (intro parse_elems_print) auto
    then show ?thesis using n hd c by (simp add: parse_token_def pres_map_def)
  qed
next
  case (JObj kvs)
  then obtain m where n: "n = Suc m" by (cases n) auto
  show ?case
  proof (cases "kvs = []")
    case True
    then show ?thesis using n by (simp add: parse_token_def)
  next
    case False
    let ?body = "js_join '','' (map (\<lambda>(k, v). json_quote k @ CHR '':'' # json_print v) kvs) @ CHR ''}'' # r"
    obtain kv kvs' where kvs: "kvs = kv # kvs'" using False by (cases kvs) auto
    obtain cs' where hd: "?body = dq # cs'"
      using kvs by (cases kv; cases kvs') (auto simp: json_quote_def)
    have "parse_members m ?body = Some (Inr (kvs, r))"
      using JObj n False by (intro parse_members_print) (auto simp: snds.intros)
    moreover have "obj_build kvs = kvs" using JObj.prems by (simp add: obj_build_distinct)
    ultimately show ?thesis using n hd by (simp add: parse_token_def pres_map_def)
  qed
qed

lemma length_js_join: "xs \<noteq> [] \<Longrightarrow> length (js_join sep xs) + length sep = sum_list (map length xs) + length sep * length xs"
proof (induction sep xs rule: js_join.induct)
  case (3 sep x y zs)
  then show ?case by simp
qed simp_all

lemma jsize_le_length: "jsize j \<le> length (json_print j)"
proof (induction j)
  case (JNum i)
  then show ?case using int_dec_cons [of i] by auto
next
  case (JStr s)
  then show ?case by (simp add: json_quote_def)
next
  case (JArr xs)
  show ?case
  proof (cases "xs = []")
    case False
    have "sum_list (map jsize xs) \<le> sum_list (map (\<lambda>x. length (json_print x)) xs)"
      using JArr by (intro sum_list_mono) auto
    then show ?thesis using False length_js_join [OF _, of "map json_print xs" "'',''"]
      by (simp add: o_def)
  qed simp
next
  case (JObj kvs)
  define L where "L = map (\<lambda>(k, v). json_quote k @ CHR '':'' # json_print v) kvs"
  show ?case
  proof (cases "kvs = []")
    case False
    have "sum_list (map (\<lambda>(k, v). jsize v + 3) kvs)
            \<le> sum_list (map (\<lambda>(k, v). length (json_quote k @ CHR '':'' # json_print v)) kvs)"
      using JObj by (intro sum_list_mono) (force simp: json_quote_def intro: trans_le_add2)
    also have "\<dots> = sum_list (map length L)"
      by (simp add: L_def comp_def split_def)
    finally have A0: "sum_list (map (\<lambda>(k, v). jsize v + 3) kvs) \<le> sum_list (map length L)" .
    have "sum_list (map (\<lambda>(k, v). jsize v + 3) kvs) = sum_list (map (\<lambda>(k, v). jsize v) kvs) + 3 * length kvs"
      by (induction kvs) auto
    with A0 have A: "sum_list (map (\<lambda>(k, v). jsize v) kvs) + 3 * length kvs \<le> sum_list (map length L)"
      by simp
    have B: "length (js_join '','' L) + 1 = sum_list (map length L) + length L"
      using False length_js_join [of L "'',''"] by (simp add: L_def)
    have "json_print (JObj kvs) = CHR ''{'' # js_join '','' L @ ''}''"
      by (simp add: L_def)
    then show ?thesis using A B by (simp add: L_def)
  qed simp
qed simp_all

text \<open>\<^verbatim>\<open>JSON.parse(JSON.stringify(v))\<close> gives back \<open>v\<close> for every value without a
  repeated object key.\<close>

theorem json_parse_print: "json_wf j \<Longrightarrow> json_parse (json_print j) = Inr j"
proof -
  assume wf: "json_wf j"
  have "jsize j \<le> 2 * length (json_print j) + 2" using jsize_le_length [of j] by simp
  then have "parse_value (2 * length (json_print j) + 2) (json_print j @ []) = Some (Inr (j, []))"
    using wf by (intro parse_value_print) (simp_all add: json_stop_def)
  then show ?thesis by (simp add: json_parse_def)
qed

lemma parse_str_body_shorter: "parse_str_body cs = Some (s, r) \<Longrightarrow> length r < length cs"
proof (induction cs arbitrary: s rule: parse_str_body.induct)
  case (2 c cs)
  then show ?case
    by (fastforce split: if_splits option.splits list.splits)
qed simp

lemma parse_num_shorter: "parse_num cs = Some (i, r) \<Longrightarrow> length r < length cs"
proof -
  have nat: "parse_nat xs = Some (k, r') \<Longrightarrow> length r' < length xs" for xs k r'
    by (cases xs) (auto simp: parse_nat_def Let_def split: if_splits intro: le_imp_less_Suc length_dropWhile_le)
  assume "parse_num cs = Some (i, r)"
  then show ?thesis
    by (cases cs) (auto simp: parse_num_def split: if_splits dest!: nat)
qed

lemma dropWhile_shorter: "dropWhile P r = d # r' \<Longrightarrow> length r' < length r"
  using length_dropWhile_le [of P r] by simp

lemma shorter_pres_map: "shorter_res res cs \<Longrightarrow> length cs \<le> length cs' \<Longrightarrow> shorter_res (pres_map f res) cs'"
  by (auto simp: shorter_res_def pres_map_def split: option.splits sum.splits)

lemma shorter_funD: "shorter_fun f \<Longrightarrow> f cs = Some (Inr (v, r)) \<Longrightarrow> length r < length cs"
  by (auto simp: shorter_fun_def shorter_res_def)

lemma parse_scalar_shorter: "shorter_res (parse_scalar c r) (c # r)"
  by (auto simp: shorter_res_def parse_scalar_def pres_err_def split: if_splits option.splits
           dest!: parse_str_body_shorter parse_num_shorter)

lemma parse_token_shorter:
  assumes "shorter_fun pe" "shorter_fun pm"
  shows "shorter_res (parse_token pe pm c r) (c # r)"
proof -
  have "shorter_res (pres_map JArr (pe r)) (c # r)" "shorter_res (pres_map (JObj \<circ> obj_build) (pm r)) (c # r)"
    using assms by (auto simp: shorter_fun_def intro: shorter_pres_map)
  then show ?thesis
    using parse_scalar_shorter [of c r]
    by (auto simp: parse_token_def shorter_res_def pres_err_def split: list.splits
             dest: dropWhile_shorter)
qed

lemma elems_step_shorter:
  assumes pv: "shorter_fun pv" and pe: "shorter_fun pe"
  shows "shorter_res (elems_step pv pe cs) cs"
  unfolding shorter_res_def
proof (intro allI impI)
  fix vs r0 assume P: "elems_step pv pe cs = Some (Inr (vs, r0))"
  then obtain v r d r' where v: "pv cs = Some (Inr (v, r))" and d: "dropWhile json_ws r = d # r'"
    by (auto simp: elems_step_def pres_err_def split: option.splits sum.splits list.splits)
  have "length r' < length cs"
    using shorter_funD [OF pv v] dropWhile_shorter [OF d] by simp
  moreover have "shorter_res (pres_map (Cons v) (pe r')) cs"
    using pe calculation by (intro shorter_pres_map) (auto simp: shorter_fun_def)
  ultimately show "length r0 < length cs"
    using P v d by (auto simp: elems_step_def shorter_res_def pres_err_def split: if_splits)
qed

lemma member_step_shorter:
  assumes pv: "shorter_fun pv" and pm: "shorter_fun pm"
  shows "shorter_res (member_step pv pm cs) cs"
  unfolding shorter_res_def
proof (intro allI impI)
  fix kvs r0 assume P: "member_step pv pm cs = Some (Inr (kvs, r0))"
  then obtain c r k r1 d r2 v r3 e r4 where
    c: "dropWhile json_ws cs = c # r" and k: "parse_str_body r = Some (k, r1)"
    and d: "dropWhile json_ws r1 = d # r2" and v: "pv r2 = Some (Inr (v, r3))"
    and e: "dropWhile json_ws r3 = e # r4"
    by (auto simp: member_step_def pres_err_def split: option.splits sum.splits list.splits if_splits)
  have "length r4 < length cs"
    using dropWhile_shorter [OF c] parse_str_body_shorter [OF k] dropWhile_shorter [OF d]
      shorter_funD [OF pv v] dropWhile_shorter [OF e] by simp
  moreover have "shorter_res (pres_map (Cons (k, v)) (pm r4)) cs"
    using pm calculation by (intro shorter_pres_map) (auto simp: shorter_fun_def)
  ultimately show "length r0 < length cs"
    using P c k d v e by (auto simp: member_step_def shorter_res_def pres_err_def split: if_splits)
qed

lemma parse_shorter:
  "shorter_fun (parse_value n) \<and> shorter_fun (parse_elems n) \<and> shorter_fun (parse_members n)"
proof (induction n)
  case 0
  then show ?case by (simp add: shorter_fun_def shorter_res_def)
next
  case (Suc n)
  have "shorter_res (parse_value (Suc n) cs) cs" for cs
  proof (cases "dropWhile json_ws cs")
    case Nil
    show ?thesis
      by (simp only: parse_value.simps Nil list.case) (simp add: shorter_res_def pres_err_def)
  next
    case (Cons c r)
    then have "shorter_res (parse_token (parse_elems n) (parse_members n) c r) cs"
      using Suc parse_token_shorter [of "parse_elems n" "parse_members n" c r]
        length_dropWhile_le [of json_ws cs]
      by (auto simp: shorter_res_def)
    with Cons show ?thesis by simp
  qed
  then show ?case
    using Suc elems_step_shorter member_step_shorter by (simp add: shorter_fun_def)
qed

lemma pres_map_None [simp]: "pres_map f res = None \<longleftrightarrow> res = None"
  by (auto simp: pres_map_def split: option.splits sum.splits)

lemma elems_step_None:
  "elems_step pv pe cs = None \<Longrightarrow>
   pv cs = None \<or> (\<exists>v r d r'. pv cs = Some (Inr (v, r)) \<and> dropWhile json_ws r = d # r' \<and> pe r' = None)"
  by (auto simp: elems_step_def pres_err_def split: option.splits sum.splits list.splits if_splits)

lemma member_step_None:
  "member_step pv pm cs = None \<Longrightarrow>
   \<exists>c r k r1 d r2. dropWhile json_ws cs = c # r \<and> parse_str_body r = Some (k, r1) \<and>
     dropWhile json_ws r1 = d # r2 \<and>
     (pv r2 = None \<or> (\<exists>v r3 e r4. pv r2 = Some (Inr (v, r3)) \<and> dropWhile json_ws r3 = e # r4 \<and> pm r4 = None))"
  by (auto simp: member_step_def pres_err_def split: option.splits sum.splits list.splits if_splits)

lemma parse_scalar_total: "parse_scalar c r \<noteq> None"
  unfolding parse_scalar_def pres_err_def by (simp split: option.split prod.split)

lemma parse_token_total:
  "pe r \<noteq> None \<Longrightarrow> pm r \<noteq> None \<Longrightarrow> parse_token pe pm c r \<noteq> None"
  unfolding parse_token_def pres_err_def using parse_scalar_total [of c r]
  by (simp split: list.split del: not_None_eq)

lemma elems_step_total:
  assumes "pv cs \<noteq> None" "shorter_fun pv" "\<And>r. length r + 1 < length cs \<Longrightarrow> pe r \<noteq> None"
  shows "elems_step pv pe cs \<noteq> None"
proof
  assume N: "elems_step pv pe cs = None"
  from elems_step_None [OF N] assms(1) obtain v r d r' where v: "pv cs = Some (Inr (v, r))"
    and d: "dropWhile json_ws r = d # r'" and "pe r' = None"
    by blast
  moreover have "length r' + 1 < length cs"
    using shorter_funD [OF assms(2) v] dropWhile_shorter [OF d] by simp
  ultimately show False using assms(3) by blast
qed

lemma member_step_total:
  assumes "shorter_fun pv" "\<And>r. length r < length cs \<Longrightarrow> pv r \<noteq> None"
    "\<And>r. length r + 2 < length cs \<Longrightarrow> pm r \<noteq> None"
  shows "member_step pv pm cs \<noteq> None"
proof
  assume N: "member_step pv pm cs = None"
  from member_step_None [OF N] obtain c r k r1 d r2 where c: "dropWhile json_ws cs = c # r" and k: "parse_str_body r = Some (k, r1)"
    and d: "dropWhile json_ws r1 = d # r2"
    and none: "pv r2 = None \<or> (\<exists>v r3 e r4. pv r2 = Some (Inr (v, r3)) \<and> dropWhile json_ws r3 = e # r4 \<and> pm r4 = None)"
    by blast
  have l2: "length r2 + 2 < length cs"
    using dropWhile_shorter [OF c] parse_str_body_shorter [OF k] dropWhile_shorter [OF d] by simp
  show False
  proof (cases "pv r2 = None")
    case True
    with assms(2) [of r2] l2 show False by simp
  next
    case False
    with none obtain v r3 e r4 where v: "pv r2 = Some (Inr (v, r3))" and e: "dropWhile json_ws r3 = e # r4"
      and "pm r4 = None" by blast
    moreover have "length r4 + 2 < length cs"
      using l2 shorter_funD [OF assms(1) v] dropWhile_shorter [OF e] by simp
    ultimately show False using assms(3) by blast
  qed
qed

lemma parse_fuel:
  "(\<forall>cs. 2 * length cs < n \<longrightarrow> parse_value n cs \<noteq> None) \<and>
   (\<forall>cs. 2 * length cs + 1 < n \<longrightarrow> parse_elems n cs \<noteq> None) \<and>
   (\<forall>cs. 2 * length cs + 1 < n \<longrightarrow> parse_members n cs \<noteq> None)"
proof (induction n)
  case 0
  then show ?case by simp
next
  case (Suc n)
  have sv: "shorter_fun (parse_value n)" using parse_shorter by blast
  have v: "parse_value (Suc n) cs \<noteq> None" if "2 * length cs < Suc n" for cs
  proof (cases "dropWhile json_ws cs")
    case Nil
    show ?thesis
      by (simp only: parse_value.simps Nil list.case) (simp add: pres_err_def)
  next
    case (Cons c r)
    have "2 * length r + 1 < n" using dropWhile_shorter [OF Cons] that by simp
    then have "parse_token (parse_elems n) (parse_members n) c r \<noteq> None"
      using Suc.IH by (intro parse_token_total) auto
    with Cons show ?thesis by simp
  qed
  have e: "parse_elems (Suc n) cs \<noteq> None" if "2 * length cs + 1 < Suc n" for cs
  proof -
    have "elems_step (parse_value n) (parse_elems n) cs \<noteq> None"
      using Suc.IH that sv by (intro elems_step_total) auto
    then show ?thesis by simp
  qed
  have m: "parse_members (Suc n) cs \<noteq> None" if "2 * length cs + 1 < Suc n" for cs
  proof -
    have "member_step (parse_value n) (parse_members n) cs \<noteq> None"
      using Suc.IH that sv by (intro member_step_total) auto
    then show ?thesis by simp
  qed
  show ?case using v e m by blast
qed

text \<open>The parser behind \<^verbatim>\<open>JSON.parse\<close> always returns: with the fuel
  \<open>json_parse\<close> gives it, \<open>2 * length s + 2\<close>, it never runs out, so every text is
  either parsed or rejected with a \<^verbatim>\<open>SyntaxError\<close> and the fallback branch of
  \<open>json_parse\<close> for exhausted fuel is never taken.\<close>

theorem json_parse_fuel_suffices: "parse_value (2 * length s + 2) s \<noteq> None"
proof -
  have "2 * length s < 2 * length s + 2" by simp
  with parse_fuel [of "2 * length s + 2"] show ?thesis by blast
qed

section \<open>Every parsed value is well-formed\<close>

text \<open>\<^verbatim>\<open>JSON.parse\<close> keeps the last of repeated keys, so what it returns has no repeated
  key: the values it returns are exactly those on which \<open>json_parse_print\<close> applies.\<close>

lemma map_fst_obj_put:
  "map fst (obj_put k v kvs) = (if k \<in> fst ` set kvs then map fst kvs else map fst kvs @ [k])"
proof -
  have "map fst (map (\<lambda>(k', v'). if k' = k then (k', v) else (k', v')) xs) = map fst xs" for xs :: "(string \<times> json) list"
    by (induction xs) auto
  then show ?thesis by (simp add: obj_put_def)
qed

lemma obj_put_distinct: "distinct (map fst kvs) \<Longrightarrow> distinct (map fst (obj_put k v kvs))"
  by (simp add: map_fst_obj_put)
lemma obj_put_member_wf:
  "list_all member_wf kvs \<Longrightarrow> json_wf v \<Longrightarrow> list_all member_wf (obj_put k v kvs)"
  by (induction kvs) (auto simp: obj_put_def member_wf_def list_all_iff)

lemma obj_build_wf_aux:
  "distinct (map fst acc) \<Longrightarrow> list_all member_wf acc \<Longrightarrow> list_all member_wf kvs \<Longrightarrow>
   distinct (map fst (fold (\<lambda>(k, v). obj_put k v) kvs acc)) \<and>
   list_all member_wf (fold (\<lambda>(k, v). obj_put k v) kvs acc)"
proof (induction kvs arbitrary: acc)
  case (Cons kv kvs)
  obtain k v where kv: "kv = (k, v)" by (cases kv)
  have "json_wf v" using Cons.prems(3) kv by (simp add: member_wf_def)
  then show ?case
    using Cons obj_put_distinct [OF Cons.prems(1)] obj_put_member_wf [OF Cons.prems(2)] kv by simp
qed simp

lemma obj_build_wf: "list_all member_wf kvs \<Longrightarrow> json_wf (JObj (obj_build kvs))"
proof -
  assume "list_all member_wf kvs"
  then have "distinct (map fst (obj_build kvs)) \<and> list_all member_wf (obj_build kvs)"
    using obj_build_wf_aux [of "[]" kvs] by (simp add: obj_build_def)
  then show ?thesis by (simp add: list_all_iff member_wf_def case_prod_unfold)
qed

lemma res_all_pres_map:
  "res_all P res \<Longrightarrow> (\<And>x. P x \<Longrightarrow> Q (f x)) \<Longrightarrow> res_all Q (pres_map f res)"
  by (auto simp: res_all_def pres_map_def split: option.splits sum.splits)

lemma res_all_err [simp]: "res_all P pres_err" "res_all P None"
  by (simp_all add: res_all_def pres_err_def)

lemma fun_allD: "fun_all P f \<Longrightarrow> f cs = Some (Inr (v, r)) \<Longrightarrow> P v"
  by (auto simp: fun_all_def res_all_def)

lemma parse_scalar_wf: "res_all json_wf (parse_scalar c r)"
  by (auto simp: res_all_def parse_scalar_def pres_err_def split: if_splits option.splits prod.splits)
lemma res_all_Inr [simp]: "res_all P (Some (Inr (v, r))) = P v"
  by (simp add: res_all_def)

lemma parse_arr_wf: "fun_all (list_all json_wf) pe \<Longrightarrow> res_all json_wf (pres_map JArr (pe r))"
  by (rule res_all_pres_map [where P = "list_all json_wf"]) (simp_all add: fun_all_def)

lemma parse_obj_wf: "fun_all (list_all member_wf) pm \<Longrightarrow> res_all json_wf (pres_map (JObj \<circ> obj_build) (pm r))"
  by (rule res_all_pres_map [where P = "list_all member_wf"])
     (simp add: fun_all_def, simp only: comp_apply, erule obj_build_wf)

lemma parse_token_wf_aux: "res_all json_wf (pres_map JArr (pe r)) \<Longrightarrow> res_all json_wf (pres_map (JObj \<circ> obj_build) (pm r)) \<Longrightarrow>
   res_all json_wf (parse_token pe pm c r)"
proof (cases "dropWhile json_ws r")
  case Nil
  then have "parse_token pe pm c r = (if c = CHR ''['' then pres_err else if c = CHR ''{'' then pres_err else parse_scalar c r)"
    by (simp only: parse_token_def Nil list.case)
  then show ?thesis using parse_scalar_wf [of c r] by simp
next
  case (Cons d r')
  assume "res_all json_wf (pres_map JArr (pe r))" "res_all json_wf (pres_map (JObj \<circ> obj_build) (pm r))"
  moreover have "parse_token pe pm c r =
     (if c = CHR ''['' then (if d = CHR '']'' then Some (Inr (JArr [], r')) else pres_map JArr (pe r))
      else if c = CHR ''{'' then (if d = CHR ''}'' then Some (Inr (JObj [], r')) else pres_map (JObj \<circ> obj_build) (pm r))
      else parse_scalar c r)"
    by (simp only: parse_token_def Cons list.case)
  ultimately show ?thesis using parse_scalar_wf [of c r] by simp
qed
lemma parse_token_wf:
  "fun_all (list_all json_wf) pe \<Longrightarrow> fun_all (list_all member_wf) pm \<Longrightarrow> res_all json_wf (parse_token pe pm c r)"
  by (intro parse_token_wf_aux parse_arr_wf parse_obj_wf)

lemma elems_step_wf:
  assumes pv: "fun_all json_wf pv" and pe: "fun_all (list_all json_wf) pe"
  shows "res_all (list_all json_wf) (elems_step pv pe cs)"
  unfolding res_all_def
proof (intro allI impI)
  fix vs r0 assume P: "elems_step pv pe cs = Some (Inr (vs, r0))"
  then obtain v r d r' where v: "pv cs = Some (Inr (v, r))" and d: "dropWhile json_ws r = d # r'"
    by (auto simp: elems_step_def pres_err_def split: option.splits sum.splits list.splits)
  have wv: "json_wf v" using fun_allD [OF pv v] .
  have "res_all (list_all json_wf) (pres_map (Cons v) (pe r'))"
    using pe wv by (intro res_all_pres_map) (auto simp: fun_all_def)
  then show "list_all json_wf vs"
    using P v d wv by (auto simp: elems_step_def res_all_def pres_err_def split: if_splits)
qed

lemma member_step_wf:
  assumes pv: "fun_all json_wf pv" and pm: "fun_all (list_all member_wf) pm"
  shows "res_all (list_all member_wf) (member_step pv pm cs)"
  unfolding res_all_def
proof (intro allI impI)
  fix kvs r0 assume P: "member_step pv pm cs = Some (Inr (kvs, r0))"
  then obtain c r k r1 d r2 v r3 e r4 where
    c: "dropWhile json_ws cs = c # r" and k: "parse_str_body r = Some (k, r1)"
    and d: "dropWhile json_ws r1 = d # r2" and v: "pv r2 = Some (Inr (v, r3))"
    and e: "dropWhile json_ws r3 = e # r4"
    by (auto simp: member_step_def pres_err_def split: option.splits sum.splits list.splits if_splits)
  have wv: "member_wf (k, v)" using fun_allD [OF pv v] by (simp add: member_wf_def)
  have "res_all (list_all member_wf) (pres_map (Cons (k, v)) (pm r4))"
    using pm wv by (intro res_all_pres_map) (auto simp: fun_all_def)
  then show "list_all member_wf kvs"
    using P c k d v e wv by (auto simp: member_step_def res_all_def pres_err_def split: if_splits)
qed

lemma parse_wf:
  "fun_all json_wf (parse_value n) \<and> fun_all (list_all json_wf) (parse_elems n) \<and>
   fun_all (list_all member_wf) (parse_members n)"
proof (induction n)
  case 0
  then show ?case by (simp add: fun_all_def)
next
  case (Suc n)
  have "res_all json_wf (parse_value (Suc n) cs)" for cs
  proof (cases "dropWhile json_ws cs")
    case Nil
    show ?thesis by (simp only: parse_value.simps Nil list.case) simp
  next
    case (Cons c r)
    then show ?thesis using Suc parse_token_wf [of "parse_elems n" "parse_members n" c r] by simp
  qed
  then show ?case
    using Suc elems_step_wf member_step_wf by (simp add: fun_all_def)
qed

lemma json_parse_wf: "json_parse s = Inr v \<Longrightarrow> json_wf v"
proof -
  assume "json_parse s = Inr v"
  then obtain r where "parse_value (2 * length s + 2) s = Some (Inr (v, r))"
    by (auto simp: json_parse_def split: option.splits sum.splits if_splits simp del: parse_value.simps)
  then show ?thesis
    by (rule fun_allD [OF conjunct1 [OF parse_wf]])
qed

end
