(* ===== verification/Persistence.thy ===== *)
theory Persistence
  imports Json_Text
begin

text \<open>
  The script's persistence: the browser's \<^verbatim>\<open>localStorage\<close> (a string-keyed store that
  may be disabled, which makes every access throw a \<^verbatim>\<open>SecurityError\<close>, and that throws
  \<^verbatim>\<open>QuotaExceededError\<close> on a write past its quota), the two keys of
  \<^verbatim>\<open>src/index.js\<close> (lines 8--9), the comment list's \<^verbatim>\<open>loadComments\<close> and
  \<^verbatim>\<open>saveComments\<close> (lines 163--174) and the theme preference's guarded write
  (lines 250--252 and 282). Every access of the source sits in a \<^verbatim>\<open>try\<close> whose
  \<^verbatim>\<open>catch\<close> ignores the error; the model returns the error as a value and the wrappers
  catch it as the source does.
\<close>

section \<open>The browser's localStorage\<close>

datatype ls_error = SecurityError | QuotaExceededError

record storage =
  ls_items :: "(string \<times> string) list"
  ls_enabled :: bool
  ls_quota :: nat

definition ls_size :: "(string \<times> string) list \<Rightarrow> nat" where
  "ls_size items = sum_list (map (\<lambda>(k, v). length k + length v) items)"

definition getItem :: "storage \<Rightarrow> string \<Rightarrow> ls_error + string option" where
  "getItem st k = (if ls_enabled st then Inr (map_of (ls_items st) k) else Inl SecurityError)"

definition setItem :: "storage \<Rightarrow> string \<Rightarrow> string \<Rightarrow> ls_error + storage" where
  "setItem st k v =
     (if \<not> ls_enabled st then Inl SecurityError
      else let items' = AList.update k v (ls_items st) in
        if ls_quota st < ls_size items' then Inl QuotaExceededError
        else Inr (st\<lparr>ls_items := items'\<rparr>))"

text \<open>A write that the store accepts: enabled, and within the quota after the update.\<close>

definition can_store :: "storage \<Rightarrow> string \<Rightarrow> string \<Rightarrow> bool" where
  "can_store st k v \<longleftrightarrow> ls_enabled st \<and> ls_size (AList.update k v (ls_items st)) \<le> ls_quota st"

section \<open>The script's keys and wrappers\<close>

definition LS_KEY :: string where
  "LS_KEY = ''blog_bw_mode_v1''"

definition COMMENTS_KEY :: string where
  "COMMENTS_KEY = ''blog_comments_v1''"

text \<open>\<^verbatim>\<open>loadComments\<close>: a failing read, an absent or empty value, text that is not
  JSON and JSON that is not an array all give the empty list; an array is returned as it
  is, whatever its elements are.\<close>

definition loadComments :: "storage \<Rightarrow> json list" where
  "loadComments st =
     (case getItem st COMMENTS_KEY of
        Inl _ \<Rightarrow> []
      | Inr None \<Rightarrow> []
      | Inr (Some raw) \<Rightarrow>
          if raw = [] then []
          else (case json_parse raw of
                  Inl _ \<Rightarrow> []
                | Inr (JArr xs) \<Rightarrow> xs
                | Inr _ \<Rightarrow> []))"

definition saveComments :: "json list \<Rightarrow> storage \<Rightarrow> storage" where
  "saveComments arr st =
     (case setItem st COMMENTS_KEY (json_print (JArr arr)) of Inl _ \<Rightarrow> st | Inr st' \<Rightarrow> st')"

text \<open>\<^verbatim>\<open>try { localStorage.setItem(LS_KEY, enabled ? '1' : '0'); } catch (e) {}\<close>\<close>

definition pref_text :: "bool \<Rightarrow> string" where
  "pref_text enabled = (if enabled then ''1'' else ''0'')"

definition store_pref :: "bool \<Rightarrow> storage \<Rightarrow> storage" where
  "store_pref enabled st =
     (case setItem st LS_KEY (pref_text enabled) of Inl _ \<Rightarrow> st | Inr st' \<Rightarrow> st')"

text \<open>An enabled, empty store with a browser's usual quota, for the witnesses.\<close>

definition store_example :: storage where
  "store_example = \<lparr>ls_items = [], ls_enabled = True, ls_quota = 5000000\<rparr>"

section \<open>Lemmas\<close>

lemma keys_distinct [simp]: "LS_KEY \<noteq> COMMENTS_KEY" "COMMENTS_KEY \<noteq> LS_KEY"
  by (simp_all add: LS_KEY_def COMMENTS_KEY_def)

lemma setItem_Inr: "setItem st k v = Inr st' \<longleftrightarrow>
    can_store st k v \<and> st' = st\<lparr>ls_items := AList.update k v (ls_items st)\<rparr>"
  by (auto simp: setItem_def can_store_def Let_def)

lemma setItem_Inl: "(\<exists>e. setItem st k v = Inl e) \<longleftrightarrow> \<not> can_store st k v"
  by (auto simp: setItem_def can_store_def Let_def)

lemma setItem_can_store:
  "can_store st k v \<Longrightarrow> setItem st k v = Inr (st\<lparr>ls_items := AList.update k v (ls_items st)\<rparr>)"
  by (simp add: setItem_Inr)

lemma setItem_cannot_store: "\<not> can_store st k v \<Longrightarrow> \<exists>e. setItem st k v = Inl e"
  by (simp add: setItem_Inl)

lemma getItem_setItem:
  "setItem st k v = Inr st' \<Longrightarrow> getItem st' k' = (if k' = k then Inr (Some v) else getItem st k')"
  by (auto simp: setItem_Inr getItem_def can_store_def update_conv')

lemma ls_enabled_setItem: "setItem st k v = Inr st' \<Longrightarrow> ls_enabled st' = ls_enabled st"
  by (auto simp: setItem_Inr)

lemma ls_size_update_same_length:
  "length v = length v' \<Longrightarrow> ls_size (AList.update k v items) = ls_size (AList.update k v' items)"
  by (induction items) (auto simp: ls_size_def)

lemma json_print_nonempty [simp]: "json_print j \<noteq> []"
  using json_print_cons [of j] by auto

lemma saveComments_fail: "\<not> can_store st COMMENTS_KEY (json_print (JArr arr)) \<Longrightarrow> saveComments arr st = st"
  by (auto simp: saveComments_def dest!: setItem_cannot_store)

lemma saveComments_ok:
  "can_store st COMMENTS_KEY (json_print (JArr arr)) \<Longrightarrow>
   getItem (saveComments arr st) k = (if k = COMMENTS_KEY then Inr (Some (json_print (JArr arr))) else getItem st k)"
  by (simp add: saveComments_def setItem_can_store getItem_def can_store_def update_conv')

lemma getItem_saveComments_other:
  "k \<noteq> COMMENTS_KEY \<Longrightarrow> getItem (saveComments arr st) k = getItem st k"
  by (cases "can_store st COMMENTS_KEY (json_print (JArr arr))") (simp_all add: saveComments_ok saveComments_fail)

lemma getItem_store_pref_other:
  "k \<noteq> LS_KEY \<Longrightarrow> getItem (store_pref b st) k = getItem st k"
  by (auto simp: store_pref_def getItem_setItem split: sum.split)

lemma store_pref_ok:
  "can_store st LS_KEY (pref_text b) \<Longrightarrow> getItem (store_pref b st) LS_KEY = Inr (Some (pref_text b))"
  by (simp add: store_pref_def setItem_can_store getItem_def can_store_def update_conv')

lemma loadComments_store_pref [simp]: "loadComments (store_pref b st) = loadComments st"
  by (simp add: loadComments_def getItem_store_pref_other)

lemma loadComments_saved:
  "getItem st COMMENTS_KEY = Inr (Some (json_print (JArr xs))) \<Longrightarrow> list_all json_wf xs \<Longrightarrow> loadComments st = xs"
  using json_parse_print [of "JArr xs"] by (simp add: loadComments_def del: json_print.simps)

lemma load_after_save:
  "list_all json_wf xs \<Longrightarrow> can_store st COMMENTS_KEY (json_print (JArr xs)) \<Longrightarrow>
   loadComments (saveComments xs st) = xs"
  by (simp add: loadComments_saved saveComments_ok)

lemma loadComments_wf: "list_all json_wf (loadComments st)"
proof -
  have "json_parse raw = Inr (JArr xs) \<Longrightarrow> list_all json_wf xs" for raw xs
    using json_parse_wf [of raw "JArr xs"] by simp
  then show ?thesis
    by (auto simp: loadComments_def split: sum.split option.split json.split)
qed

text \<open>C21. Saving a list of comments and loading it back gives the same list, when the
  store accepts the write and the list is one \<^verbatim>\<open>JSON.parse\<close> can return (no object has a
  repeated key).\<close>

theorem saveComments_roundtrip:
  "list_all json_wf xs \<Longrightarrow> can_store st COMMENTS_KEY (json_print (JArr xs)) \<Longrightarrow>
   loadComments (saveComments xs st) = xs"
  by (rule load_after_save)

theorem saveComments_roundtrip_witness:
  "list_all json_wf [JObj [(''name'', JStr ''Ann''), (''body'', JStr ''Hello world''), (''ts'', JNum 1)]] \<and>
   can_store store_example COMMENTS_KEY (json_print (JArr [JObj [(''name'', JStr ''Ann''), (''body'', JStr ''Hello world''), (''ts'', JNum 1)]])) \<and>
   loadComments (saveComments [JObj [(''name'', JStr ''Ann''), (''body'', JStr ''Hello world''), (''ts'', JNum 1)]] store_example) = [JObj [(''name'', JStr ''Ann''), (''body'', JStr ''Hello world''), (''ts'', JNum 1)]]"
proof -
  have w: "list_all json_wf [JObj [(''name'', JStr ''Ann''), (''body'', JStr ''Hello world''), (''ts'', JNum 1)]]"
    by simp
  have c: "can_store store_example COMMENTS_KEY (json_print (JArr [JObj [(''name'', JStr ''Ann''), (''body'', JStr ''Hello world''), (''ts'', JNum 1)]]))"
    by (simp add: store_example_def can_store_def ls_size_def COMMENTS_KEY_def json_quote_def json_esc_char_def dq_def bslash_def int_dec_def nat_dec.simps)
  show ?thesis using w c saveComments_roundtrip [OF w c] by simp
qed

end
