(* ===== verification/Theme.thy ===== *)
theory Theme
  imports Persistence
begin

text \<open>
  The theme toggle of \<^verbatim>\<open>src/index.js\<close>. Its state is the class list of the root
  element (\<^verbatim>\<open>document.documentElement\<close>, marker class \<^verbatim>\<open>bw\<close>), the class list
  and the \<^verbatim>\<open>aria-pressed\<close> attribute of the toggle button \<^verbatim>\<open>bwBtn\<close>
  (\<open>theme_dom\<close>), and the preference stored under \<^verbatim>\<open>LS_KEY\<close>. The source writes the
  same update twice, once in \<^verbatim>\<open>applyBW\<close> (lines 237--253) and once in the click
  handler (lines 272--283); both are modelled as written. \<open>loadPref\<close> is lines
  256--262, \<open>init_btn\<close> the class initialisation of lines 265--269.
  The lemmas show that the handler is \<^verbatim>\<open>applyBW\<close> of the negated state, that every
  update leaves exactly one of the two button classes and an \<^verbatim>\<open>aria-pressed\<close> that
  agrees with the marker class, and what two clicks do.
\<close>

record theme_dom =
  root_classes :: "string list"
  bw_classes :: "string list"
  bw_pressed :: string

type_synonym theme_state = "theme_dom \<times> storage"

definition isBW :: "theme_dom \<Rightarrow> bool" where
  "isBW d \<longleftrightarrow> ''bw'' \<in> set (root_classes d)"

definition applyBW :: "bool \<Rightarrow> bool \<Rightarrow> theme_state \<Rightarrow> theme_state" where
  "applyBW enabled persist s =
     (let d = fst s; st = snd s;
          d' = (if enabled
                then d\<lparr>root_classes := tok_add ''bw'' (root_classes d),
                       bw_pressed := ''true'',
                       bw_classes := tok_add ''bw-toggle-btn-on'' (tok_remove ''bw-toggle-btn-off'' (bw_classes d))\<rparr>
                else d\<lparr>root_classes := tok_remove ''bw'' (root_classes d),
                       bw_pressed := ''false'',
                       bw_classes := tok_add ''bw-toggle-btn-off'' (tok_remove ''bw-toggle-btn-on'' (bw_classes d))\<rparr>)
      in (d', if persist then store_pref enabled st else st))"

definition loadPref :: "theme_state \<Rightarrow> theme_state" where
  "loadPref s =
     (case getItem (snd s) LS_KEY of
        Inl _ \<Rightarrow> applyBW False False s
      | Inr v \<Rightarrow> if v = Some ''1'' then applyBW True False s else applyBW False False s)"

definition init_btn :: "theme_dom \<Rightarrow> theme_dom" where
  "init_btn d =
     (if ''bw'' \<in> set (root_classes d)
      then d\<lparr>bw_classes := tok_add ''bw-toggle-btn-on'' (bw_classes d)\<rparr>
      else d\<lparr>bw_classes := tok_add ''bw-toggle-btn-off'' (bw_classes d)\<rparr>)"

definition bw_click :: "theme_state \<Rightarrow> theme_state" where
  "bw_click s =
     (let d = fst s; st = snd s;
          (enabled, rc) = tok_toggle ''bw'' (root_classes d);
          d1 = d\<lparr>root_classes := rc, bw_pressed := (if enabled then ''true'' else ''false'')\<rparr>;
          d2 = (if enabled
                then d1\<lparr>bw_classes := tok_add ''bw-toggle-btn-on'' (tok_remove ''bw-toggle-btn-off'' (bw_classes d1))\<rparr>
                else d1\<lparr>bw_classes := tok_add ''bw-toggle-btn-off'' (tok_remove ''bw-toggle-btn-on'' (bw_classes d1))\<rparr>)
      in (d2, store_pref enabled st))"

text \<open>What the two copies of the update maintain: the button's \<^verbatim>\<open>aria-pressed\<close> and its
  two visual classes agree with the marker class, exactly one class being present.\<close>

definition theme_inv :: "theme_dom \<Rightarrow> bool" where
  "theme_inv d \<longleftrightarrow>
     bw_pressed d = (if isBW d then ''true'' else ''false'') \<and>
     (''bw-toggle-btn-on'' \<in> set (bw_classes d) \<longleftrightarrow> isBW d) \<and>
     (''bw-toggle-btn-off'' \<in> set (bw_classes d) \<longleftrightarrow> \<not> isBW d)"

text \<open>A concrete state for the witnesses: a light page whose store is enabled and empty.\<close>

definition theme_example :: theme_state where
  "theme_example =
     (\<lparr>root_classes = [''bw''], bw_classes = [''w-11'', ''bw-toggle-btn-on''], bw_pressed = ''true''\<rparr>,
      \<lparr>ls_items = [], ls_enabled = True, ls_quota = 5000000\<rparr>)"

section \<open>Lemmas\<close>

lemma theme_class_names [simp]:
  "''bw-toggle-btn-on'' \<noteq> ''bw-toggle-btn-off''" "''bw-toggle-btn-off'' \<noteq> ''bw-toggle-btn-on''"
  by simp_all

lemma isBW_applyBW [simp]: "isBW (fst (applyBW b p s)) = b"
  by (simp add: applyBW_def isBW_def Let_def)

lemma snd_applyBW [simp]: "snd (applyBW b p s) = (if p then store_pref b (snd s) else snd s)"
  by (simp add: applyBW_def Let_def)

lemma bw_classes_applyBW:
  "set (bw_classes (fst (applyBW b p s))) =
     (if b then insert ''bw-toggle-btn-on'' (set (bw_classes (fst s)) - {''bw-toggle-btn-off''})
      else insert ''bw-toggle-btn-off'' (set (bw_classes (fst s)) - {''bw-toggle-btn-on''}))"
  by (auto simp: applyBW_def Let_def)

lemma root_classes_applyBW:
  "set (root_classes (fst (applyBW b p s))) =
     (if b then insert ''bw'' (set (root_classes (fst s))) else set (root_classes (fst s)) - {''bw''})"
  by (auto simp: applyBW_def Let_def)

lemma theme_inv_applyBW: "theme_inv (fst (applyBW b p s))"
  by (auto simp: theme_inv_def bw_classes_applyBW) (simp_all add: applyBW_def Let_def)

lemma loadPref_cases:
  "loadPref s = applyBW (getItem (snd s) LS_KEY = Inr (Some ''1'')) False s"
  by (auto simp: loadPref_def split: sum.split)

lemma bw_click_applyBW: "bw_click s = applyBW (\<not> isBW (fst s)) True s"
  by (cases s) (simp add: bw_click_def applyBW_def tok_toggle_def isBW_def Let_def)

lemma init_btn_inv: "theme_inv d \<Longrightarrow> init_btn d = d"
  by (cases d) (auto simp: init_btn_def theme_inv_def isBW_def tok_add_def)

text \<open>C7. The click handler is \<^verbatim>\<open>applyBW\<close> of the negated marker state with
  persistence: the two copies of the update in the source agree on every state, as the
  spec requires of them.\<close>

theorem bw_click_eq_applyBW: "bw_click s = applyBW (\<not> isBW (fst s)) True s"
  by (rule bw_click_applyBW)

lemma theme_inv_bw_click: "theme_inv (fst (bw_click s))"
  by (simp add: bw_click_applyBW theme_inv_applyBW)

lemma isBW_bw_click [simp]: "isBW (fst (bw_click s)) = (\<not> isBW (fst s))"
  by (simp add: bw_click_applyBW)

lemma can_store_pref_again:
  "can_store st LS_KEY (pref_text b) \<Longrightarrow> can_store (store_pref b' st) LS_KEY (pref_text b'')"
proof -
  assume cs: "can_store st LS_KEY (pref_text b)"
  have len: "length (pref_text x) = length (pref_text y)" for x y by (simp add: pref_text_def)
  have cs': "can_store st LS_KEY (pref_text b')"
    using cs ls_size_update_same_length [of "pref_text b'" "pref_text b" LS_KEY "ls_items st"] len
    by (simp add: can_store_def)
  then have "store_pref b' st = st\<lparr>ls_items := AList.update LS_KEY (pref_text b') (ls_items st)\<rparr>"
    by (simp add: store_pref_def setItem_can_store)
  moreover have "ls_size (AList.update LS_KEY (pref_text b'') (AList.update LS_KEY (pref_text b') (ls_items st)))
               = ls_size (AList.update LS_KEY (pref_text b) (ls_items st))"
    using ls_size_update_same_length [of "pref_text b''" "pref_text b" LS_KEY "ls_items st"] len
    by simp
  ultimately show ?thesis using cs by (simp add: can_store_def)
qed

text \<open>C16. Clicking the toggle twice gives back the theme the page had: the marker class,
  the set of the button's classes and its \<^verbatim>\<open>aria-pressed\<close> are as before, for every
  state in which the button agrees with the marker class.\<close>

theorem bw_click_twice:
  "theme_inv (fst s) \<Longrightarrow>
   isBW (fst (bw_click (bw_click s))) = isBW (fst s) \<and>
   set (root_classes (fst (bw_click (bw_click s)))) = set (root_classes (fst s)) \<and>
   set (bw_classes (fst (bw_click (bw_click s)))) = set (bw_classes (fst s)) \<and>
   bw_pressed (fst (bw_click (bw_click s))) = bw_pressed (fst s)"
  unfolding bw_click_applyBW
  by (auto simp: theme_inv_def bw_classes_applyBW root_classes_applyBW isBW_def)
     (simp_all add: applyBW_def Let_def)

theorem bw_click_twice_witness:
  "theme_inv (fst theme_example) \<and>
   isBW (fst (bw_click (bw_click theme_example))) = isBW (fst theme_example) \<and>
   set (root_classes (fst (bw_click (bw_click theme_example)))) = set (root_classes (fst theme_example)) \<and>
   set (bw_classes (fst (bw_click (bw_click theme_example)))) = set (bw_classes (fst theme_example)) \<and>
   bw_pressed (fst (bw_click (bw_click theme_example))) = bw_pressed (fst theme_example)"
proof -
  have h: "theme_inv (fst theme_example)"
    by (simp add: theme_example_def theme_inv_def isBW_def)
  show ?thesis using h bw_click_twice [OF h] by simp
qed

text \<open>C28. After two clicks on a store that accepts the writes, the stored preference is
  the encoding of the theme the page had before the clicks.\<close>

theorem bw_click_twice_pref:
  "can_store (snd s) LS_KEY (pref_text b) \<Longrightarrow>
   getItem (snd (bw_click (bw_click s))) LS_KEY = Inr (Some (pref_text (isBW (fst s))))"
  unfolding bw_click_applyBW
  by (simp add: store_pref_ok can_store_pref_again)

theorem bw_click_twice_pref_witness:
  "can_store (snd theme_example) LS_KEY (pref_text False) \<and>
   getItem (snd (bw_click (bw_click theme_example))) LS_KEY = Inr (Some ''1'')"
proof -
  have h: "can_store (snd theme_example) LS_KEY (pref_text False)"
    by (simp add: theme_example_def can_store_def ls_size_def LS_KEY_def pref_text_def)
  have "isBW (fst theme_example)" by (simp add: theme_example_def isBW_def)
  then show ?thesis using h bw_click_twice_pref [OF h] by (simp add: pref_text_def)
qed

text \<open>C29. \<^verbatim>\<open>loadPref\<close> turns the theme on exactly when the store reads the text
  \<^verbatim>\<open>"1"\<close> under \<^verbatim>\<open>LS_KEY\<close>; an absent, other or unreadable value gives the
  default dark theme, and the store is never written.\<close>

theorem loadPref_reads:
  "(isBW (fst (loadPref s)) \<longleftrightarrow> getItem (snd s) LS_KEY = Inr (Some ''1'')) \<and>
   snd (loadPref s) = snd s \<and> theme_inv (fst (loadPref s))"
  by (simp add: loadPref_cases theme_inv_applyBW)

end
