(* ===== verification/Html_Escape.thy ===== *)
theory Html_Escape
  imports Js_Value
begin

text \<open>
  \<^verbatim>\<open>escapeHtml\<close> (\<^verbatim>\<open>src/index.js\<close>, lines 153--160) turns its argument into a string
  with \<^verbatim>\<open>String(s)\<close>, which throws on an object with an own \<^verbatim>\<open>toString\<close> key
  (\<open>escapeHtml_res\<close>), and replaces, in five successive global passes, \<^verbatim>\<open>&\<close>, \<^verbatim>\<open><\<close>, \<^verbatim>\<open>>\<close>, the double
  quote and the single quote by their character references. \<open>escape_chain\<close> is the five
  passes as the source writes them, \<open>escape_ref\<close> a one-pass reference that maps each
  character to its replacement, and \<open>html_decode\<close> the browser's side: the decoding of
  these five character references when \<^verbatim>\<open>innerHTML\<close> parses text. The lemmas show the
  passes equal the reference, that the result contains no character that could open a
  tag or leave an attribute value, and that the browser's decoding gives back the
  original text.
\<close>

section \<open>The source's five passes\<close>

text \<open>\<^verbatim>\<open>s.replace(/c/g, r)\<close> for a one-character pattern: every occurrence of \<open>c\<close>
  replaced by \<open>r\<close>. None of the replacement strings of the source contains \<^verbatim>\<open>$\<close>,
  so no replacement pattern is expanded.\<close>

fun replace_char :: "char \<Rightarrow> string \<Rightarrow> string \<Rightarrow> string" where
  "replace_char c r [] = []"
| "replace_char c r (x # xs) = (if x = c then r @ replace_char c r xs else x # replace_char c r xs)"

definition escape_chain :: "string \<Rightarrow> string" where
  "escape_chain s =
     replace_char sq ''&#39;''
      (replace_char dq ''&quot;''
        (replace_char CHR ''>'' ''&gt;''
          (replace_char CHR ''<'' ''&lt;''
            (replace_char CHR ''&'' ''&amp;'' s))))"

definition escapeHtml :: "jsval \<Rightarrow> string" where
  "escapeHtml v = escape_chain (js_String v)"

text \<open>The call itself: \<^verbatim>\<open>String(s)\<close> throws on the values of \<open>js_throws\<close>, and the
  exception leaves \<^verbatim>\<open>escapeHtml\<close>; \<open>escapeHtml\<close> above is what it returns otherwise.\<close>

definition escapeHtml_res :: "jsval \<Rightarrow> js_error + string" where
  "escapeHtml_res v = (case js_ToString v of Inl e \<Rightarrow> Inl e | Inr s \<Rightarrow> Inr (escape_chain s))"

section \<open>One-pass reference\<close>

definition esc_char :: "char \<Rightarrow> string" where
  "esc_char c =
     (if c = CHR ''&'' then ''&amp;''
      else if c = CHR ''<'' then ''&lt;''
      else if c = CHR ''>'' then ''&gt;''
      else if c = dq then ''&quot;''
      else if c = sq then ''&#39;''
      else [c])"

definition escape_ref :: "string \<Rightarrow> string" where
  "escape_ref s = concat (map esc_char s)"

section \<open>The browser's decoding of the five references\<close>

definition entity_rest :: "string \<Rightarrow> (char \<times> string) option" where
  "entity_rest cs =
     (if take 4 cs = ''amp;'' then Some (CHR ''&'', drop 4 cs)
      else if take 3 cs = ''lt;'' then Some (CHR ''<'', drop 3 cs)
      else if take 3 cs = ''gt;'' then Some (CHR ''>'', drop 3 cs)
      else if take 5 cs = ''quot;'' then Some (dq, drop 5 cs)
      else if take 4 cs = ''#39;'' then Some (sq, drop 4 cs)
      else None)"

function html_decode :: "string \<Rightarrow> string" where
  "html_decode [] = []"
| "html_decode (c # cs) =
     (if c = CHR ''&''
      then (case entity_rest cs of
              Some (d, r) \<Rightarrow> d # html_decode r
            | None \<Rightarrow> c # html_decode cs)
      else c # html_decode cs)"
  by pat_completeness auto
termination
  by (relation "measure length") (auto simp: entity_rest_def split: if_splits)

section \<open>Lemmas\<close>

lemma replace_char_append [simp]:
  "replace_char c r (xs @ ys) = replace_char c r xs @ replace_char c r ys"
  by (induction xs) auto

lemma escape_chain_append: "escape_chain (xs @ ys) = escape_chain xs @ escape_chain ys"
  by (simp add: escape_chain_def)

lemma escape_chain_char: "escape_chain [x] = esc_char x"
  by (simp add: escape_chain_def esc_char_def dq_def sq_def)

lemma esc_char_safe: "y \<in> set (esc_char x) \<Longrightarrow> y \<notin> {CHR ''<'', CHR ''>'', dq, sq}"
  by (auto simp: esc_char_def dq_def sq_def split: if_splits)

lemma entity_rest_esc: "x = CHR ''&'' \<or> x = CHR ''<'' \<or> x = CHR ''>'' \<or> x = dq \<or> x = sq \<Longrightarrow>
  \<exists>t. esc_char x = CHR ''&'' # t \<and> entity_rest (t @ r) = Some (x, r)"
  by (auto simp: esc_char_def entity_rest_def dq_def sq_def)

lemma html_decode_esc_char: "html_decode (esc_char x @ r) = x # html_decode r"
proof (cases "x = CHR ''&'' \<or> x = CHR ''<'' \<or> x = CHR ''>'' \<or> x = dq \<or> x = sq")
  case True
  then obtain t where "esc_char x = CHR ''&'' # t" and "entity_rest (t @ r) = Some (x, r)"
    using entity_rest_esc by blast
  then show ?thesis by simp
next
  case False
  then have "esc_char x = [x]" by (auto simp: esc_char_def)
  with False show ?thesis by simp
qed

lemma escape_chain_ref: "escape_chain s = escape_ref s"
proof (induction s)
  case Nil
  then show ?case by (simp add: escape_chain_def escape_ref_def)
next
  case (Cons x xs)
  have "escape_chain (x # xs) = escape_chain [x] @ escape_chain xs"
    using escape_chain_append [of "[x]" xs] by simp
  with Cons show ?case by (simp add: escape_chain_char escape_ref_def)
qed

lemma escape_ref_safe: "set (escape_ref s) \<inter> {CHR ''<'', CHR ''>'', dq, sq} = {}"
  using esc_char_safe by (fastforce simp: escape_ref_def)

lemma html_decode_escape_ref: "html_decode (escape_ref s) = s"
  by (induction s) (simp_all add: escape_ref_def html_decode_esc_char)

lemma escapeHtml_res_if: "escapeHtml_res v = (if js_throws v then Inl TypeError else Inr (escapeHtml v))"
  by (simp add: escapeHtml_res_def js_ToString_def escapeHtml_def)

lemma escapeHtml_Str [simp]: "escapeHtml (Val (JStr s)) = escape_ref s"
  by (simp add: escapeHtml_def escape_chain_ref)

text \<open>C34. The five replacement passes of \<^verbatim>\<open>escapeHtml\<close>, in the source's order
  (\<^verbatim>\<open>&\<close> first), compute the one-pass escaping of \<^verbatim>\<open>String(v)\<close>: no character
  reference produced by a pass is escaped again by a later one.\<close>

theorem escapeHtml_passes_eq_ref: "escapeHtml v = escape_ref (js_String v)"
  by (simp add: escapeHtml_def escape_chain_ref)

text \<open>C4. Whatever the value, the escaped text contains no \<^verbatim>\<open><\<close>, \<^verbatim>\<open>>\<close>, double or
  single quote: inserted with \<^verbatim>\<open>innerHTML\<close> it can open no tag and end no attribute.\<close>

theorem escapeHtml_no_markup:
  "set (escapeHtml v) \<inter> {CHR ''<'', CHR ''>'', dq, sq} = {}"
  by (simp add: escapeHtml_def escape_chain_ref escape_ref_safe)

text \<open>C15. The browser's decoding of character references gives back exactly the text
  \<^verbatim>\<open>String(v)\<close>: a body containing \<^verbatim>\<open><script>\<close> or \<^verbatim>\<open>&\<close> is shown literally.\<close>

theorem escapeHtml_decode_roundtrip: "html_decode (escapeHtml v) = js_String v"
  by (simp add: escapeHtml_def escape_chain_ref html_decode_escape_ref)

end
