(* ===== verification/Comments.thy ===== *)
theory Comments
  imports Html_Escape Persistence
begin

text \<open>
  The comment board of \<^verbatim>\<open>src/index.js\<close>: the in-memory list \<^verbatim>\<open>comments\<close>
  (line 183), the rendered list element \<^verbatim>\<open>#comments-list\<close>, the two form fields with
  their \<^verbatim>\<open>maxlength\<close> (lines 135 and 138) and the focus of the page (\<open>board\<close>), next
  to the store (\<open>storage\<close>). \<open>renderComments\<close> is lines 185--207, \<open>submit\<close> the
  form's submit handler (lines 211--226), \<open>clear_all\<close> the handler of the clear button
  (lines 228--234).

  The list holds whatever \<^verbatim>\<open>JSON.parse\<close> returned at load time, so its elements are
  arbitrary JSON values; reading \<^verbatim>\<open>c.name\<close> of a \<^verbatim>\<open>null\<close> element throws a
  \<^verbatim>\<open>TypeError\<close>, which \<open>render_item\<close> returns as an error and \<open>renderComments\<close>
  propagates after the nodes rendered so far, as the \<^verbatim>\<open>forEach\<close> would.
  \<^verbatim>\<open>new Date(c.ts).toLocaleString()\<close> depends on the browser's locale and clock
  zone; it is the parameter \<open>fmt\<close> of the rendering functions.
\<close>

datatype tag_kind = TagInput | TagTextarea | TagEditable | TagOther

datatype focus_el = FocusName | FocusBody | FocusElsewhere tag_kind

datatype view_node = Placeholder | Item string string

record list_view =
  lv_nodes :: "view_node list"
  lv_at_bottom :: bool

record board =
  comments :: "json list"
  view :: list_view
  in_name :: string
  in_body :: string
  focus :: focus_el

type_synonym board_state = "board \<times> storage"

type_synonym date_fmt = "jsval \<Rightarrow> string"

section \<open>Form fields\<close>

text \<open>The user types into a field; the browser keeps at most \<^verbatim>\<open>maxlength\<close> code units.\<close>

definition type_name :: "string \<Rightarrow> board \<Rightarrow> board" where
  "type_name s b = b\<lparr>in_name := take 60 s\<rparr>"

definition type_body :: "string \<Rightarrow> board \<Rightarrow> board" where
  "type_body s b = b\<lparr>in_body := take 2000 s\<rparr>"

section \<open>Rendering\<close>

definition meta_html :: "string \<Rightarrow> string \<Rightarrow> string" where
  \<open>meta_html who time =
     ''<strong class="font-medium text-gray-900">'' @ who @ ''</strong> '' @ [CHR 0xB7] @
     '' <span class="opacity-75">'' @ time @ ''</span>''\<close>

text \<open>\<^verbatim>\<open>new Date(c.ts).toLocaleString()\<close>: the constructor converts an object
  argument to a primitive, which throws as \<^verbatim>\<open>String\<close> does; \<open>fmt\<close> is the locale's text
  of the date it builds.\<close>

definition new_Date :: "date_fmt \<Rightarrow> jsval \<Rightarrow> js_error + string" where
  "new_Date fmt ts = (if js_throws ts then Inl TypeError else Inr (fmt ts))"

text \<open>The body of the \<^verbatim>\<open>forEach\<close> callback: the author (line 196), the time (197), the
  meta line (198) and the body (201), in this order, each step able to throw.\<close>

definition render_item :: "date_fmt \<Rightarrow> json \<Rightarrow> js_error + view_node" where
  "render_item fmt c =
     (case get_prop c ''name'' of
        Inl e \<Rightarrow> Inl e
      | Inr nm \<Rightarrow>
          (case (if js_truthy nm then escapeHtml_res nm else Inr ''Anonymous'') of
             Inl e \<Rightarrow> Inl e
           | Inr who \<Rightarrow>
               (case get_prop c ''ts'' of
                  Inl e \<Rightarrow> Inl e
                | Inr ts \<Rightarrow>
                    (case new_Date fmt ts of
                       Inl e \<Rightarrow> Inl e
                     | Inr time \<Rightarrow>
                         (case get_prop c ''body'' of
                            Inl e \<Rightarrow> Inl e
                          | Inr bd \<Rightarrow>
                              (case escapeHtml_res bd of
                                 Inl e \<Rightarrow> Inl e
                               | Inr b \<Rightarrow> Inr (Item (meta_html who (escapeHtml (Val (JStr time)))) b)))))))"

fun render_items :: "date_fmt \<Rightarrow> json list \<Rightarrow> view_node list \<times> js_error option" where
  "render_items fmt [] = ([], None)"
| "render_items fmt (c # cs) =
     (case render_item fmt c of
        Inl e \<Rightarrow> ([], Some e)
      | Inr n \<Rightarrow> (case render_items fmt cs of (ns, err) \<Rightarrow> (n # ns, err)))"

definition renderComments :: "date_fmt \<Rightarrow> json list \<Rightarrow> list_view \<Rightarrow> list_view \<times> js_error option" where
  "renderComments fmt cs lv =
     (if length cs = 0 then (lv\<lparr>lv_nodes := [Placeholder]\<rparr>, None)
      else (case render_items fmt cs of
              (ns, None) \<Rightarrow> (lv\<lparr>lv_nodes := ns, lv_at_bottom := True\<rparr>, None)
            | (ns, Some e) \<Rightarrow> (lv\<lparr>lv_nodes := ns\<rparr>, Some e)))"

section \<open>Handlers\<close>

definition comment_entry :: "string \<Rightarrow> string \<Rightarrow> int \<Rightarrow> json" where
  "comment_entry name body now =
     JObj [(''name'', JStr (if js_truthy (Val (JStr name)) then name else '''')),
           (''body'', JStr body), (''ts'', JNum now)]"

definition submit :: "date_fmt \<Rightarrow> int \<Rightarrow> board_state \<Rightarrow> board_state \<times> js_error option" where
  "submit fmt now s =
     (let b = fst s; st = snd s;
          body = js_trim (if js_truthy (Val (JStr (in_body b))) then in_body b else '''')
      in if \<not> js_truthy (Val (JStr body)) \<or> length body < 2
         then ((b\<lparr>focus := FocusBody\<rparr>, st), None)
         else
           (let name = js_trim (if js_truthy (Val (JStr (in_name b))) then in_name b else '''');
                cs1 = comments b @ [comment_entry name body now];
                cs2 = (if 200 < length cs1 then slice_last 200 cs1 else cs1);
                st' = saveComments cs2 st;
                r = renderComments fmt cs2 (view b)
            in case snd r of
                 Some e \<Rightarrow> ((b\<lparr>comments := cs2, view := fst r\<rparr>, st'), Some e)
               | None \<Rightarrow> ((b\<lparr>comments := cs2, view := fst r, in_name := [], in_body := [],
                             focus := FocusBody\<rparr>, st'), None)))"

text \<open>The clear button: the result's flag says whether the confirmation dialog was shown,
  \<open>ok\<close> is the user's answer to it.\<close>

definition clear_all :: "date_fmt \<Rightarrow> bool \<Rightarrow> board_state \<Rightarrow> board_state \<times> bool" where
  "clear_all fmt ok s =
     (let b = fst s; st = snd s
      in if length (comments b) = 0 then (s, False)
         else if \<not> ok then (s, True)
         else (let st' = saveComments [] st; r = renderComments fmt [] (view b)
               in ((b\<lparr>comments := [], view := fst r\<rparr>, st'), True)))"

text \<open>The node a comment renders to when reading its properties succeeds.\<close>

definition item_of :: "date_fmt \<Rightarrow> json \<Rightarrow> view_node" where
  "item_of fmt c = (case render_item fmt c of Inr n \<Rightarrow> n | Inl _ \<Rightarrow> Placeholder)"

text \<open>A comment that renders: not \<^verbatim>\<open>null\<close>, and its truthy name, its time and its body
  all convert to primitives.\<close>

definition item_ok :: "json \<Rightarrow> bool" where
  "item_ok c =
     (case (get_prop c ''name'', get_prop c ''ts'', get_prop c ''body'') of
        (Inr nm, Inr ts, Inr bd) \<Rightarrow> \<not> (js_truthy nm \<and> js_throws nm) \<and> \<not> js_throws ts \<and> \<not> js_throws bd
      | _ \<Rightarrow> False)"

text \<open>The record shape of the specification's data model: exactly the keys
  \<^verbatim>\<open>name\<close>, \<^verbatim>\<open>body\<close>, \<^verbatim>\<open>ts\<close> in this order, a trimmed name within the field's
  \<^verbatim>\<open>maxlength\<close>, a trimmed body of at least two characters within its \<^verbatim>\<open>maxlength\<close>,
  and an integer time.\<close>

fun comment_record_ok :: "json \<Rightarrow> bool" where
  "comment_record_ok (JObj [(k1, JStr n), (k2, JStr b), (k3, JNum t)]) =
     (k1 = ''name'' \<and> k2 = ''body'' \<and> k3 = ''ts'' \<and> js_trim n = n \<and> length n \<le> 60 \<and>
      js_trim b = b \<and> 2 \<le> length b \<and> length b \<le> 2000)"
| "comment_record_ok _ = False"

text \<open>Fixtures for the witnesses: the form filled in as in the spec's example, a board
  holding one comment, and a fixed date format.\<close>

definition board_example :: board where
  "board_example =
     \<lparr>comments = [], view = \<lparr>lv_nodes = [Placeholder], lv_at_bottom = False\<rparr>,
      in_name = '' Ann'', in_body = ''Hello world  '', focus = FocusName\<rparr>"

definition board_one :: board where
  "board_one = board_example\<lparr>comments := [comment_entry ''Ann'' ''Hello world'' 1]\<rparr>"

definition fmt_example :: date_fmt where
  "fmt_example v = ''1/1/2024''"

section \<open>Lemmas\<close>

lemma get_props:
  "c \<noteq> JNull \<Longrightarrow> \<exists>nm ts bd. get_prop c ''name'' = Inr nm \<and> get_prop c ''ts'' = Inr ts \<and> get_prop c ''body'' = Inr bd"
  by (cases c) auto

lemma item_ok_JNull [simp]: "\<not> item_ok JNull"
  by (simp add: item_ok_def)

lemma render_item_cases:
  assumes "get_prop c ''name'' = Inr nm" "get_prop c ''ts'' = Inr ts" "get_prop c ''body'' = Inr bd"
  shows "render_item fmt c =
           (if item_ok c
            then Inr (Item (meta_html (if js_truthy nm then escapeHtml nm else ''Anonymous'') (escapeHtml (Val (JStr (fmt ts)))))
                           (escapeHtml bd))
            else Inl TypeError)"
  using assms by (simp add: render_item_def item_ok_def new_Date_def escapeHtml_res_if)

lemma render_item_ok: "item_ok c \<Longrightarrow> render_item fmt c = Inr (item_of fmt c)"
  by (cases "c = JNull") (auto simp: item_of_def dest!: get_props simp: render_item_cases)

lemma render_item_err: "\<not> item_ok c \<Longrightarrow> render_item fmt c = Inl TypeError"
proof (cases "c = JNull")
  case True
  then show ?thesis by (simp add: render_item_def)
next
  case False
  assume "\<not> item_ok c"
  then show ?thesis using get_props [OF False] by (auto simp: render_item_cases)
qed

lemma render_item_null [simp]: "render_item fmt JNull = Inl TypeError"
  by (simp add: render_item_err)

lemma render_items_ok: "list_all item_ok cs \<Longrightarrow> render_items fmt cs = (map (item_of fmt) cs, None)"
  by (induction cs) (auto simp: render_item_ok)

lemma render_items_err: "\<not> list_all item_ok cs \<Longrightarrow> snd (render_items fmt cs) = Some TypeError"
proof (induction cs)
  case (Cons c cs)
  then show ?case
    by (cases "item_ok c") (auto simp: render_item_ok render_item_err split: prod.split)
qed simp

lemma null_not_item_ok: "JNull \<in> set cs \<Longrightarrow> \<not> list_all item_ok cs"
  by (metis item_ok_JNull list_all_iff)

lemma renderComments_empty [simp]:
  "renderComments fmt [] lv = (lv\<lparr>lv_nodes := [Placeholder]\<rparr>, None)"
  by (simp add: renderComments_def)

lemma renderComments_ok:
  "cs \<noteq> [] \<Longrightarrow> list_all item_ok cs \<Longrightarrow>
   renderComments fmt cs lv = (lv\<lparr>lv_nodes := map (item_of fmt) cs, lv_at_bottom := True\<rparr>, None)"
  by (simp add: renderComments_def render_items_ok)

lemma renderComments_no_error: "list_all item_ok cs \<Longrightarrow> snd (renderComments fmt cs lv) = None"
  by (cases "cs = []") (simp_all add: renderComments_ok)

lemma js_truthy_str [simp]: "js_truthy (Val (JStr s)) = (s \<noteq> [])"
  by simp

lemma comment_entry_ok [simp]: "item_ok (comment_entry n b t)"
  by (simp add: comment_entry_def item_ok_def)

lemma comment_entry_wf [simp]: "json_wf (comment_entry n b t)"
  by (simp add: comment_entry_def)

lemma renderComments_error_iff: "snd (renderComments fmt cs lv) = None \<longleftrightarrow> list_all item_ok cs"
proof (cases "list_all item_ok cs")
  case False
  then have "snd (render_items fmt cs) = Some TypeError" by (rule render_items_err)
  moreover have "cs \<noteq> []" using False by auto
  ultimately show ?thesis using False by (auto simp: renderComments_def split: prod.splits)
qed (simp add: renderComments_no_error)

lemma js_trim_Nil [simp]: "js_trim [] = []"
  by (simp add: js_trim_def)

lemma slice_last_if: "(if n < length xs then slice_last n xs else xs) = slice_last n xs"
  by simp

lemma or_empty_id [simp]: "(if s \<noteq> [] then s else []) = s"
  by simp

lemma submit_valid:
  assumes "2 \<le> length (js_trim (in_body b))" and "list_all item_ok (comments b)"
  shows "submit fmt now (b, st) =
    (let cs' = slice_last 200 (comments b @ [comment_entry (js_trim (in_name b)) (js_trim (in_body b)) now])
     in ((b\<lparr>comments := cs', view := (view b)\<lparr>lv_nodes := map (item_of fmt) cs', lv_at_bottom := True\<rparr>,
            in_name := [], in_body := [], focus := FocusBody\<rparr>, saveComments cs' st), None))"
proof -
  let ?e = "comment_entry (js_trim (in_name b)) (js_trim (in_body b)) now"
  let ?cs' = "slice_last 200 (comments b @ [?e])"
  have ne: "?cs' \<noteq> []" by (simp add: slice_last_def)
  have nn: "list_all item_ok ?cs'" using assms(2) by simp
  have "js_trim (in_body b) \<noteq> []" using assms(1) by auto
  then show ?thesis
    using assms(1) renderComments_ok [OF ne nn]
    unfolding submit_def Let_def slice_last_if js_truthy_str or_empty_id by simp
qed

text \<open>C5. A submission whose trimmed body has at least two characters appends the entry
  \<^verbatim>\<open>{name, body, ts}\<close> built from the trimmed fields and the clock, keeps the last 200
  entries in order, saves that list, renders exactly it, empties both fields and focuses
  the body field; the handler raises nothing when every entry of the list renders (none
  is \<^verbatim>\<open>null\<close>, and no name, time or body is an object with an own \<^verbatim>\<open>toString\<close>).\<close>

theorem submit_accepts:
  assumes "2 \<le> length (js_trim (in_body b))" and "list_all item_ok (comments b)"
  shows "submit fmt now (b, st) =
    (let cs' = slice_last 200 (comments b @ [comment_entry (js_trim (in_name b)) (js_trim (in_body b)) now])
     in ((b\<lparr>comments := cs', view := (view b)\<lparr>lv_nodes := map (item_of fmt) cs', lv_at_bottom := True\<rparr>,
            in_name := [], in_body := [], focus := FocusBody\<rparr>, saveComments cs' st), None))"
  using assms by (rule submit_valid)

theorem submit_accepts_witness:
  "2 \<le> length (js_trim (in_body board_example)) \<and> list_all item_ok (comments board_example) \<and>
   submit fmt_example 1 (board_example, store_example) =
     (let cs' = [comment_entry ''Ann'' ''Hello world'' 1]
      in ((board_example\<lparr>comments := cs', view := (view board_example)\<lparr>lv_nodes := map (item_of fmt_example) cs', lv_at_bottom := True\<rparr>,
            in_name := [], in_body := [], focus := FocusBody\<rparr>, saveComments cs' store_example), None))"
proof -
  have t1: "js_trim (in_body board_example) = ''Hello world''"
    by (simp add: board_example_def js_trim_def js_ws_def)
  have t2: "js_trim (in_name board_example) = ''Ann''"
    by (simp add: board_example_def js_trim_def js_ws_def)
  have h1: "2 \<le> length (js_trim (in_body board_example))" using t1 by simp
  have h2: "list_all item_ok (comments board_example)" by (simp add: board_example_def)
  have "slice_last 200 (comments board_example @ [comment_entry ''Ann'' ''Hello world'' 1]) = [comment_entry ''Ann'' ''Hello world'' 1]"
    by (simp add: board_example_def slice_last_def)
  then show ?thesis using h1 h2 submit_accepts [OF h1 h2, of fmt_example 1 store_example] t1 t2
    by (simp only: Let_def)
qed

text \<open>C22. A submission whose trimmed body is empty or a single character changes nothing
  but the focus: the list, the rendering, the fields and the store stay as they were.\<close>

theorem submit_rejects:
  "length (js_trim (in_body b)) < 2 \<Longrightarrow> submit fmt now (b, st) = ((b\<lparr>focus := FocusBody\<rparr>, st), None)"
  by (simp add: submit_def Let_def)

theorem submit_rejects_witness:
  "length (js_trim '' x '') < 2 \<and>
   submit fmt_example 1 (board_example\<lparr>in_body := '' x ''\<rparr>, store_example) =
     ((board_example\<lparr>in_body := '' x '', focus := FocusBody\<rparr>, store_example), None)"
proof -
  have h: "length (js_trim (in_body (board_example\<lparr>in_body := '' x ''\<rparr>))) < 2"
    by (simp add: js_trim_def js_ws_def)
  show ?thesis using h submit_rejects [OF h, of fmt_example 1 store_example] by simp
qed

text \<open>C23. Clearing shows the confirmation dialog only for a non-empty list, and changes
  nothing, the store included, unless the user confirms.\<close>

theorem clear_all_unconfirmed:
  "(comments b = [] \<longrightarrow> clear_all fmt ok (b, st) = ((b, st), False)) \<and>
   (comments b \<noteq> [] \<longrightarrow> clear_all fmt False (b, st) = ((b, st), True))"
  by (simp add: clear_all_def)

theorem clear_all_unconfirmed_witness:
  "(comments board_example = [] \<and> clear_all fmt_example True (board_example, store_example) = ((board_example, store_example), False)) \<and>
   (comments board_one \<noteq> [] \<and> clear_all fmt_example False (board_one, store_example) = ((board_one, store_example), True))"
proof -
  have e: "comments board_example = []" by (simp add: board_example_def)
  have o: "comments board_one \<noteq> []" by (simp add: board_one_def)
  show ?thesis
    using e o clear_all_unconfirmed [of board_example fmt_example True store_example]
      clear_all_unconfirmed [of board_one fmt_example _ store_example] by simp
qed

text \<open>C24. A confirmed clear of a non-empty list empties it, saves the empty list and
  renders the placeholder alone.\<close>

theorem clear_all_confirmed:
  "comments b \<noteq> [] \<Longrightarrow>
   clear_all fmt True (b, st) =
     ((b\<lparr>comments := [], view := (view b)\<lparr>lv_nodes := [Placeholder]\<rparr>\<rparr>, saveComments [] st), True)"
  by (simp add: clear_all_def Let_def)

theorem clear_all_confirmed_witness:
  "comments board_one \<noteq> [] \<and>
   clear_all fmt_example True (board_one, store_example) =
     ((board_example\<lparr>view := \<lparr>lv_nodes = [Placeholder], lv_at_bottom = False\<rparr>\<rparr>,
       saveComments [] store_example), True)"
proof -
  have o: "comments board_one \<noteq> []" by (simp add: board_one_def)
  show ?thesis using o clear_all_confirmed [OF o, of fmt_example store_example]
    by (simp add: board_one_def board_example_def)
qed

lemma escapeHtml_no_lt: "CHR ''<'' \<notin> set (escapeHtml v)"
  using escape_ref_safe [of "js_String v"] by (auto simp: escapeHtml_def escape_chain_ref)

lemma meta_html_tags:
  "CHR ''<'' \<notin> set w \<Longrightarrow> CHR ''<'' \<notin> set t \<Longrightarrow> length (filter (\<lambda>x. x = CHR ''<'') (meta_html w t)) = 4"
proof -
  assume "CHR ''<'' \<notin> set w" "CHR ''<'' \<notin> set t"
  then have "filter (\<lambda>x. x = CHR ''<'') w = []" "filter (\<lambda>x. x = CHR ''<'') t = []"
    by (auto simp: filter_empty_conv)
  then show ?thesis by (simp add: meta_html_def)
qed

lemma item_of_entry:
  "item_of fmt (comment_entry n bd t) =
     Item (meta_html (if n = [] then ''Anonymous'' else escape_ref n) (escape_ref (fmt (Val (JNum t)))))
          (escape_ref bd)"
  by (simp add: item_of_def render_item_def comment_entry_def new_Date_def escapeHtml_res_if)

lemma escapeHtml_Undef [simp]: "escapeHtml Undef = ''undefined''"
  by (simp add: escapeHtml_def escape_chain_def dq_def sq_def)

text \<open>C37. A stored element whose name is falsy or missing and which has no
  \<^verbatim>\<open>body\<close> (a number, a string, an array, or an object without that key) is rendered,
  not rejected, whenever its time converts: its author reads \<^verbatim>\<open>Anonymous\<close>, its body
  the text \<^verbatim>\<open>undefined\<close>, and its time is whatever the locale makes of the date.\<close>

theorem render_item_missing_fields:
  assumes n: "get_prop c ''name'' = Inr nm" and f: "\<not> js_truthy nm"
    and b: "get_prop c ''body'' = Inr Undef" and t: "get_prop c ''ts'' = Inr ts" and nt: "\<not> js_throws ts"
  shows "render_item fmt c = Inr (Item (meta_html ''Anonymous'' (escape_ref (fmt ts))) ''undefined'')"
proof -
  have "item_ok c" using n f b t nt by (simp add: item_ok_def)
  then show ?thesis using f by (simp add: render_item_cases [OF n t b])
qed

theorem render_item_missing_fields_witness:
  "get_prop (JObj [(''ts'', JNum 3), (''name'', JStr [])]) ''name'' = Inr (Val (JStr [])) \<and>
   \<not> js_truthy (Val (JStr [])) \<and>
   get_prop (JObj [(''ts'', JNum 3), (''name'', JStr [])]) ''body'' = Inr Undef \<and>
   get_prop (JObj [(''ts'', JNum 3), (''name'', JStr [])]) ''ts'' = Inr (Val (JNum 3)) \<and>
   \<not> js_throws (Val (JNum 3)) \<and>
   render_item fmt_example (JObj [(''ts'', JNum 3), (''name'', JStr [])]) =
     Inr (Item (meta_html ''Anonymous'' (escape_ref (fmt_example (Val (JNum 3))))) ''undefined'')"
proof -
  have n: "get_prop (JObj [(''ts'', JNum 3), (''name'', JStr [])]) ''name'' = Inr (Val (JStr []))"
    and b: "get_prop (JObj [(''ts'', JNum 3), (''name'', JStr [])]) ''body'' = Inr Undef"
    and t: "get_prop (JObj [(''ts'', JNum 3), (''name'', JStr [])]) ''ts'' = Inr (Val (JNum 3))"
    by simp_all
  have f: "\<not> js_truthy (Val (JStr []))" and nt: "\<not> js_throws (Val (JNum 3))" by simp_all
  show ?thesis using n b t f nt render_item_missing_fields [OF n f b t nt, of fmt_example] by simp
qed

text \<open>C26. Whatever a comment holds, its rendered body carries no markup character, and
  the meta line's markup is the template's own four tags: a name, a body or a time string
  can inject no element.\<close>

theorem render_item_markup:
  "render_item fmt c = Inr (Item m bd) \<Longrightarrow>
   set bd \<inter> {CHR ''<'', CHR ''>'', dq, sq} = {} \<and> length (filter (\<lambda>x. x = CHR ''<'') m) = 4"
proof -
  assume r: "render_item fmt c = Inr (Item m bd)"
  have ok: "item_ok c" using r render_item_err [of c fmt] by (cases "item_ok c") auto
  then have "c \<noteq> JNull" by auto
  then obtain nm ts bv where g: "get_prop c ''name'' = Inr nm" "get_prop c ''ts'' = Inr ts" "get_prop c ''body'' = Inr bv"
    using get_props by blast
  have m: "m = meta_html (if js_truthy nm then escapeHtml nm else ''Anonymous'') (escapeHtml (Val (JStr (fmt ts))))"
    and bd: "bd = escapeHtml bv"
    using r ok by (simp_all add: render_item_cases [OF g])
  have who: "CHR ''<'' \<notin> set (if js_truthy nm then escapeHtml nm else ''Anonymous'')"
    using escapeHtml_no_lt by auto
  have "length (filter (\<lambda>x. x = CHR ''<'') m) = 4"
    unfolding m using meta_html_tags [OF who escapeHtml_no_lt] .
  then show ?thesis
    using bd escape_ref_safe [of "js_String bv"] by (simp add: escapeHtml_def escape_chain_ref)
qed

theorem render_item_markup_witness:
  "\<exists>m bd. render_item fmt_example (comment_entry ''<b>Ann</b>'' ''<script>x</script>'' 1) = Inr (Item m bd) \<and>
     set bd \<inter> {CHR ''<'', CHR ''>'', dq, sq} = {} \<and> length (filter (\<lambda>x. x = CHR ''<'') m) = 4"
proof -
  let ?c = "comment_entry ''<b>Ann</b>'' ''<script>x</script>'' 1"
  obtain m bd where r: "render_item fmt_example ?c = Inr (Item m bd)"
    using render_item_ok [OF comment_entry_ok, of fmt_example] item_of_entry by simp
  show ?thesis using r render_item_markup [OF r] by blast
qed

text \<open>C27. A \<^verbatim>\<open>null\<close> element anywhere in the list makes \<^verbatim>\<open>renderComments\<close> throw a
  \<^verbatim>\<open>TypeError\<close> after rendering the elements before it.\<close>

theorem renderComments_null_throws:
  "JNull \<in> set cs \<Longrightarrow> snd (renderComments fmt cs lv) = Some TypeError"
proof -
  assume n: "JNull \<in> set cs"
  then have "\<not> list_all item_ok cs" by (rule null_not_item_ok)
  then show ?thesis using n render_items_err [of cs fmt]
    by (auto simp: renderComments_def split: prod.split option.split)
qed

theorem renderComments_null_throws_witness:
  "JNull \<in> set [comment_entry ''Ann'' ''Hello world'' 1, JNull] \<and>
   snd (renderComments fmt_example [comment_entry ''Ann'' ''Hello world'' 1, JNull] (view board_example)) = Some TypeError"
proof -
  have h: "JNull \<in> set [comment_entry ''Ann'' ''Hello world'' 1, JNull]" by simp
  show ?thesis using h renderComments_null_throws [OF h] by blast
qed

lemma entry_record_ok:
  "2 \<le> length (js_trim b) \<Longrightarrow> length b \<le> 2000 \<Longrightarrow> length n \<le> 60 \<Longrightarrow>
   comment_record_ok (comment_entry (js_trim n) (js_trim b) t)"
  using length_js_trim [of b] length_js_trim [of n]
  by (simp add: comment_entry_def js_trim_idem)

lemma submit_parts:
  "comments (fst (fst (submit fmt now (b, st)))) =
     (if length (js_trim (in_body b)) < 2 then comments b
      else slice_last 200 (comments b @ [comment_entry (js_trim (in_name b)) (js_trim (in_body b)) now])) \<and>
   (in_name (fst (fst (submit fmt now (b, st)))) = in_name b \<or> in_name (fst (fst (submit fmt now (b, st)))) = []) \<and>
   (in_body (fst (fst (submit fmt now (b, st)))) = in_body b \<or> in_body (fst (fst (submit fmt now (b, st)))) = [])"
  unfolding submit_def Let_def slice_last_if js_truthy_str or_empty_id
  by (simp add: case_prod_unfold split: option.split)

end
