(* ===== verification/Toolbar.thy ===== *)
theory Toolbar
  imports Js_Value
begin

text \<open>
  The floating toolbar of \<^verbatim>\<open>src/index.js\<close> and the back-to-top control. \<open>mkBtn\<close> is
  the button factory (lines 84--98): it joins four class strings with spaces into
  \<^verbatim>\<open>className\<close>, which the browser splits at ASCII white space into the button's
  \<^verbatim>\<open>classList\<close> (\<open>class_tokens\<close>). \<open>bwBtn_el\<close> and \<open>topBtn_el\<close> are its two calls
  (lines 101--105 and 109--113), \<open>toolbar_el\<close> the container (lines 79--81, 106, 114),
  \<open>panel_el\<close> the comments panel's own attributes (lines 119--125; the markup its
  \<^verbatim>\<open>innerHTML\<close> creates is \<open>Panel.panel_markup\<close>). \<open>bootstrap_dom\<close>
  is the three insertions into the document (lines 76, 116 and 150) over the child lists
  of \<^verbatim>\<open><head>\<close> and \<^verbatim>\<open><body>\<close>. \<open>onScroll\<close> (lines 291--298) shows the back-to-top
  button past \<^verbatim>\<open>SCROLL_SHOW_PX\<close> (line 10).

  The markup strings of the buttons are kept as written, the arrow of the back-to-top
  button as its UTF-8 bytes; nothing in the script reads them back.
\<close>

definition SCROLL_SHOW_PX :: int where
  "SCROLL_SHOW_PX = 300"

section \<open>Elements and their class lists\<close>

record elem =
  el_tag :: string
  el_attrs :: "(string \<times> string) list"
  el_class :: string
  el_html :: string

definition set_attr :: "string \<Rightarrow> string \<Rightarrow> elem \<Rightarrow> elem" where
  "set_attr k v e = e\<lparr>el_attrs := AList.update k v (el_attrs e)\<rparr>"

definition get_attr :: "elem \<Rightarrow> string \<Rightarrow> string option" where
  "get_attr e k = map_of (el_attrs e) k"

definition create_element :: "string \<Rightarrow> elem" where
  "create_element t = \<lparr>el_tag = t, el_attrs = [], el_class = [], el_html = []\<rparr>"

text \<open>ASCII white space, at which the \<^verbatim>\<open>class\<close> attribute is split into tokens.\<close>

definition html_ws :: "char \<Rightarrow> bool" where
  "html_ws c \<longleftrightarrow> of_char c \<in> {9, 10, 12, 13, 32 :: nat}"

text \<open>The tokens of a string, \<open>cur\<close> holding the reversed token being read.\<close>

fun tokens_acc :: "string \<Rightarrow> string \<Rightarrow> string list" where
  "tokens_acc cur [] = (if cur = [] then [] else [rev cur])"
| "tokens_acc cur (c # cs) =
     (if html_ws c then (if cur = [] then tokens_acc [] cs else rev cur # tokens_acc [] cs)
      else tokens_acc (c # cur) cs)"

definition class_tokens :: "string \<Rightarrow> string list" where
  "class_tokens s = remdups (tokens_acc [] s)"

section \<open>mkBtn and the toolbar\<close>

record btn_opts =
  bo_title :: string
  bo_html :: string
  bo_pressed :: bool
  bo_extra :: string

definition btn_base_classes :: "string list" where
  "btn_base_classes =
     [''w-11 h-11 rounded-lg border flex items-center justify-center'',
      ''bg-white text-black border-gray-200 shadow-sm'',
      ''hover:-translate-y-1 transition-transform'']"

definition mkBtn :: "btn_opts \<Rightarrow> elem" where
  "mkBtn opts =
     (let b = create_element ''button'';
          b1 = set_attr ''type'' ''button'' b;
          b2 = set_attr ''title'' (bo_title opts) b1;
          b3 = set_attr ''aria-pressed'' (if bo_pressed opts then ''true'' else ''false'') b2;
          b4 = b3\<lparr>el_class := js_join '' '' (btn_base_classes @ [bo_extra opts])\<rparr>
      in b4\<lparr>el_html := bo_html opts\<rparr>)"

definition bwBtn_el :: elem where
  \<open>bwBtn_el = mkBtn
     \<lparr>bo_title = ''Toggle theme (press "b")'',
      bo_html = ''<span aria-hidden="true">B/W</span><span class="sr-only">Toggle theme (light / dark)</span>'',
      bo_pressed = False, bo_extra = ''''\<rparr>\<close>

definition topBtn_el :: elem where
  \<open>topBtn_el = mkBtn
     \<lparr>bo_title = ''Back to top (press "t")'',
      bo_html = ''<span aria-hidden="true">'' @ [CHR 0xE2, CHR 0x86, CHR 0x91] @ ''</span><span class="sr-only">Back to top</span>'',
      bo_pressed = False, bo_extra = ''hidden''\<rparr>\<close>

definition toolbar_el :: elem where
  "toolbar_el =
     set_attr ''aria-hidden'' ''false''
       ((create_element ''div'')\<lparr>el_class := ''fixed right-4 bottom-4 flex flex-col gap-2 z-[99999] select-none''\<rparr>)"

definition panel_el :: elem where
  "panel_el =
     set_attr ''aria-label'' ''Comments''
       ((create_element ''section'')\<lparr>el_class :=
          js_join '' '' [''max-w-3xl mx-auto my-10 p-5 rounded-lg border'',
                         ''bg-white text-black border-gray-200 shadow-lg'', ''font-sans'']\<rparr>)"

section \<open>Insertion into the document\<close>

text \<open>The children of \<^verbatim>\<open><head>\<close> and \<^verbatim>\<open><body>\<close>: the page's own nodes, numbered,
  and the three the script creates.\<close>

datatype dnode = DStyle | DToolbar | DPanel | DPage nat

definition bootstrap_dom :: "nat list \<Rightarrow> nat list \<Rightarrow> dnode list \<times> dnode list" where
  "bootstrap_dom head body =
     (let head' = map DPage head @ [DStyle];
          body1 = map DPage body @ [DToolbar];
          body2 = insert_before DPanel DToolbar body1
      in (head', body2))"

section \<open>Back to top\<close>

definition onScroll :: "int \<Rightarrow> string list \<Rightarrow> string list" where
  "onScroll y cls = (if y > SCROLL_SHOW_PX then tok_remove ''hidden'' cls else tok_add ''hidden'' cls)"

section \<open>Lemmas\<close>

lemma html_ws_space [simp]: "html_ws (CHR '' '')"
  by (simp add: html_ws_def)

lemma tokens_acc_split:
  "html_ws c \<Longrightarrow> tokens_acc cur (a @ c # b) = tokens_acc cur a @ tokens_acc [] b"
  by (induction cur a rule: tokens_acc.induct) auto

lemma tokens_acc_join:
  "tokens_acc [] (js_join '' '' xs) = concat (map (tokens_acc []) xs)"
  by (induction "'' ''" xs rule: js_join.induct) (simp_all add: tokens_acc_split)

lemma btn_base_tokens:
  "concat (map (tokens_acc []) btn_base_classes) =
     [''w-11'', ''h-11'', ''rounded-lg'', ''border'', ''flex'', ''items-center'', ''justify-center'',
      ''bg-white'', ''text-black'', ''border-gray-200'', ''shadow-sm'',
      ''hover:-translate-y-1'', ''transition-transform'']"
  by (simp add: btn_base_classes_def html_ws_def)

lemma hidden_onScroll [simp]: "''hidden'' \<in> set (onScroll y cls) \<longleftrightarrow> y \<le> 300"
  by (simp add: onScroll_def SCROLL_SHOW_PX_def)

text \<open>C35. The class list \<^verbatim>\<open>mkBtn\<close> gives a button is the thirteen base classes
  followed by the tokens of \<^verbatim>\<open>extraClasses\<close>, without repetition: the trailing space
  that the default empty \<^verbatim>\<open>extraClasses\<close> leaves in \<^verbatim>\<open>className\<close> adds no token, and
  the button's \<^verbatim>\<open>aria-pressed\<close> is the text of \<^verbatim>\<open>pressed\<close>.\<close>

theorem mkBtn_classes:
  "class_tokens (el_class (mkBtn opts)) =
     remdups ([''w-11'', ''h-11'', ''rounded-lg'', ''border'', ''flex'', ''items-center'', ''justify-center'',
               ''bg-white'', ''text-black'', ''border-gray-200'', ''shadow-sm'',
               ''hover:-translate-y-1'', ''transition-transform''] @ tokens_acc [] (bo_extra opts)) \<and>
   get_attr (mkBtn opts) ''aria-pressed'' = Some (if bo_pressed opts then ''true'' else ''false'')"
  using btn_base_tokens
  by (simp add: mkBtn_def class_tokens_def tokens_acc_join get_attr_def set_attr_def create_element_def Let_def)

lemma top_hidden_initially: "''hidden'' \<in> set (class_tokens (el_class topBtn_el))"
  by (simp add: topBtn_el_def mkBtn_def class_tokens_def tokens_acc_join set_attr_def create_element_def
                Let_def btn_base_classes_def html_ws_def)

text \<open>C36. The style element is appended to \<^verbatim>\<open><head>\<close>, and \<^verbatim>\<open><body>\<close> ends with the
  comments panel immediately followed by the toolbar, after the page's own nodes in their
  order.\<close>

theorem bootstrap_dom_layout:
  "bootstrap_dom head body = (map DPage head @ [DStyle], map DPage body @ [DPanel, DToolbar])"
proof -
  have "DToolbar \<notin> set (map DPage body)" by auto
  then show ?thesis
    using insert_before_append [of DToolbar "map DPage body" DPanel "[]"]
    by (simp add: bootstrap_dom_def)
qed

text \<open>C25. \<^verbatim>\<open>onScroll\<close> leaves the back-to-top button hidden exactly when the offset
  is at most 300 pixels (300 hides, 301 shows), and touches no other class.\<close>

theorem onScroll_threshold:
  "(''hidden'' \<in> set (onScroll y cls) \<longleftrightarrow> y \<le> 300) \<and>
   set (onScroll y cls) - {''hidden''} = set cls - {''hidden''}"
  by (auto simp: onScroll_def SCROLL_SHOW_PX_def)

end
