(* ===== verification/Stylesheet.thy ===== *)
theory Stylesheet
  imports Prelude
begin

text \<open>
  The stylesheet the script injects (\<^verbatim>\<open>src/index.js\<close>, lines 15--75), as the rules it
  consists of, and the part of the CSS cascade that decides which of its declarations an
  element of the page gets. A selector of the sheet is either a class or a type selector on
  its own, or one under \<^verbatim>\<open>html.bw\<close> (a descendant of the root element while it has
  the marker class). The template literal's \<^verbatim>\<open>\\[\<close>, \<^verbatim>\<open>\\#\<close>, \<^verbatim>\<open>\\]\<close> and
  \<^verbatim>\<open>\\/\<close> reach the CSS parser as the escapes \<^verbatim>\<open>\[\<close>, \<^verbatim>\<open>\#\<close>, \<^verbatim>\<open>\]\<close> and
  \<^verbatim>\<open>\/\<close>, so the class names are the Tailwind names such as \<^verbatim>\<open>text-[#e9eef1]\<close>.

  \<open>css_value\<close> is the value this sheet gives a property of an element (its tag and class
  list, below a root with the given classes): among the declarations of that property in
  the rules whose selectors match, the one with the highest importance, then the highest
  specificity of its matching selector, then the last in the sheet, a shorthand
  declaration counting as a declaration of each of its longhands (\<open>expand_decl\<close>). The page's own
  stylesheet is outside the model; the declarations here are \<^verbatim>\<open>!important\<close> (all but
  five of \<^verbatim>\<open>.sr-only\<close>), so they win over the page's normal utility classes.
\<close>

datatype target = TTag string | TClass string

text \<open>\<open>Sel True t\<close> is \<^verbatim>\<open>html.bw t\<close>, \<open>Sel False t\<close> is \<open>t\<close> alone.\<close>

datatype selector = Sel bool target

record css_rule =
  r_sels :: "selector list"
  r_decls :: "(string \<times> string \<times> bool) list"

definition theme_css :: "css_rule list" where
  "theme_css =
     [\<lparr>r_sels = [Sel True (TTag ''img''), Sel True (TTag ''picture''), Sel True (TTag ''video''), Sel True (TTag ''svg'')],
       r_decls = [(''filter'', ''none'', True), (''opacity'', ''1'', True), (''background'', ''transparent'', True)]\<rparr>,
      \<lparr>r_sels = [Sel True (TTag ''body''), Sel True (TClass ''min-h-screen'')],
       r_decls = [(''background-color'', ''#ffffff'', True), (''color'', ''#0b0b0d'', True)]\<rparr>,
      \<lparr>r_sels = [Sel True (TClass ''text-[#e9eef1]''), Sel True (TClass ''text-white'')],
       r_decls = [(''color'', ''#0b0b0d'', True)]\<rparr>,
      \<lparr>r_sels = [Sel True (TClass ''bg-[#0b0b0d]''), Sel True (TClass ''bg-[#18181b]'')],
       r_decls = [(''background-color'', ''#ffffff'', True)]\<rparr>,
      \<lparr>r_sels = [Sel True (TClass ''bg-[#18181b]'')],
       r_decls = [(''background-color'', ''#fafafa'', True)]\<rparr>,
      \<lparr>r_sels = [Sel True (TClass ''border-[#232325]''), Sel True (TClass ''border-[#232325]'')],
       r_decls = [(''border-color'', ''#e6e6e6'', True)]\<rparr>,
      \<lparr>r_sels = [Sel True (TClass ''text-[#fffde4]''), Sel True (TClass ''text-[#fffde4]/80'')],
       r_decls = [(''color'', ''#3a3a3a'', True)]\<rparr>,
      \<lparr>r_sels = [Sel False (TClass ''bw-toggle-btn-on'')],
       r_decls = [(''background-color'', ''#ffffff'', True), (''color'', ''#0b0b0d'', True),
                  (''border-color'', ''#d1d1d1'', True)]\<rparr>,
      \<lparr>r_sels = [Sel False (TClass ''bw-toggle-btn-off'')],
       r_decls = [(''background-color'', ''#0b0b0d'', True), (''color'', ''#f5f7f8'', True),
                  (''border-color'', ''#232325'', True)]\<rparr>,
      \<lparr>r_sels = [Sel False (TClass ''sr-only'')],
       r_decls = [(''position'', ''absolute'', True), (''height'', ''1px'', False), (''width'', ''1px'', False),
                  (''overflow'', ''hidden'', False), (''clip'', ''rect(1px, 1px, 1px, 1px)'', False),
                  (''white-space'', ''nowrap'', False)]\<rparr>]"

text \<open>The class names the sheet's selectors mention.\<close>

definition sheet_classes :: "string list" where
  "sheet_classes =
     concat (map (\<lambda>r. concat (map (\<lambda>s. case s of Sel b (TClass c) \<Rightarrow> [c] | Sel b (TTag n) \<Rightarrow> []) (r_sels r)))
                 theme_css)"

section \<open>Selector matching and specificity\<close>

fun target_matches :: "string \<Rightarrow> string list \<Rightarrow> target \<Rightarrow> bool" where
  "target_matches tag cls (TTag n) = (tag = n)"
| "target_matches tag cls (TClass c) = (c \<in> set cls)"

fun sel_matches :: "string list \<Rightarrow> string \<Rightarrow> string list \<Rightarrow> selector \<Rightarrow> bool" where
  "sel_matches rc tag cls (Sel bw t) = ((bw \<longrightarrow> ''bw'' \<in> set rc) \<and> target_matches tag cls t)"

text \<open>Specificity as (class count, type count); the sheet has no id selector.\<close>

fun sel_spec :: "selector \<Rightarrow> nat \<times> nat" where
  "sel_spec (Sel bw (TTag n)) = (if bw then (1, 2) else (0, 1))"
| "sel_spec (Sel bw (TClass c)) = (if bw then (2, 1) else (1, 0))"

definition spec_le :: "nat \<times> nat \<Rightarrow> nat \<times> nat \<Rightarrow> bool" where
  "spec_le a b \<longleftrightarrow> fst a < fst b \<or> (fst a = fst b \<and> snd a \<le> snd b)"

definition spec_max :: "nat \<times> nat \<Rightarrow> nat \<times> nat \<Rightarrow> nat \<times> nat" where
  "spec_max a b = (if spec_le a b then b else a)"

text \<open>The specificity with which a rule applies: that of its most specific matching
  selector, none when no selector matches.\<close>

definition rule_spec :: "string list \<Rightarrow> string \<Rightarrow> string list \<Rightarrow> css_rule \<Rightarrow> (nat \<times> nat) option" where
  "rule_spec rc tag cls r =
     fold (\<lambda>s acc. if sel_matches rc tag cls s
                     then Some (case acc of None \<Rightarrow> sel_spec s | Some a \<Rightarrow> spec_max a (sel_spec s))
                     else acc) (r_sels r) None"

section \<open>The cascade\<close>

text \<open>A shorthand declaration sets each of its longhands. The sheet's one shorthand,
  \<^verbatim>\<open>background: transparent\<close> (line 21), gives a colour alone: it sets
  \<^verbatim>\<open>background-color\<close> to it and every other background longhand to its initial
  value. \<^verbatim>\<open>border-color\<close> is kept as one property, since no rule sets one of its sides.\<close>

definition bg_longhands :: "(string \<times> string) list" where
  "bg_longhands =
     [(''background-image'', ''none''), (''background-position'', ''0% 0%''), (''background-size'', ''auto''),
      (''background-repeat'', ''repeat''), (''background-attachment'', ''scroll''),
      (''background-origin'', ''padding-box''), (''background-clip'', ''border-box'')]"

definition expand_decl :: "string \<times> string \<times> bool \<Rightarrow> (string \<times> string \<times> bool) list" where
  "expand_decl d =
     (case d of (q, v, imp) \<Rightarrow>
        if q = ''background'' then (''background-color'', v, imp) # map (\<lambda>(q', v'). (q', v', imp)) bg_longhands
        else [d])"


text \<open>A candidate declaration: importance, specificity, value. Candidates are listed in
  the order of the sheet; a later one wins unless an earlier one is more important or
  more specific.\<close>

type_synonym candidate = "bool \<times> (nat \<times> nat) \<times> string"

definition candidates :: "string list \<Rightarrow> string \<Rightarrow> string list \<Rightarrow> string \<Rightarrow> candidate list" where
  "candidates rc tag cls p =
     concat (map (\<lambda>r. let ds = filter (\<lambda>(q, v, imp). q = p) (concat (map expand_decl (r_decls r))) in
                      if ds = [] then []
                      else (case rule_spec rc tag cls r of
                              None \<Rightarrow> []
                            | Some sp \<Rightarrow> map (\<lambda>(q, v, imp). (imp, sp, v)) ds))
                 theme_css)"

definition cand_ge :: "candidate \<Rightarrow> candidate \<Rightarrow> bool" where
  "cand_ge c d \<longleftrightarrow> (fst c \<and> \<not> fst d) \<or> (fst c = fst d \<and> spec_le (fst (snd d)) (fst (snd c)))"

definition pick :: "candidate \<Rightarrow> candidate option \<Rightarrow> candidate option" where
  "pick c cur = (case cur of None \<Rightarrow> Some c | Some d \<Rightarrow> if cand_ge c d then Some c else Some d)"

definition css_value :: "string list \<Rightarrow> string \<Rightarrow> string list \<Rightarrow> string \<Rightarrow> string option" where
  "css_value rc tag cls p = map_option (\<lambda>c. snd (snd c)) (fold pick (candidates rc tag cls p) None)"

section \<open>Lemmas\<close>

lemma expand_decl_eq [simp]:
  "expand_decl (q, v, imp) =
     (if q = ''background''
      then [(''background-color'', v, imp), (''background-image'', ''none'', imp), (''background-position'', ''0% 0%'', imp),
            (''background-size'', ''auto'', imp), (''background-repeat'', ''repeat'', imp),
            (''background-attachment'', ''scroll'', imp), (''background-origin'', ''padding-box'', imp),
            (''background-clip'', ''border-box'', imp)]
      else [(q, v, imp)])"
  by (simp add: expand_decl_def bg_longhands_def)

lemma sel_matches_dark: "''bw'' \<notin> set rc \<Longrightarrow> sel_matches rc tag cls s = sel_matches [] tag cls s"
  by (cases s) simp

lemma fold_if_cong:
  "(\<And>s. s \<in> set ss \<Longrightarrow> P s = Q s) \<Longrightarrow>
   fold (\<lambda>s acc. if P s then f s acc else acc) ss a = fold (\<lambda>s acc. if Q s then f s acc else acc) ss a"
  by (induction ss arbitrary: a) auto

lemma candidates_cong:
  assumes "\<And>r s. r \<in> set theme_css \<Longrightarrow> s \<in> set (r_sels r) \<Longrightarrow> sel_matches rc tag cls s = sel_matches rc' tag' cls' s"
  shows "candidates rc tag cls p = candidates rc' tag' cls' p"
proof -
  have "rule_spec rc tag cls r = rule_spec rc' tag' cls' r" if "r \<in> set theme_css" for r
    unfolding rule_spec_def using assms [OF that] by (rule fold_if_cong)
  then show ?thesis unfolding candidates_def Let_def by (intro arg_cong [where f = concat] map_cong) auto
qed

lemma css_value_dark: "''bw'' \<notin> set rc \<Longrightarrow> css_value rc tag cls p = css_value [] tag cls p"
proof -
  assume d: "''bw'' \<notin> set rc"
  have "candidates rc tag cls p = candidates [] tag cls p"
    by (rule candidates_cong) (rule sel_matches_dark [OF d])
  then show ?thesis by (simp add: css_value_def)
qed

lemma sheet_class_mentioned:
  "r \<in> set theme_css \<Longrightarrow> Sel b (TClass c) \<in> set (r_sels r) \<Longrightarrow> c \<in> set sheet_classes"
  by (auto simp: theme_css_def sheet_classes_def)

lemma css_value_classes:
  assumes "set cls \<inter> set sheet_classes = set cls' \<inter> set sheet_classes"
  shows "css_value rc tag cls p = css_value rc tag cls' p"
proof -
  have "sel_matches rc tag cls s = sel_matches rc tag cls' s"
    if "r \<in> set theme_css" "s \<in> set (r_sels r)" for r s
  proof (cases s)
    case (Sel b t)
    then show ?thesis
    proof (cases t)
      case (TClass c)
      then have "c \<in> set sheet_classes" using that Sel sheet_class_mentioned by blast
      then show ?thesis using assms Sel TClass by auto
    qed simp
  qed
  then have "candidates rc tag cls p = candidates rc tag cls' p" by (rule candidates_cong)
  then show ?thesis by (simp add: css_value_def)
qed

lemma case_option_nil [simp]: "(case x of None \<Rightarrow> [] | Some y \<Rightarrow> []) = []"
  by (cases x) simp_all

lemma btn_state_style:
  "css_value rc ''button'' [''bw-toggle-btn-on''] ''background-color'' = Some ''#ffffff'' \<and>
   css_value rc ''button'' [''bw-toggle-btn-on''] ''color'' = Some ''#0b0b0d'' \<and>
   css_value rc ''button'' [''bw-toggle-btn-on''] ''border-color'' = Some ''#d1d1d1'' \<and>
   css_value rc ''button'' [''bw-toggle-btn-off''] ''background-color'' = Some ''#0b0b0d'' \<and>
   css_value rc ''button'' [''bw-toggle-btn-off''] ''color'' = Some ''#f5f7f8'' \<and>
   css_value rc ''button'' [''bw-toggle-btn-off''] ''border-color'' = Some ''#232325''"
  by (simp add: css_value_def candidates_def Let_def theme_css_def rule_spec_def pick_def spec_max_def spec_le_def)

lemma toggle_classes_named [simp]:
  "''bw-toggle-btn-on'' \<in> set sheet_classes" "''bw-toggle-btn-off'' \<in> set sheet_classes"
  by (simp_all add: sheet_classes_def theme_css_def)

lemma sheet_selectors:
  "r \<in> set theme_css \<Longrightarrow> Sel b t \<in> set (r_sels r) \<Longrightarrow>
   (case t of TTag n \<Rightarrow> n \<in> {''body'', ''img'', ''picture'', ''video'', ''svg''}
            | TClass c \<Rightarrow> c \<in> set sheet_classes \<and> (c = ''sr-only'' \<longrightarrow> \<not> b))"
  by (auto simp: theme_css_def sheet_classes_def)

lemma css_value_plain:
  assumes t: "tag \<notin> {''body'', ''img'', ''picture'', ''video'', ''svg''}"
    and c: "set cls \<inter> set sheet_classes \<subseteq> {''sr-only''}"
  shows "css_value rc tag cls p = css_value [] ''label'' (if ''sr-only'' \<in> set cls then [''sr-only''] else []) p"
proof -
  have "candidates rc tag cls p = candidates [] ''label'' (if ''sr-only'' \<in> set cls then [''sr-only''] else []) p"
  proof (rule candidates_cong)
    fix r s assume r: "r \<in> set theme_css" and s: "s \<in> set (r_sels r)"
    obtain b x where sx: "s = Sel b x" by (cases s)
    show "sel_matches rc tag cls s = sel_matches [] ''label'' (if ''sr-only'' \<in> set cls then [''sr-only''] else []) s"
      using sheet_selectors [OF r s [unfolded sx]] t c by (cases x) (auto simp: sx)
  qed
  then show ?thesis by (simp add: css_value_def)
qed

lemma css_label_none: "css_value rc ''label'' [] p = None"
  by (simp add: css_value_def candidates_def Let_def theme_css_def rule_spec_def)

text \<open>C39. Without the marker class the sheet styles only elements carrying one of the
  toggle button's two state classes or \<^verbatim>\<open>.sr-only\<close>: the page's dark default is left
  to the page.\<close>

theorem css_dark_inert:
  "''bw'' \<notin> set rc \<Longrightarrow> css_value rc tag cls p \<noteq> None \<Longrightarrow>
   ''bw-toggle-btn-on'' \<in> set cls \<or> ''bw-toggle-btn-off'' \<in> set cls \<or> ''sr-only'' \<in> set cls"
proof -
  assume d: "''bw'' \<notin> set rc" and v: "css_value rc tag cls p \<noteq> None"
  show ?thesis
  proof (rule ccontr)
    assume "\<not> ?thesis"
    then have "candidates [] tag cls p = []"
      by (simp add: candidates_def Let_def theme_css_def rule_spec_def)
    then have "css_value [] tag cls p = None" by (simp add: css_value_def)
    then show False using v css_value_dark [OF d, of tag cls p] by simp
  qed
qed

theorem css_dark_inert_witness:
  "''bw'' \<notin> set [''dark''] \<and> css_value [''dark''] ''span'' [''sr-only''] ''position'' \<noteq> None \<and>
   ''sr-only'' \<in> set [''sr-only'']"
  using css_dark_inert [of "[''dark'']" "''span''" "[''sr-only'']" "''position''"]
  by (simp add: css_value_def candidates_def Let_def theme_css_def rule_spec_def pick_def cand_ge_def spec_max_def spec_le_def)

lemma media_background_color:
  assumes "''bw'' \<in> set rc" "tag \<in> {''img'', ''picture'', ''video'', ''svg''}"
  shows "css_value rc tag cls ''background-color'' =
           Some (if ''bg-[#18181b]'' \<in> set cls then ''#fafafa''
                 else if ''bg-[#0b0b0d]'' \<in> set cls \<or> ''min-h-screen'' \<in> set cls then ''#ffffff''
                 else ''transparent'')"
  using assms
  by (elim insertE emptyE; cases "''bg-[#18181b]'' \<in> set cls"; cases "''bg-[#0b0b0d]'' \<in> set cls";
      cases "''min-h-screen'' \<in> set cls";
      simp add: css_value_def candidates_def Let_def theme_css_def rule_spec_def pick_def cand_ge_def
        spec_max_def spec_le_def; blast?)

text \<open>C12. In the light theme the sheet sets the look of every image, picture, video and
  SVG graphic: no filter, full opacity, no background image, and a transparent background
  colour unless the element carries one of the classes the sheet whitens, where the
  more specific class rules win (\<^verbatim>\<open>#fafafa\<close> for \<^verbatim>\<open>bg-[#18181b]\<close>, \<^verbatim>\<open>#ffffff\<close> for
  \<^verbatim>\<open>bg-[#0b0b0d]\<close> and \<^verbatim>\<open>min-h-screen\<close>).\<close>

theorem css_media_untouched:
  assumes b: "''bw'' \<in> set rc" and t: "tag \<in> {''img'', ''picture'', ''video'', ''svg''}"
  shows "css_value rc tag cls ''filter'' = Some ''none'' \<and> css_value rc tag cls ''opacity'' = Some ''1'' \<and>
         css_value rc tag cls ''background-image'' = Some ''none'' \<and>
         css_value rc tag cls ''background-color'' =
           Some (if ''bg-[#18181b]'' \<in> set cls then ''#fafafa''
                 else if ''bg-[#0b0b0d]'' \<in> set cls \<or> ''min-h-screen'' \<in> set cls then ''#ffffff''
                 else ''transparent'')"
proof -
  have "css_value rc tag cls ''filter'' = Some ''none'' \<and> css_value rc tag cls ''opacity'' = Some ''1'' \<and>
        css_value rc tag cls ''background-image'' = Some ''none''"
    using b t by (elim insertE emptyE; simp add: css_value_def candidates_def Let_def theme_css_def rule_spec_def
      pick_def spec_max_def spec_le_def)
  then show ?thesis using media_background_color [OF b t] by simp
qed

theorem css_media_untouched_witness:
  "css_value [''bw''] ''img'' [''rounded''] ''filter'' = Some ''none'' \<and>
   css_value [''bw''] ''img'' [''rounded''] ''background-color'' = Some ''transparent'' \<and>
   css_value [''bw''] ''img'' [''rounded'', ''bg-[#18181b]''] ''background-color'' = Some ''#fafafa''"
proof -
  have b: "''bw'' \<in> set [''bw'']" and t: "''img'' \<in> {''img'', ''picture'', ''video'', ''svg''}" by simp_all
  show ?thesis
    using css_media_untouched [OF b t, of "[''rounded'']"] css_media_untouched [OF b t, of "[''rounded'', ''bg-[#18181b]'']"]
    by simp
qed

text \<open>C38. In the light theme a card (\<^verbatim>\<open>bg-[#18181b]\<close>) gets the light neutral
  \<^verbatim>\<open>#fafafa\<close>: the later rule for the card class overrides the earlier rule that
  whitens both dark backgrounds, whatever else the element is.\<close>

theorem css_card_background:
  "''bw'' \<in> set rc \<Longrightarrow> ''bg-[#18181b]'' \<in> set cls \<Longrightarrow>
   css_value rc tag cls ''background-color'' = Some ''#fafafa''"
  by (simp add: css_value_def candidates_def Let_def theme_css_def rule_spec_def pick_def cand_ge_def spec_max_def spec_le_def)
     blast

theorem css_card_background_witness:
  "css_value [''bw''] ''div'' [''p-4'', ''bg-[#18181b]''] ''background-color'' = Some ''#fafafa''"
  using css_card_background [of "[''bw'']" "[''p-4'', ''bg-[#18181b]'']" "''div''"] by simp

text \<open>C40. The sheet keeps the gold accents unchanged, as its comment on line 55 says:
  whether an element carries \<^verbatim>\<open>text-[#f2c94c]\<close> or \<^verbatim>\<open>bg-[#b08a13]\<close> changes no value
  the sheet gives it, for any element, property and theme.\<close>

theorem css_gold_accents_inert:
  "css_value rc tag (filter (\<lambda>c. c \<notin> {''text-[#f2c94c]'', ''bg-[#b08a13]''}) cls) p = css_value rc tag cls p"
proof -
  have g: "''text-[#f2c94c]'' \<notin> set sheet_classes" "''bg-[#b08a13]'' \<notin> set sheet_classes"
    by (simp_all add: sheet_classes_def theme_css_def)
  show ?thesis by (rule css_value_classes) (use g in auto)
qed

end
