(* ===== verification/Panel.thy ===== *)
theory Panel
  imports Comments Stylesheet Toolbar
begin

text \<open>
  The markup of the comments panel (\<^verbatim>\<open>src/index.js\<close>, lines 126--148: the template
  literal assigned to \<^verbatim>\<open>commentsPanel.innerHTML\<close>) as the tree of elements the HTML
  parser builds from it, and the six \<^verbatim>\<open>commentsPanel.querySelector('#...')\<close> lookups of
  lines 176--181 through which the script reaches its parts. Attributes are kept in the
  order written, a boolean attribute such as \<^verbatim>\<open>required\<close> with the empty value; the
  white-space-only text nodes between the tags are left out, as nothing reads them.
  \<open>query_id\<close> is \<^verbatim>\<open>querySelector\<close> with an id selector: the first descendant in tree
  order (pre-order) whose \<^verbatim>\<open>id\<close> is the given one. \<open>focus_kind\<close> is the part of the key
  handler's \<^verbatim>\<open>isTyping\<close> (lines 304--306) that reads the target element.
\<close>

datatype mnode = MElem string "(string \<times> string) list" "mnode list" | MText string

definition panel_markup :: "mnode list" where
  "panel_markup =
     [MElem ''h3'' [(''id'', ''comments-title''), (''class'', ''text-xs uppercase tracking-wider font-semibold mb-2'')]
        [MText ''Comments''],
      MElem ''div'' [(''class'', ''comments-list space-y-2 max-h-72 overflow-auto pr-2''), (''id'', ''comments-list''),
                     (''role'', ''list''), (''aria-labelledby'', ''comments-title'')]
        [MElem ''div'' [(''class'', ''comment empty text-sm text-gray-600''), (''id'', ''comments-empty'')]
           [MText ''No comments yet. Be the first to write one!'']],
      MElem ''form'' [(''class'', ''comment-form mt-4 grid gap-3 sm:grid-cols-[1fr_auto]''), (''id'', ''comment-form''),
                      (''aria-describedby'', ''comments-title'')]
        [MElem ''div'' [(''class'', ''left space-y-2'')]
           [MElem ''label'' [(''class'', ''sr-only''), (''for'', ''comment-name'')] [MText ''Name (optional)''],
            MElem ''input'' [(''type'', ''text''), (''id'', ''comment-name''), (''name'', ''name''),
                             (''placeholder'', ''Your name (optional)''), (''maxlength'', ''60''),
                             (''class'', ''w-full p-2 rounded border bg-gray-50 text-black border-gray-200 placeholder-gray-500'')] [],
            MElem ''label'' [(''class'', ''sr-only''), (''for'', ''comment-body'')] [MText ''Comment''],
            MElem ''textarea'' [(''id'', ''comment-body''), (''name'', ''body''), (''placeholder'', ''Write a comment...''),
                                (''required'', ''''), (''maxlength'', ''2000''), (''aria-required'', ''true''),
                                (''class'', ''w-full p-2 rounded border bg-gray-50 text-black border-gray-200 placeholder-gray-500 min-h-[88px] resize-vertical'')] []],
         MElem ''div'' [(''class'', ''comment-actions flex flex-col gap-2 items-end''), (''aria-hidden'', ''false'')]
           [MElem ''button'' [(''type'', ''submit''), (''id'', ''comment-submit''),
                              (''class'', ''px-3 py-2 rounded bg-white text-black border border-gray-200 hover:bg-gray-100'')]
              [MText ''Post''],
            MElem ''button'' [(''type'', ''button''), (''id'', ''comment-clear''),
                              (''class'', ''px-3 py-2 rounded border border-gray-200 text-gray-700 bg-transparent'')]
              [MText ''Clear all'']]]]"

section \<open>Reading the tree\<close>

text \<open>A node and its descendants in tree order.\<close>

fun mnodes :: "mnode \<Rightarrow> mnode list" where
  "mnodes (MText s) = [MText s]"
| "mnodes (MElem t a cs) = MElem t a cs # concat (map mnodes cs)"

definition m_tag :: "mnode \<Rightarrow> string option" where
  "m_tag n = (case n of MElem t a cs \<Rightarrow> Some t | MText s \<Rightarrow> None)"

definition m_attr :: "mnode \<Rightarrow> string \<Rightarrow> string option" where
  "m_attr n k = (case n of MElem t a cs \<Rightarrow> map_of a k | MText s \<Rightarrow> None)"

definition m_classes :: "mnode \<Rightarrow> string list" where
  "m_classes n = (case m_attr n ''class'' of Some c \<Rightarrow> class_tokens c | None \<Rightarrow> [])"

text \<open>The elements of the panel, the panel itself excluded.\<close>

definition panel_elems :: "mnode list" where
  "panel_elems = filter (\<lambda>n. m_tag n \<noteq> None) (concat (map mnodes panel_markup))"

definition query_id :: "string \<Rightarrow> mnode list \<Rightarrow> mnode option" where
  "query_id i ns = find (\<lambda>n. m_attr n ''id'' = Some i) (concat (map mnodes ns))"

text \<open>An attribute holding a valid non-negative integer, as \<^verbatim>\<open>maxlength\<close> is read.\<close>

definition maxlength_of :: "mnode \<Rightarrow> nat option" where
  "maxlength_of n =
     (case m_attr n ''maxlength'' of
        Some s \<Rightarrow> if s \<noteq> [] \<and> list_all is_digit s then Some (digits_val s) else None
      | None \<Rightarrow> None)"

definition focus_kind :: "mnode \<Rightarrow> tag_kind" where
  "focus_kind n =
     (case n of
        MText s \<Rightarrow> TagOther
      | MElem t a cs \<Rightarrow>
          if t = ''input'' then TagInput
          else if t = ''textarea'' then TagTextarea
          else if map_of a ''contenteditable'' \<in> {Some [], Some ''true''} then TagEditable
          else TagOther)"

section \<open>The script's references into the panel\<close>

definition commentsListEl :: "mnode option" where
  "commentsListEl = query_id ''comments-list'' panel_markup"

definition commentsEmptyEl :: "mnode option" where
  "commentsEmptyEl = query_id ''comments-empty'' panel_markup"

definition form_el :: "mnode option" where
  "form_el = query_id ''comment-form'' panel_markup"

definition inputName :: "mnode option" where
  "inputName = query_id ''comment-name'' panel_markup"

definition inputBody :: "mnode option" where
  "inputBody = query_id ''comment-body'' panel_markup"

definition btnClear :: "mnode option" where
  "btnClear = query_id ''comment-clear'' panel_markup"

section \<open>Lemmas\<close>

lemma panel_elems_plain:
  "\<forall>n \<in> set panel_elems. the (m_tag n) \<notin> {''body'', ''img'', ''picture'', ''video'', ''svg''} \<and>
     set (m_classes n) \<inter> set sheet_classes \<subseteq> {''sr-only''}"
  by (simp add: panel_elems_def panel_markup_def m_tag_def m_classes_def m_attr_def class_tokens_def html_ws_def
      sheet_classes_def theme_css_def)

text \<open>C11. The six lookups of lines 176--181 each find an element, of the kind the
  script then uses it as: two \<^verbatim>\<open>div\<close>s, the \<^verbatim>\<open>form\<close>, the \<^verbatim>\<open>input\<close>, the
  \<^verbatim>\<open>textarea\<close> and the clear \<^verbatim>\<open>button\<close>; the placeholder lies inside the list, and
  no two elements of the panel share an id, so no lookup is \<^verbatim>\<open>null\<close> and none picks a
  namesake.\<close>

theorem panel_queries_found:
  "map_option m_tag commentsListEl = Some (Some ''div'') \<and> map_option m_tag commentsEmptyEl = Some (Some ''div'') \<and>
   map_option m_tag form_el = Some (Some ''form'') \<and> map_option m_tag inputName = Some (Some ''input'') \<and>
   map_option m_tag inputBody = Some (Some ''textarea'') \<and> map_option m_tag btnClear = Some (Some ''button'') \<and>
   (\<exists>l e. commentsListEl = Some l \<and> commentsEmptyEl = Some e \<and> e \<in> set (tl (mnodes l))) \<and>
   distinct (List.map_filter (\<lambda>n. m_attr n ''id'') panel_elems)"
  by (simp add: commentsListEl_def commentsEmptyEl_def form_el_def inputName_def inputBody_def btnClear_def
      query_id_def panel_markup_def panel_elems_def m_tag_def m_attr_def map_filter_def)

text \<open>C14. The theme's stylesheet gives no value to any property of any element of the
  comments panel, in either theme, except the declarations of \<^verbatim>\<open>.sr-only\<close> on the
  two labels, which are the same in both themes: the panel keeps its own light colours
  whether or not the marker class is set.\<close>

theorem panel_unstyled:
  assumes n: "n \<in> set panel_elems"
  shows "css_value rc (the (m_tag n)) (m_classes n) p =
           (if ''sr-only'' \<in> set (m_classes n) then css_value [] ''label'' [''sr-only''] p else None)"
  using panel_elems_plain n css_value_plain [of "the (m_tag n)" "m_classes n" rc p]
  by (simp add: css_label_none)

theorem panel_unstyled_witness:
  "css_value [''bw''] ''label'' [''sr-only''] ''position'' = Some ''absolute'' \<and>
   css_value [''bw''] ''input''
     (m_classes (MElem ''input'' [(''type'', ''text''), (''id'', ''comment-name''), (''name'', ''name''),
                             (''placeholder'', ''Your name (optional)''), (''maxlength'', ''60''),
                             (''class'', ''w-full p-2 rounded border bg-gray-50 text-black border-gray-200 placeholder-gray-500'')] []))
     ''background-color'' = None"
proof -
  let ?l = "MElem ''label'' [(''class'', ''sr-only''), (''for'', ''comment-name'')] [MText ''Name (optional)'']"
  let ?t = "MElem ''input'' [(''type'', ''text''), (''id'', ''comment-name''), (''name'', ''name''),
                             (''placeholder'', ''Your name (optional)''), (''maxlength'', ''60''),
                             (''class'', ''w-full p-2 rounded border bg-gray-50 text-black border-gray-200 placeholder-gray-500'')] []"
  have l: "?l \<in> set panel_elems" and t: "?t \<in> set panel_elems"
    by (simp_all add: panel_elems_def panel_markup_def m_tag_def)
  have ml: "m_tag ?l = Some ''label''" "m_classes ?l = [''sr-only'']"
    by (simp_all add: m_tag_def m_classes_def m_attr_def class_tokens_def html_ws_def)
  have mt: "m_tag ?t = Some ''input''" "''sr-only'' \<notin> set (m_classes ?t)"
    by (simp_all add: m_tag_def m_classes_def m_attr_def class_tokens_def html_ws_def)
  have "css_value [''bw''] ''label'' [''sr-only''] ''position'' = css_value [] ''label'' [''sr-only''] ''position''"
    using panel_unstyled [OF l, of "[''bw'']" "''position''"] ml by simp
  moreover have "css_value [] ''label'' [''sr-only''] ''position'' = Some ''absolute''"
    by (simp add: css_value_def candidates_def Let_def theme_css_def rule_spec_def pick_def)
  ultimately show ?thesis using panel_unstyled [OF t, of "[''bw'']" "''background-color''"] mt by simp
qed

text \<open>C13. The fields the board model types into are those of the markup: the name field
  is an \<^verbatim>\<open>input\<close> and the body field a \<^verbatim>\<open>textarea\<close> (so the key handler treats
  both as typing targets), their \<^verbatim>\<open>maxlength\<close> is the 60 and 2000 code units that
  \<open>type_name\<close> and \<open>type_body\<close> keep, the body is \<^verbatim>\<open>required\<close>, and the clear button
  is of type \<^verbatim>\<open>button\<close>, so clicking it does not submit the form.\<close>

theorem panel_fields:
  "inputName \<noteq> None \<and> inputBody \<noteq> None \<and>
   focus_kind (the inputName) = TagInput \<and> focus_kind (the inputBody) = TagTextarea \<and>
   maxlength_of (the inputName) = Some 60 \<and> maxlength_of (the inputBody) = Some 2000 \<and>
   m_attr (the inputBody) ''required'' \<noteq> None \<and> m_attr (the btnClear) ''type'' = Some ''button'' \<and>
   in_name (type_name s b) = take (the (maxlength_of (the inputName))) s \<and>
   in_body (type_body s b) = take (the (maxlength_of (the inputBody))) s"
proof -
  have n: "inputName = Some (MElem ''input'' [(''type'', ''text''), (''id'', ''comment-name''), (''name'', ''name''),
                             (''placeholder'', ''Your name (optional)''), (''maxlength'', ''60''),
                             (''class'', ''w-full p-2 rounded border bg-gray-50 text-black border-gray-200 placeholder-gray-500'')] [])"
    by (simp add: inputName_def query_id_def panel_markup_def m_attr_def)
  have b: "inputBody = Some (MElem ''textarea'' [(''id'', ''comment-body''), (''name'', ''body''), (''placeholder'', ''Write a comment...''),
                                (''required'', ''''), (''maxlength'', ''2000''), (''aria-required'', ''true''),
                                (''class'', ''w-full p-2 rounded border bg-gray-50 text-black border-gray-200 placeholder-gray-500 min-h-[88px] resize-vertical'')] [])"
    by (simp add: inputBody_def query_id_def panel_markup_def m_attr_def)
  have c: "m_attr (the btnClear) ''type'' = Some ''button''"
    by (simp add: btnClear_def query_id_def panel_markup_def m_attr_def)
  show ?thesis using c
    by (simp add: n b focus_kind_def maxlength_of_def m_attr_def is_digit_def digits_val_def type_name_def type_body_def)
qed

end
