(* ===== verification/Page.thy ===== *)
theory Page
  imports Theme Comments Toolbar Stylesheet Panel
begin

text \<open>
  The whole script of \<^verbatim>\<open>src/index.js\<close> as one state machine. \<open>page\<close> holds the
  document's head and body children, the theme (\<open>theme_dom\<close>), the back-to-top button's
  classes, the comment board, the store, the window's scroll offset with the targets
  passed to \<^verbatim>\<open>window.scrollTo\<close>, and whether the script ran to its end and wired its
  listeners and \<^verbatim>\<open>window.__blogUI\<close>. \<open>startup\<close> is the immediately invoked function
  (lines 7--329) run on the browser's \<open>page_init\<close>: it stops at the first exception, and
  the only statement that can throw is the first \<^verbatim>\<open>renderComments()\<close> (line 209), before
  any listener is attached. \<open>step\<close> applies one event: a user action, a browser action
  (scrolling, focusing, typing) or a call of the API (lines 322--328); \<open>reachable\<close> are
  the pages a load followed by events can produce.
\<close>

record page =
  pg_head :: "dnode list"
  pg_body :: "dnode list"
  pg_theme :: theme_dom
  pg_top :: "string list"
  pg_board :: board
  pg_store :: storage
  pg_scroll :: int
  pg_scroll_req :: "int list"
  pg_wired :: bool

text \<open>What the browser provides when the script runs: the page's own head and body
  children, the classes the markup gives \<^verbatim>\<open><html>\<close>, the store and the scroll offset.\<close>

record page_init =
  pi_head :: "nat list"
  pi_body :: "nat list"
  pi_root :: "string list"
  pi_store :: storage
  pi_scroll :: int

datatype event =
    Submit int
  | ClickClear bool
  | ClickBW
  | ClickTop
  | Scroll int
  | KeyDown string
  | FocusOn focus_el
  | TypeName string
  | TypeBody string
  | ApiSetBW jsval
  | ApiScrollToTop
  | ApiFocusComment

text \<open>How an event ends: normally, with an exception thrown out of a handler or an API
  call, or with the browser leaving the page (a native form submission).\<close>

datatype outcome = Done | Thrown js_error | Navigated

section \<open>Load\<close>

definition initial_board :: "json list \<Rightarrow> board" where
  "initial_board cs =
     \<lparr>comments = cs, view = \<lparr>lv_nodes = [Placeholder], lv_at_bottom = False\<rparr>,
      in_name = [], in_body = [], focus = FocusElsewhere TagOther\<rparr>"

definition initial_theme :: "string list \<Rightarrow> theme_dom" where
  "initial_theme rc =
     \<lparr>root_classes = rc, bw_classes = class_tokens (el_class bwBtn_el),
      bw_pressed = (case get_attr bwBtn_el ''aria-pressed'' of Some v \<Rightarrow> v | None \<Rightarrow> [])\<rparr>"

definition startup :: "date_fmt \<Rightarrow> page_init \<Rightarrow> page \<times> js_error option" where
  "startup fmt pi =
     (let (h, b) = bootstrap_dom (pi_head pi) (pi_body pi);
          d0 = initial_theme (pi_root pi);
          top0 = class_tokens (el_class topBtn_el);
          b0 = initial_board (loadComments (pi_store pi));
          r = renderComments fmt (comments b0) (view b0);
          p0 = \<lparr>pg_head = h, pg_body = b, pg_theme = d0, pg_top = top0, pg_board = b0\<lparr>view := fst r\<rparr>,
                pg_store = pi_store pi, pg_scroll = pi_scroll pi, pg_scroll_req = [], pg_wired = False\<rparr>
      in case snd r of
           Some e \<Rightarrow> (p0, Some e)
         | None \<Rightarrow>
             (let (d1, st1) = loadPref (d0, pi_store pi);
                  d2 = init_btn d1
              in (p0\<lparr>pg_theme := d2, pg_store := st1, pg_top := onScroll (pi_scroll pi) top0,
                     pg_wired := True\<rparr>, None)))"

section \<open>Handlers\<close>

text \<open>The form's submit: the browser's constraint validation of the \<^verbatim>\<open>required\<close>
  textarea blocks an empty body and focuses it; otherwise the listener runs, or, when the
  script never attached it, the form is submitted natively and the page is left.\<close>

definition on_submit :: "date_fmt \<Rightarrow> int \<Rightarrow> page \<Rightarrow> page \<times> outcome" where
  "on_submit fmt now p =
     (let b = pg_board p in
      if in_body b = [] then (p\<lparr>pg_board := b\<lparr>focus := FocusBody\<rparr>\<rparr>, Done)
      else if \<not> pg_wired p then (p, Navigated)
      else (case submit fmt now (b, pg_store p) of
              ((b', st'), e) \<Rightarrow>
                (p\<lparr>pg_board := b', pg_store := st'\<rparr>, case e of None \<Rightarrow> Done | Some x \<Rightarrow> Thrown x)))"

definition on_clear :: "date_fmt \<Rightarrow> bool \<Rightarrow> page \<Rightarrow> page" where
  "on_clear fmt ok p =
     (if \<not> pg_wired p then p
      else (case clear_all fmt ok (pg_board p, pg_store p) of
              ((b', st'), _) \<Rightarrow> p\<lparr>pg_board := b', pg_store := st'\<rparr>))"

definition on_bw :: "page \<Rightarrow> page" where
  "on_bw p =
     (if \<not> pg_wired p then p
      else (case bw_click (pg_theme p, pg_store p) of (d', st') \<Rightarrow> p\<lparr>pg_theme := d', pg_store := st'\<rparr>))"

text \<open>\<^verbatim>\<open>window.scrollTo({ top: 0, behavior: 'smooth' })\<close>: a request to the browser,
  which then scrolls and fires \<^verbatim>\<open>scroll\<close> events (\<open>Scroll\<close>).\<close>

definition scroll_to_top :: "page \<Rightarrow> page" where
  "scroll_to_top p = p\<lparr>pg_scroll_req := pg_scroll_req p @ [0]\<rparr>"

definition on_top :: "page \<Rightarrow> page" where
  "on_top p = (if \<not> pg_wired p then p else scroll_to_top p)"

definition on_scroll :: "int \<Rightarrow> page \<Rightarrow> page" where
  "on_scroll y p =
     (let p' = p\<lparr>pg_scroll := y\<rparr> in if \<not> pg_wired p then p' else p'\<lparr>pg_top := onScroll y (pg_top p)\<rparr>)"

definition focus_body :: "page \<Rightarrow> page" where
  "focus_body p = p\<lparr>pg_board := (pg_board p)\<lparr>focus := FocusBody\<rparr>\<rparr>"

text \<open>The key handler's \<^verbatim>\<open>isTyping\<close>: the event's target is the focused element; the
  name field is an \<^verbatim>\<open>INPUT\<close>, the body field a \<^verbatim>\<open>TEXTAREA\<close>.\<close>

fun is_typing :: "focus_el \<Rightarrow> bool" where
  "is_typing FocusName = True"
| "is_typing FocusBody = True"
| "is_typing (FocusElsewhere TagInput) = True"
| "is_typing (FocusElsewhere TagTextarea) = True"
| "is_typing (FocusElsewhere TagEditable) = True"
| "is_typing (FocusElsewhere TagOther) = False"

definition on_key :: "string \<Rightarrow> page \<Rightarrow> page" where
  "on_key k p =
     (if \<not> pg_wired p \<or> is_typing (focus (pg_board p)) then p
      else if k = ''b'' \<or> k = ''B'' then on_bw p
      else if k = ''t'' \<or> k = ''T'' then on_top p
      else if k = ''c'' \<or> k = ''C'' then focus_body p
      else p)"

text \<open>A call through \<^verbatim>\<open>window.__blogUI\<close>, which is \<^verbatim>\<open>undefined\<close> (so the call throws a
  \<^verbatim>\<open>TypeError\<close>) when the script stopped before line 322.\<close>

definition api_call :: "(page \<Rightarrow> page) \<Rightarrow> page \<Rightarrow> page \<times> outcome" where
  "api_call f p = (if \<not> pg_wired p then (p, Thrown TypeError) else (f p, Done))"

definition api_setBW :: "jsval \<Rightarrow> page \<Rightarrow> page" where
  "api_setBW v p = (case applyBW (js_truthy v) True (pg_theme p, pg_store p) of (d', st') \<Rightarrow> p\<lparr>pg_theme := d', pg_store := st'\<rparr>)"

definition api_isBW :: "page \<Rightarrow> js_error + bool" where
  "api_isBW p = (if \<not> pg_wired p then Inl TypeError else Inr (isBW (pg_theme p)))"

definition api_getComments :: "page \<Rightarrow> js_error + json list" where
  "api_getComments p = (if \<not> pg_wired p then Inl TypeError else Inr (loadComments (pg_store p)))"

section \<open>Events\<close>

fun step :: "date_fmt \<Rightarrow> event \<Rightarrow> page \<Rightarrow> page \<times> outcome" where
  "step fmt (Submit now) p = on_submit fmt now p"
| "step fmt (ClickClear ok) p = (on_clear fmt ok p, Done)"
| "step fmt ClickBW p = (on_bw p, Done)"
| "step fmt ClickTop p = (on_top p, Done)"
| "step fmt (Scroll y) p = (on_scroll y p, Done)"
| "step fmt (KeyDown k) p = (on_key k p, Done)"
| "step fmt (FocusOn f) p = (p\<lparr>pg_board := (pg_board p)\<lparr>focus := f\<rparr>\<rparr>, Done)"
| "step fmt (TypeName s) p = (p\<lparr>pg_board := type_name s (pg_board p)\<rparr>, Done)"
| "step fmt (TypeBody s) p = (p\<lparr>pg_board := type_body s (pg_board p)\<rparr>, Done)"
| "step fmt (ApiSetBW v) p = api_call (api_setBW v) p"
| "step fmt ApiScrollToTop p = api_call scroll_to_top p"
| "step fmt ApiFocusComment p = api_call focus_body p"

inductive reachable :: "date_fmt \<Rightarrow> page_init \<Rightarrow> page \<Rightarrow> bool" for fmt pi where
  start: "reachable fmt pi (fst (startup fmt pi))"
| step: "reachable fmt pi p \<Longrightarrow> reachable fmt pi (fst (step fmt ev p))"

declare on_submit_def [handler_defs] on_clear_def [handler_defs] on_bw_def [handler_defs]
  on_top_def [handler_defs] on_scroll_def [handler_defs] on_key_def [handler_defs]
  api_call_def [handler_defs] api_setBW_def [handler_defs] focus_body_def [handler_defs]
  scroll_to_top_def [handler_defs]

section \<open>Invariants and fixtures\<close>

text \<open>The rendered list a comment list should give, the invariant of a started page, and
  the agreement of the stored comment list with the in-memory one.\<close>

definition rendered :: "date_fmt \<Rightarrow> json list \<Rightarrow> view_node list" where
  "rendered fmt cs = (if cs = [] then [Placeholder] else map (item_of fmt) cs)"

definition page_inv :: "date_fmt \<Rightarrow> page \<Rightarrow> bool" where
  "page_inv fmt p \<longleftrightarrow>
     (pg_wired p \<longrightarrow>
        theme_inv (pg_theme p) \<and>
        (''hidden'' \<in> set (pg_top p) \<longleftrightarrow> pg_scroll p \<le> 300) \<and>
        list_all item_ok (comments (pg_board p)) \<and>
        list_all json_wf (comments (pg_board p)) \<and>
        lv_nodes (view (pg_board p)) = rendered fmt (comments (pg_board p)))"

definition comments_sync :: "page \<Rightarrow> bool" where
  "comments_sync p \<longleftrightarrow> loadComments (pg_store p) = comments (pg_board p)"

text \<open>The shape of a page's data: fields within their \<^verbatim>\<open>maxlength\<close>, and every
  comment either loaded or of the specification's record shape.\<close>

definition page_typed :: "page_init \<Rightarrow> page \<Rightarrow> bool" where
  "page_typed pi p \<longleftrightarrow>
     length (in_name (pg_board p)) \<le> 60 \<and> length (in_body (pg_board p)) \<le> 2000 \<and>
     (\<forall>c \<in> set (comments (pg_board p)). c \<in> set (loadComments (pi_store pi)) \<or> comment_record_ok c)"

text \<open>Of the theme button's classes, the stylesheet names at most its two state classes.\<close>

definition btn_styled :: "theme_dom \<Rightarrow> bool" where
  "btn_styled d \<longleftrightarrow> set (bw_classes d) \<inter> set sheet_classes \<subseteq> {''bw-toggle-btn-on'', ''bw-toggle-btn-off''}"

text \<open>Pages for the witnesses: a fresh load on an empty store, and a load whose store
  holds the array \<^verbatim>\<open>[null]\<close>, a disabled theme preference and a page marked \<^verbatim>\<open>bw\<close>.\<close>

definition pi_example :: page_init where
  "pi_example = \<lparr>pi_head = [0], pi_body = [1, 2], pi_root = [], pi_store = store_example, pi_scroll = 0\<rparr>"

definition pi_null :: page_init where
  "pi_null = pi_example\<lparr>pi_root := [''bw''],
     pi_store := store_example\<lparr>ls_items := [(COMMENTS_KEY, ''[null]''), (LS_KEY, ''0'')]\<rparr>\<rparr>"

text \<open>A load whose store holds \<^verbatim>\<open>[{"name":{"toString":0}}]\<close>: a comment whose name is an
  object with an own \<^verbatim>\<open>toString\<close> key.\<close>

definition pi_tostr :: page_init where
  "pi_tostr = pi_example\<lparr>pi_store := store_example\<lparr>ls_items :=
     [(COMMENTS_KEY, json_print (JArr [JObj [(''name'', JObj [(''toString'', JNum 0)])]]))]\<rparr>\<rparr>"

definition page_example :: page where
  "page_example = fst (startup fmt_example pi_example)"

section \<open>Lemmas\<close>

lemma snd_loadPref [simp]: "snd (loadPref s) = snd s"
  by (simp add: loadPref_cases)

lemma theme_inv_loadPref: "theme_inv (fst (loadPref s))"
  by (simp add: loadPref_cases theme_inv_applyBW)

lemma startup_wired:
  "pg_wired (fst (startup fmt pi)) \<longleftrightarrow> list_all item_ok (loadComments (pi_store pi))"
  "snd (startup fmt pi) = None \<longleftrightarrow> list_all item_ok (loadComments (pi_store pi))"
  using renderComments_error_iff [of fmt "loadComments (pi_store pi)" "\<lparr>lv_nodes = [Placeholder], lv_at_bottom = False\<rparr>"]
  by (auto simp: startup_def Let_def initial_board_def split_def split: option.splits)

lemma startup_fields:
  "pg_board (fst (startup fmt pi)) =
     (initial_board (loadComments (pi_store pi)))\<lparr>view :=
        fst (renderComments fmt (loadComments (pi_store pi)) \<lparr>lv_nodes = [Placeholder], lv_at_bottom = False\<rparr>)\<rparr>"
  "pg_store (fst (startup fmt pi)) = pi_store pi"
  "pg_scroll (fst (startup fmt pi)) = pi_scroll pi"
  "pg_scroll_req (fst (startup fmt pi)) = []"
  by (auto simp: startup_def Let_def initial_board_def split_def split: option.splits)

lemma startup_wired_fields:
  "list_all item_ok (loadComments (pi_store pi)) \<Longrightarrow>
   pg_theme (fst (startup fmt pi)) = init_btn (fst (loadPref (initial_theme (pi_root pi), pi_store pi))) \<and>
   pg_top (fst (startup fmt pi)) = onScroll (pi_scroll pi) (class_tokens (el_class topBtn_el))"
  using renderComments_error_iff [of fmt "loadComments (pi_store pi)" "\<lparr>lv_nodes = [Placeholder], lv_at_bottom = False\<rparr>"]
  by (auto simp: startup_def Let_def initial_board_def split_def split: option.splits)

lemma startup_unwired_fields:
  "\<not> list_all item_ok (loadComments (pi_store pi)) \<Longrightarrow>
   pg_theme (fst (startup fmt pi)) = initial_theme (pi_root pi)"
  using renderComments_error_iff [of fmt "loadComments (pi_store pi)" "\<lparr>lv_nodes = [Placeholder], lv_at_bottom = False\<rparr>"]
  by (auto simp: startup_def Let_def initial_board_def split_def split: option.splits)

lemma renderComments_rendered:
  "list_all item_ok cs \<Longrightarrow> lv_nodes (fst (renderComments fmt cs lv)) = rendered fmt cs"
  by (cases "cs = []") (simp_all add: rendered_def renderComments_ok)

lemma page_example_wired: "pg_wired page_example"
  by (simp add: page_example_def startup_wired pi_example_def loadComments_def getItem_def store_example_def)

lemma page_example_focus: "focus (pg_board page_example) = FocusElsewhere TagOther"
  by (simp add: page_example_def startup_fields initial_board_def)

lemma startup_inv: "page_inv fmt (fst (startup fmt pi))"
proof (cases "list_all item_ok (loadComments (pi_store pi))")
  case False
  then show ?thesis by (simp add: page_inv_def startup_wired)
next
  case True
  then show ?thesis
    using startup_wired_fields [OF True, of fmt] theme_inv_loadPref
      renderComments_rendered [OF True] loadComments_wf
    by (simp add: page_inv_def startup_wired startup_fields init_btn_inv initial_board_def)
qed

lemma wired_step [simp]: "pg_wired (fst (step fmt ev p)) = pg_wired p"
  by (cases ev) (simp_all add: handler_defs Let_def case_prod_unfold)

lemma inv_focus [simp]: "page_inv fmt (p\<lparr>pg_board := (pg_board p)\<lparr>focus := f\<rparr>\<rparr>) = page_inv fmt p"
  by (simp add: page_inv_def)

lemma inv_scroll_to_top [simp]: "page_inv fmt (scroll_to_top p) = page_inv fmt p"
  by (simp add: scroll_to_top_def page_inv_def)

lemma inv_focus_body [simp]: "page_inv fmt (focus_body p) = page_inv fmt p"
  by (simp add: focus_body_def)

lemma inv_type [simp]:
  "page_inv fmt (p\<lparr>pg_board := type_name s (pg_board p)\<rparr>) = page_inv fmt p"
  "page_inv fmt (p\<lparr>pg_board := type_body s (pg_board p)\<rparr>) = page_inv fmt p"
  by (simp_all add: page_inv_def type_name_def type_body_def)

lemma submit_short:
  "length (js_trim (in_body b)) < 2 \<Longrightarrow> submit fmt now (b, st) = ((b\<lparr>focus := FocusBody\<rparr>, st), None)"
  by (simp add: submit_def Let_def)

lemma on_submit_inv:
  assumes inv: "page_inv fmt p"
  shows "page_inv fmt (fst (on_submit fmt now p)) \<and> (pg_wired p \<longrightarrow> snd (on_submit fmt now p) = Done)"
proof -
  let ?b = "pg_board p"
  consider (empty) "in_body ?b = []" | (dead) "in_body ?b \<noteq> []" "\<not> pg_wired p"
    | (short) "in_body ?b \<noteq> []" "pg_wired p" "length (js_trim (in_body ?b)) < 2"
    | (ok) "in_body ?b \<noteq> []" "pg_wired p" "2 \<le> length (js_trim (in_body ?b))"
    by linarith
  then show ?thesis
  proof cases
    case empty
    then show ?thesis using inv by (simp add: on_submit_def)
  next
    case dead
    then show ?thesis using inv by (simp add: on_submit_def)
  next
    case short
    then show ?thesis using inv submit_short [OF short(3)] by (simp add: on_submit_def)
  next
    case ok
    have nn: "list_all item_ok (comments ?b)" and wf: "list_all json_wf (comments ?b)"
      using inv ok by (simp_all add: page_inv_def)
    let ?cs = "slice_last 200 (comments ?b @ [comment_entry (js_trim (in_name ?b)) (js_trim (in_body ?b)) now])"
    have "?cs \<noteq> []" by (simp add: slice_last_def)
    moreover have "list_all item_ok ?cs" using nn by simp
    moreover have "list_all json_wf ?cs" using wf by simp
    ultimately show ?thesis
      using submit_valid [OF ok(3) nn, of fmt now "pg_store p"] inv ok
      by (simp add: on_submit_def page_inv_def rendered_def Let_def)
  qed
qed

lemma on_clear_inv: "page_inv fmt p \<Longrightarrow> page_inv fmt (on_clear fmt ok p)"
  by (auto simp: on_clear_def clear_all_def page_inv_def rendered_def Let_def)

lemma on_bw_inv: "page_inv fmt p \<Longrightarrow> page_inv fmt (on_bw p)"
  using theme_inv_bw_click [of "(pg_theme p, pg_store p)"]
  by (auto simp: on_bw_def page_inv_def split: prod.split)

lemma on_top_inv: "page_inv fmt p \<Longrightarrow> page_inv fmt (on_top p)"
  by (simp add: on_top_def)

lemma on_scroll_inv: "page_inv fmt p \<Longrightarrow> page_inv fmt (on_scroll y p)"
  by (simp add: on_scroll_def page_inv_def Let_def)

lemma on_key_inv: "page_inv fmt p \<Longrightarrow> page_inv fmt (on_key k p)"
  by (simp add: on_key_def on_bw_inv on_top_inv)

lemma api_setBW_inv: "page_inv fmt p \<Longrightarrow> page_inv fmt (api_setBW v p)"
  using theme_inv_applyBW [of "js_truthy v" True "(pg_theme p, pg_store p)"]
  by (auto simp: api_setBW_def page_inv_def split: prod.split)

lemma step_inv:
  assumes inv: "page_inv fmt p"
  shows "page_inv fmt (fst (step fmt ev p)) \<and> (pg_wired p \<longrightarrow> snd (step fmt ev p) = Done)"
proof (cases ev)
  case (Submit now)
  then show ?thesis using on_submit_inv [OF inv] by simp
qed (use inv in \<open>simp_all add: on_clear_inv on_bw_inv on_top_inv on_scroll_inv on_key_inv api_setBW_inv
       api_call_def\<close>)

lemma unwired_step:
  "\<not> pg_wired p \<Longrightarrow>
   pg_theme (fst (step fmt ev p)) = pg_theme p \<and> pg_store (fst (step fmt ev p)) = pg_store p \<and>
   comments (pg_board (fst (step fmt ev p))) = comments (pg_board p)"
  by (cases ev) (simp_all add: handler_defs Let_def type_name_def type_body_def)

lemma length_step:
  "length (comments (pg_board (fst (step fmt ev p)))) \<le> max 200 (length (comments (pg_board p)))"
proof (cases ev)
  case (Submit now)
  then show ?thesis
    by (auto simp: on_submit_def submit_def clear_all_def Let_def case_prod_unfold split: option.split)
next
  case (ClickClear ok)
  then show ?thesis by (auto simp: on_clear_def clear_all_def Let_def case_prod_unfold)
qed (simp_all add: handler_defs Let_def type_name_def type_body_def case_prod_unfold)

lemma reachable_inv: "reachable fmt pi p \<Longrightarrow> page_inv fmt p"
proof (induction rule: reachable.induct)
  case start
  show ?case by (rule startup_inv)
next
  case (step p ev)
  then show ?case using step_inv by blast
qed

text \<open>C2. In every page a load followed by events produces, once the script has run
  to its end: the theme button agrees with the marker class, the back-to-top button is
  hidden exactly when the offset is at most 300, every comment of the list renders (none
  is \<^verbatim>\<open>null\<close>, none has a name, time or body that fails to convert) and is a value
  \<^verbatim>\<open>JSON.parse\<close> can return, and the rendered list shows exactly the list: the
  placeholder alone when it is empty, one item per comment in order otherwise.\<close>

theorem reachable_page_inv: "reachable fmt pi p \<Longrightarrow> page_inv fmt p"
  by (rule reachable_inv)

theorem reachable_page_inv_witness:
  "reachable fmt_example pi_example (fst (startup fmt_example pi_example)) \<and>
   pg_wired (fst (startup fmt_example pi_example)) \<and>
   page_inv fmt_example (fst (startup fmt_example pi_example))"
proof -
  have r: "reachable fmt_example pi_example (fst (startup fmt_example pi_example))" by (rule reachable.start)
  have "pg_wired (fst (startup fmt_example pi_example))"
    by (simp add: startup_wired pi_example_def loadComments_def getItem_def store_example_def)
  then show ?thesis using r reachable_page_inv [OF r] by simp
qed

text \<open>C3. Once the script has run to its end, no event makes a handler or an API call
  throw, and none leaves the page: every event ends normally.\<close>

theorem reachable_no_exception:
  "reachable fmt pi p \<Longrightarrow> pg_wired p \<Longrightarrow> snd (step fmt ev p) = Done"
  using step_inv [OF reachable_inv] by blast

theorem reachable_no_exception_witness:
  "reachable fmt_example pi_example page_example \<and> pg_wired page_example \<and>
   snd (step fmt_example (Submit 1) page_example) = Done"
proof -
  have r: "reachable fmt_example pi_example page_example"
    unfolding page_example_def by (rule reachable.start)
  show ?thesis using r page_example_wired reachable_no_exception [OF r page_example_wired] by blast
qed

lemma startup_error:
  "\<not> list_all item_ok (loadComments (pi_store pi)) \<Longrightarrow> snd (startup fmt pi) = Some TypeError"
proof -
  let ?cs = "loadComments (pi_store pi)"
  assume n: "\<not> list_all item_ok ?cs"
  then have "snd (render_items fmt ?cs) = Some TypeError" by (rule render_items_err)
  moreover have "?cs \<noteq> []" using n by auto
  ultimately show ?thesis
    by (auto simp: startup_def Let_def initial_board_def renderComments_def split_def split: prod.split)
qed

lemma reachable_dead:
  "reachable fmt pi p \<Longrightarrow> \<not> list_all item_ok (loadComments (pi_store pi)) \<Longrightarrow>
   \<not> pg_wired p \<and> pg_theme p = initial_theme (pi_root pi) \<and> pg_store p = pi_store pi \<and>
   comments (pg_board p) = loadComments (pi_store pi)"
proof (induction rule: reachable.induct)
  case start
  then show ?case by (simp add: startup_wired startup_unwired_fields startup_fields initial_board_def)
next
  case (step p ev)
  then show ?case using unwired_step [of p fmt ev] by simp
qed


lemma loadComments_pi_null: "loadComments (pi_store pi_null) = [JNull]"
proof -
  have "getItem (pi_store pi_null) COMMENTS_KEY = Inr (Some (json_print (JArr [JNull])))"
    by (simp add: pi_null_def pi_example_def store_example_def getItem_def COMMENTS_KEY_def)
  then show ?thesis by (rule loadComments_saved) simp
qed


text \<open>C10. Not only \<^verbatim>\<open>null\<close>: any stored comment that does not render (a truthy name,
  a time or a body that \<^verbatim>\<open>String\<close> or \<^verbatim>\<open>new Date\<close> cannot convert, such as an object
  with an own \<^verbatim>\<open>toString\<close> key) makes the first \<^verbatim>\<open>renderComments()\<close> throw a
  \<^verbatim>\<open>TypeError\<close>, and the page is dead: no listener or API, the stored theme never
  applied, theme, store and list frozen under every event.\<close>

theorem startup_unrenderable_dead:
  "\<not> list_all item_ok (loadComments (pi_store pi)) \<Longrightarrow> reachable fmt pi p \<Longrightarrow>
   snd (startup fmt pi) = Some TypeError \<and> \<not> pg_wired p \<and> pg_theme p = initial_theme (pi_root pi) \<and>
   pg_store p = pi_store pi \<and> comments (pg_board p) = loadComments (pi_store pi)"
proof -
  assume d: "\<not> list_all item_ok (loadComments (pi_store pi))" and r: "reachable fmt pi p"
  show ?thesis using startup_error [OF d, of fmt] reachable_dead [OF r d] by blast
qed

lemma loadComments_pi_tostr: "loadComments (pi_store pi_tostr) = [JObj [(''name'', JObj [(''toString'', JNum 0)])]]"
  by (rule loadComments_saved) (simp_all add: pi_tostr_def store_example_def getItem_def)

theorem startup_unrenderable_dead_witness:
  "\<not> list_all item_ok (loadComments (pi_store pi_tostr)) \<and>
   reachable fmt_example pi_tostr (fst (step fmt_example ClickBW (fst (startup fmt_example pi_tostr)))) \<and>
   snd (startup fmt_example pi_tostr) = Some TypeError \<and>
   \<not> pg_wired (fst (step fmt_example ClickBW (fst (startup fmt_example pi_tostr))))"
proof -
  have d: "\<not> list_all item_ok (loadComments (pi_store pi_tostr))"
    by (simp add: loadComments_pi_tostr item_ok_def)
  have r: "reachable fmt_example pi_tostr (fst (step fmt_example ClickBW (fst (startup fmt_example pi_tostr))))"
    by (intro reachable.step reachable.start)
  show ?thesis using d r startup_unrenderable_dead [OF d r] by blast
qed

lemma reachable_length:
  "reachable fmt pi p \<Longrightarrow> length (comments (pg_board p)) \<le> max 200 (length (loadComments (pi_store pi)))"
proof (induction rule: reachable.induct)
  case start
  then show ?case by (simp add: startup_fields initial_board_def)
next
  case (step p ev)
  then show ?case using length_step [of fmt ev p] by linarith
qed

text \<open>C17. The list never grows past 200 entries or past the length of the stored
  array it was loaded from, whichever is larger: a submission keeps the last 200, but a
  longer stored array is kept whole.\<close>

theorem comments_bound:
  "reachable fmt pi p \<Longrightarrow> length (comments (pg_board p)) \<le> max 200 (length (loadComments (pi_store pi)))"
  by (rule reachable_length)

theorem comments_bound_witness:
  "reachable fmt_example pi_example (fst (step fmt_example (Submit 1) (fst (startup fmt_example pi_example)))) \<and>
   length (comments (pg_board (fst (step fmt_example (Submit 1) (fst (startup fmt_example pi_example)))))) \<le> 200"
proof -
  have r: "reachable fmt_example pi_example (fst (step fmt_example (Submit 1) (fst (startup fmt_example pi_example))))"
    by (intro reachable.step reachable.start)
  have "loadComments (pi_store pi_example) = []"
    by (simp add: pi_example_def loadComments_def getItem_def store_example_def)
  then show ?thesis using r comments_bound [OF r] by simp
qed

lemma sync_store_pref [simp]: "comments_sync (p\<lparr>pg_theme := d, pg_store := store_pref b (pg_store p)\<rparr>) = comments_sync p"
  by (simp add: comments_sync_def)

lemma on_submit_sync:
  assumes inv: "page_inv fmt p" and sy: "comments_sync p"
    and cs: "can_store (pg_store p) COMMENTS_KEY (json_print (JArr (comments (pg_board (fst (on_submit fmt now p))))))"
  shows "comments_sync (fst (on_submit fmt now p))"
proof -
  let ?b = "pg_board p"
  consider (empty) "in_body ?b = []" | (dead) "in_body ?b \<noteq> []" "\<not> pg_wired p"
    | (short) "in_body ?b \<noteq> []" "pg_wired p" "length (js_trim (in_body ?b)) < 2"
    | (ok) "in_body ?b \<noteq> []" "pg_wired p" "2 \<le> length (js_trim (in_body ?b))"
    by linarith
  then show ?thesis
  proof cases
    case empty
    then show ?thesis using sy by (simp add: on_submit_def comments_sync_def)
  next
    case dead
    then show ?thesis using sy by (simp add: on_submit_def)
  next
    case short
    then show ?thesis using sy submit_short [OF short(3)] by (simp add: on_submit_def comments_sync_def)
  next
    case ok
    have nn: "list_all item_ok (comments ?b)" and wf: "list_all json_wf (comments ?b)"
      using inv ok by (simp_all add: page_inv_def)
    let ?cs = "slice_last 200 (comments ?b @ [comment_entry (js_trim (in_name ?b)) (js_trim (in_body ?b)) now])"
    have r: "fst (on_submit fmt now p) =
      p\<lparr>pg_board := ?b\<lparr>comments := ?cs, view := (view ?b)\<lparr>lv_nodes := map (item_of fmt) ?cs, lv_at_bottom := True\<rparr>,
            in_name := [], in_body := [], focus := FocusBody\<rparr>, pg_store := saveComments ?cs (pg_store p)\<rparr>"
      using submit_valid [OF ok(3) nn, of fmt now "pg_store p"] ok by (simp add: on_submit_def Let_def)
    have "list_all json_wf ?cs" using wf by simp
    then show ?thesis using cs load_after_save r by (simp add: comments_sync_def)
  qed
qed

lemma on_clear_sync:
  "comments_sync p \<Longrightarrow> can_store (pg_store p) COMMENTS_KEY (json_print (JArr (comments (pg_board (on_clear fmt ok p))))) \<Longrightarrow>
   comments_sync (on_clear fmt ok p)"
  by (auto simp: on_clear_def clear_all_def comments_sync_def Let_def load_after_save)

lemma step_sync:
  assumes inv: "page_inv fmt p" and sy: "comments_sync p"
    and cs: "can_store (pg_store p) COMMENTS_KEY (json_print (JArr (comments (pg_board (fst (step fmt ev p))))))"
  shows "comments_sync (fst (step fmt ev p))"
proof (cases ev)
  case (Submit now)
  then show ?thesis using on_submit_sync [OF inv sy] cs by simp
next
  case (ClickClear ok)
  then show ?thesis using on_clear_sync [OF sy] cs by simp
qed (use sy in \<open>auto simp: handler_defs comments_sync_def Let_def case_prod_unfold type_name_def type_body_def
                    snd_applyBW bw_click_applyBW\<close>)

lemma startup_sync: "comments_sync (fst (startup fmt pi))"
  by (simp add: comments_sync_def startup_fields initial_board_def)

text \<open>C18. The stored list and the in-memory list agree after the load, and every
  event keeps them agreeing as long as the store accepts the list the event leaves:
  \<^verbatim>\<open>__blogUI.getComments()\<close>, which re-reads the store, then returns what the page
  shows.\<close>

theorem comments_sync_step:
  "reachable fmt pi p \<Longrightarrow> comments_sync p \<Longrightarrow>
   can_store (pg_store p) COMMENTS_KEY (json_print (JArr (comments (pg_board (fst (step fmt ev p)))))) \<Longrightarrow>
   comments_sync (fst (step fmt ev p)) \<and>
   api_getComments (fst (step fmt ev p)) =
     (if pg_wired p then Inr (comments (pg_board (fst (step fmt ev p)))) else Inl TypeError)"
proof -
  assume r: "reachable fmt pi p" and sy: "comments_sync p"
    and cs: "can_store (pg_store p) COMMENTS_KEY (json_print (JArr (comments (pg_board (fst (step fmt ev p))))))"
  have "comments_sync (fst (step fmt ev p))" using step_sync [OF reachable_inv [OF r] sy cs] .
  then show ?thesis by (simp add: comments_sync_def api_getComments_def)
qed

theorem comments_sync_step_witness:
  "reachable fmt_example pi_example (fst (startup fmt_example pi_example)) \<and>
   comments_sync (fst (startup fmt_example pi_example)) \<and>
   can_store (pg_store (fst (startup fmt_example pi_example))) COMMENTS_KEY
     (json_print (JArr (comments (pg_board (fst (step fmt_example ClickBW (fst (startup fmt_example pi_example)))))))) \<and>
   comments_sync (fst (step fmt_example ClickBW (fst (startup fmt_example pi_example))))"
proof -
  let ?p = "fst (startup fmt_example pi_example)"
  have r: "reachable fmt_example pi_example ?p" by (rule reachable.start)
  have sy: "comments_sync ?p" by (rule startup_sync)
  have l: "loadComments (pi_store pi_example) = []"
    by (simp add: pi_example_def loadComments_def getItem_def store_example_def)
  have w: "pg_wired ?p" by (simp add: startup_wired l)
  have "comments (pg_board (fst (step fmt_example ClickBW ?p))) = []"
    using w by (simp add: on_bw_def startup_fields initial_board_def l case_prod_unfold)
  moreover have "pg_store ?p = store_example" by (simp add: startup_fields pi_example_def)
  moreover have "can_store store_example COMMENTS_KEY (json_print (JArr []))"
    by (simp add: store_example_def can_store_def ls_size_def COMMENTS_KEY_def)
  ultimately have cs: "can_store (pg_store ?p) COMMENTS_KEY
     (json_print (JArr (comments (pg_board (fst (step fmt_example ClickBW ?p))))))" by simp
  show ?thesis using r sy cs comments_sync_step [OF r sy cs] by simp
qed

text \<open>C30. Outside a text field, \<^verbatim>\<open>b\<close>/\<^verbatim>\<open>B\<close> is a click on the theme button,
  \<^verbatim>\<open>t\<close>/\<^verbatim>\<open>T\<close> a click on the back-to-top button and \<^verbatim>\<open>c\<close>/\<^verbatim>\<open>C\<close> focuses the
  comment field as \<^verbatim>\<open>__blogUI.focusComment()\<close> does; any other key does nothing.\<close>

theorem key_shortcuts:
  "pg_wired p \<Longrightarrow> \<not> is_typing (focus (pg_board p)) \<Longrightarrow>
   step fmt (KeyDown ''b'') p = step fmt ClickBW p \<and> step fmt (KeyDown ''B'') p = step fmt ClickBW p \<and>
   step fmt (KeyDown ''t'') p = step fmt ClickTop p \<and> step fmt (KeyDown ''T'') p = step fmt ClickTop p \<and>
   step fmt (KeyDown ''c'') p = step fmt ApiFocusComment p \<and> step fmt (KeyDown ''C'') p = step fmt ApiFocusComment p \<and>
   (k \<notin> {''b'', ''B'', ''t'', ''T'', ''c'', ''C''} \<longrightarrow> step fmt (KeyDown k) p = (p, Done))"
  by (simp add: on_key_def api_call_def)

text \<open>C31. While the focus is in a text input, a textarea or an editable element
  (the comment fields included), no key does anything.\<close>

theorem keys_suppressed_typing:
  "is_typing (focus (pg_board p)) \<Longrightarrow> step fmt (KeyDown k) p = (p, Done)"
  by (simp add: on_key_def)

theorem key_shortcuts_witness:
  "pg_wired page_example \<and> \<not> is_typing (focus (pg_board page_example)) \<and>
   step fmt_example (KeyDown ''B'') page_example = step fmt_example ClickBW page_example \<and>
   step fmt_example (KeyDown ''x'') page_example = (page_example, Done)"
  using key_shortcuts [OF page_example_wired, of fmt_example "''x''"] page_example_wired page_example_focus
  by simp

theorem keys_suppressed_typing_witness:
  "is_typing (focus (pg_board (page_example\<lparr>pg_board := (pg_board page_example)\<lparr>focus := FocusName\<rparr>\<rparr>))) \<and>
   step fmt_example (KeyDown ''b'') (page_example\<lparr>pg_board := (pg_board page_example)\<lparr>focus := FocusName\<rparr>\<rparr>) =
     (page_example\<lparr>pg_board := (pg_board page_example)\<lparr>focus := FocusName\<rparr>\<rparr>, Done)"
proof -
  let ?p = "page_example\<lparr>pg_board := (pg_board page_example)\<lparr>focus := FocusName\<rparr>\<rparr>"
  have h: "is_typing (focus (pg_board ?p))" by simp
  show ?thesis using h keys_suppressed_typing [OF h, of fmt_example "''b''"] by simp
qed

text \<open>C32. \<^verbatim>\<open>__blogUI.setBW(v)\<close> sets the theme to \<^verbatim>\<open>Boolean(v)\<close>, which
  \<^verbatim>\<open>__blogUI.isBW()\<close> then reports; when the script stopped before installing the API,
  both calls throw a \<^verbatim>\<open>TypeError\<close> and change nothing.\<close>

theorem api_setBW_isBW:
  "api_isBW (fst (step fmt (ApiSetBW v) p)) = (if pg_wired p then Inr (js_truthy v) else Inl TypeError) \<and>
   snd (step fmt (ApiSetBW v) p) = (if pg_wired p then Done else Thrown TypeError) \<and>
   (\<not> pg_wired p \<longrightarrow> fst (step fmt (ApiSetBW v) p) = p)"
  by (simp add: api_call_def api_isBW_def api_setBW_def case_prod_unfold)

theorem api_setBW_isBW_witness:
  "api_isBW (fst (step fmt_example (ApiSetBW (Val (JStr ''on''))) page_example)) = Inr True \<and>
   \<not> pg_wired (fst (startup fmt_example pi_null)) \<and>
   fst (step fmt_example (ApiSetBW Undef) (fst (startup fmt_example pi_null))) = fst (startup fmt_example pi_null)"
proof -
  have d: "\<not> pg_wired (fst (startup fmt_example pi_null))"
    by (simp add: startup_wired loadComments_pi_null)
  show ?thesis
    using d page_example_wired api_setBW_isBW [of fmt_example "Val (JStr ''on'')" page_example]
      api_setBW_isBW [of fmt_example Undef "fst (startup fmt_example pi_null)"]
    by simp
qed

text \<open>C33. Loaded on a store holding neither key, the script runs to its end with
  the light theme off, the placeholder as the only entry of the list, the back-to-top
  button hidden up to 300 pixels, and without writing the store.\<close>

theorem startup_fresh:
  "getItem (pi_store pi) LS_KEY = Inr None \<Longrightarrow> getItem (pi_store pi) COMMENTS_KEY = Inr None \<Longrightarrow>
   pg_wired (fst (startup fmt pi)) \<and> \<not> isBW (pg_theme (fst (startup fmt pi))) \<and>
   lv_nodes (view (pg_board (fst (startup fmt pi)))) = [Placeholder] \<and>
   (''hidden'' \<in> set (pg_top (fst (startup fmt pi))) \<longleftrightarrow> pi_scroll pi \<le> 300) \<and>
   pg_store (fst (startup fmt pi)) = pi_store pi"
proof -
  assume t: "getItem (pi_store pi) LS_KEY = Inr None" and c: "getItem (pi_store pi) COMMENTS_KEY = Inr None"
  then have l: "loadComments (pi_store pi) = []" by (simp add: loadComments_def)
  have "init_btn (fst (loadPref (initial_theme (pi_root pi), pi_store pi))) =
        fst (loadPref (initial_theme (pi_root pi), pi_store pi))"
    by (rule init_btn_inv [OF theme_inv_loadPref])
  then have "\<not> isBW (init_btn (fst (loadPref (initial_theme (pi_root pi), pi_store pi))))"
    using t by (simp add: loadPref_cases)
  then show ?thesis
    using startup_wired_fields [of pi fmt] l by (simp add: startup_wired startup_fields initial_board_def)
qed

theorem startup_fresh_witness:
  "getItem (pi_store pi_example) LS_KEY = Inr None \<and> getItem (pi_store pi_example) COMMENTS_KEY = Inr None \<and>
   \<not> isBW (pg_theme (fst (startup fmt_example pi_example))) \<and>
   lv_nodes (view (pg_board (fst (startup fmt_example pi_example)))) = [Placeholder] \<and>
   ''hidden'' \<in> set (pg_top (fst (startup fmt_example pi_example)))"
proof -
  have t: "getItem (pi_store pi_example) LS_KEY = Inr None"
    and c: "getItem (pi_store pi_example) COMMENTS_KEY = Inr None"
    by (simp_all add: pi_example_def getItem_def store_example_def)
  have "pi_scroll pi_example \<le> 300" by (simp add: pi_example_def)
  then show ?thesis using t c startup_fresh [OF t c, of fmt_example] by simp
qed

lemma typed_submit_list:
  "(\<forall>c \<in> set cs. P c \<or> comment_record_ok c) \<Longrightarrow> comment_record_ok e \<Longrightarrow>
   \<forall>c \<in> set (slice_last n (cs @ [e])). P c \<or> comment_record_ok c"
  unfolding slice_last_def by (auto dest: in_set_dropD)

lemma on_submit_typed:
  assumes t: "page_typed pi p"
  shows "page_typed pi (fst (on_submit fmt now p))"
proof -
  let ?b = "pg_board p"
  let ?r = "fst (fst (submit fmt now (?b, pg_store p)))"
  have parts: "comments ?r =
     (if length (js_trim (in_body ?b)) < 2 then comments ?b
      else slice_last 200 (comments ?b @ [comment_entry (js_trim (in_name ?b)) (js_trim (in_body ?b)) now])) \<and>
     (in_name ?r = in_name ?b \<or> in_name ?r = []) \<and> (in_body ?r = in_body ?b \<or> in_body ?r = [])"
    by (rule submit_parts)
  have "\<forall>c \<in> set (comments ?r). c \<in> set (loadComments (pi_store pi)) \<or> comment_record_ok c"
  proof (cases "length (js_trim (in_body ?b)) < 2")
    case False
    then have ok: "comment_record_ok (comment_entry (js_trim (in_name ?b)) (js_trim (in_body ?b)) now)"
      using t by (intro entry_record_ok) (simp_all add: page_typed_def)
    have A: "\<forall>c \<in> set (comments ?b). c \<in> set (loadComments (pi_store pi)) \<or> comment_record_ok c"
      using t by (simp add: page_typed_def)
    show ?thesis using parts False typed_submit_list [OF A ok, of 200] by simp
  qed (use parts t in \<open>simp add: page_typed_def\<close>)
  moreover have "length (in_name ?r) \<le> 60 \<and> length (in_body ?r) \<le> 2000"
    using parts t by (auto simp: page_typed_def)
  ultimately have "page_typed pi (p\<lparr>pg_board := ?r, pg_store := snd (fst (submit fmt now (?b, pg_store p)))\<rparr>)"
    by (simp add: page_typed_def)
  then show ?thesis using t by (simp add: on_submit_def page_typed_def Let_def case_prod_unfold)
qed

lemma step_typed: "page_typed pi p \<Longrightarrow> page_typed pi (fst (step fmt ev p))"
proof (cases ev)
  case (Submit now)
  assume "page_typed pi p"
  then show ?thesis using on_submit_typed Submit by simp
qed (auto simp: page_typed_def handler_defs type_name_def type_body_def clear_all_def Let_def case_prod_unfold)

lemma startup_typed: "page_typed pi (fst (startup fmt pi))"
  by (simp add: page_typed_def startup_fields initial_board_def)

text \<open>C8. Every comment of a reachable page is either one of the stored array it was
  loaded from or a record of the specification's shape built by the page: exactly the
  keys \<^verbatim>\<open>name\<close>, \<^verbatim>\<open>body\<close>, \<^verbatim>\<open>ts\<close>, a trimmed name of at most 60 characters, a
  trimmed body of 2 to 2000 characters and an integer time; the form fields stay within
  their \<^verbatim>\<open>maxlength\<close>.\<close>

theorem reachable_comments_typed:
  "reachable fmt pi p \<Longrightarrow> page_typed pi p"
proof (induction rule: reachable.induct)
  case start
  show ?case by (rule startup_typed)
next
  case (step p ev)
  from step.IH show ?case by (rule step_typed)
qed

theorem reachable_comments_typed_witness:
  "reachable fmt_example pi_example (fst (step fmt_example (TypeBody ''Hello world'') page_example)) \<and>
   page_typed pi_example (fst (step fmt_example (TypeBody ''Hello world'') page_example))"
proof -
  have r: "reachable fmt_example pi_example (fst (step fmt_example (TypeBody ''Hello world'') page_example))"
    unfolding page_example_def by (intro reachable.step reachable.start)
  show ?thesis using r reachable_comments_typed [OF r] by blast
qed

lemma loadPref_isBW: "isBW (fst (loadPref s)) \<longleftrightarrow> getItem (snd s) LS_KEY = Inr (Some ''1'')"
  by (simp add: loadPref_cases)


lemma btn_styled_applyBW: "btn_styled (fst s) \<Longrightarrow> btn_styled (fst (applyBW b q s))"
  by (auto simp: btn_styled_def bw_classes_applyBW)

lemma btn_styled_init_btn: "btn_styled d \<Longrightarrow> btn_styled (init_btn d)"
  by (auto simp: btn_styled_def init_btn_def)

lemma btn_styled_initial: "btn_styled (initial_theme rc)"
  using btn_base_tokens
  by (simp add: btn_styled_def initial_theme_def bwBtn_el_def mkBtn_def class_tokens_def tokens_acc_join
      set_attr_def create_element_def Let_def sheet_classes_def theme_css_def)

lemma startup_btn_styled: "btn_styled (pg_theme (fst (startup fmt pi)))"
proof (cases "list_all item_ok (loadComments (pi_store pi))")
  case False
  then show ?thesis by (simp add: startup_unwired_fields btn_styled_initial)
next
  case True
  have "btn_styled (fst (loadPref (initial_theme (pi_root pi), pi_store pi)))"
    unfolding loadPref_cases by (rule btn_styled_applyBW) (simp add: btn_styled_initial)
  then show ?thesis by (simp add: startup_wired_fields [OF True] btn_styled_init_btn)
qed

lemma step_btn_styled: "btn_styled (pg_theme p) \<Longrightarrow> btn_styled (pg_theme (fst (step fmt ev p)))"
  by (cases ev) (auto simp: handler_defs Let_def case_prod_unfold bw_click_applyBW btn_styled_applyBW
      type_name_def type_body_def)

lemma reachable_btn_styled: "reachable fmt pi p \<Longrightarrow> btn_styled (pg_theme p)"
  by (induction rule: reachable.induct) (simp_all add: startup_btn_styled step_btn_styled)

lemma page_example_light: "\<not> isBW (pg_theme page_example)"
proof -
  have n: "list_all item_ok (loadComments (pi_store pi_example))"
    by (simp add: pi_example_def loadComments_def getItem_def store_example_def)
  have "init_btn (fst (loadPref (initial_theme [], store_example))) = fst (loadPref (initial_theme [], store_example))"
    by (rule init_btn_inv [OF theme_inv_loadPref])
  then show ?thesis using startup_wired_fields [OF n, of fmt_example]
    by (simp add: page_example_def pi_example_def loadPref_cases getItem_def store_example_def)
qed

text \<open>C9. In every page whose script has run to its end, the theme button's computed
  background, text and border colours are the sheet's light-state colours
  (\<^verbatim>\<open>#ffffff\<close>, \<^verbatim>\<open>#0b0b0d\<close>, \<^verbatim>\<open>#d1d1d1\<close>) exactly while the marker class is on
  \<^verbatim>\<open><html>\<close>, its dark-state colours (\<^verbatim>\<open>#0b0b0d\<close>, \<^verbatim>\<open>#f5f7f8\<close>, \<^verbatim>\<open>#232325\<close>)
  otherwise, whatever the handlers, the keys and the API did before: the toggle's look
  follows the theme, over the utility colours \<^verbatim>\<open>mkBtn\<close> gives every button.\<close>

theorem bw_button_colours:
  assumes r: "reachable fmt pi p" and w: "pg_wired p"
  shows "css_value (root_classes (pg_theme p)) ''button'' (bw_classes (pg_theme p)) ''background-color'' =
           Some (if isBW (pg_theme p) then ''#ffffff'' else ''#0b0b0d'') \<and>
         css_value (root_classes (pg_theme p)) ''button'' (bw_classes (pg_theme p)) ''color'' =
           Some (if isBW (pg_theme p) then ''#0b0b0d'' else ''#f5f7f8'') \<and>
         css_value (root_classes (pg_theme p)) ''button'' (bw_classes (pg_theme p)) ''border-color'' =
           Some (if isBW (pg_theme p) then ''#d1d1d1'' else ''#232325'')"
proof -
  let ?d = "pg_theme p"
  let ?c = "if isBW ?d then ''bw-toggle-btn-on'' else ''bw-toggle-btn-off''"
  have "theme_inv ?d" using reachable_inv [OF r] w by (simp add: page_inv_def)
  moreover have "btn_styled ?d" by (rule reachable_btn_styled [OF r])
  ultimately have "set (bw_classes ?d) \<inter> set sheet_classes = set [?c] \<inter> set sheet_classes"
    by (auto simp: theme_inv_def btn_styled_def)
  then have "css_value (root_classes ?d) ''button'' (bw_classes ?d) q = css_value (root_classes ?d) ''button'' [?c] q"
    for q by (rule css_value_classes)
  then show ?thesis using btn_state_style [of "root_classes ?d"] by (cases "isBW ?d") simp_all
qed

theorem bw_button_colours_witness:
  "reachable fmt_example pi_example page_example \<and> pg_wired page_example \<and>
   css_value (root_classes (pg_theme page_example)) ''button'' (bw_classes (pg_theme page_example)) ''color'' =
     Some ''#f5f7f8''"
proof -
  have r: "reachable fmt_example pi_example page_example"
    unfolding page_example_def by (rule reachable.start)
  show ?thesis using r page_example_wired page_example_light bw_button_colours [OF r page_example_wired] by simp
qed

end
