(* ===== verification/Spec2Isabelle.thy ===== *)
theory Spec2Isabelle
  imports Page
begin

text \<open>
  \<^bold>\<open>A verification development of \<^verbatim>\<open>src/index.js\<close>.\<close>

  The repository is one browser script, an immediately invoked function that decorates a
  static blog page: a stylesheet for a light ("BW") theme, a floating toolbar with a
  theme toggle and a back-to-top button, and a comment box whose comments live in
  \<^verbatim>\<open>localStorage\<close>. The script's parts interact through shared state: the marker
  class \<^verbatim>\<open>bw\<close> on \<^verbatim>\<open><html>\<close>, the toggle button's classes and \<^verbatim>\<open>aria-pressed\<close>, the
  module-level \<^verbatim>\<open>comments\<close> array and the rendered list, and two keys of the store.

  \<^medskip>\<^bold>\<open>Theories.\<close>
  \<^item> \<open>Prelude\<close>: the array and DOM library operations the script calls (\<open>slice_last\<close> for
    \<^verbatim>\<open>slice(-n)\<close>, \<open>tok_add\<close>/\<open>tok_remove\<close>/\<open>tok_toggle\<close> for \<^verbatim>\<open>classList\<close>,
    \<open>insert_before\<close>) and shared list lemmas.
  \<^item> \<open>Js_Value\<close>: JSON values and \<^verbatim>\<open>undefined\<close>, truthiness, \<^verbatim>\<open>String(v)\<close> and the \<^verbatim>\<open>TypeError\<close> its conversion to a
    primitive throws on an object with an own \<^verbatim>\<open>toString\<close> key, property
    access that throws on \<^verbatim>\<open>null\<close>, \<^verbatim>\<open>trim\<close>.
  \<^item> \<open>Html_Escape\<close>: \<^verbatim>\<open>escapeHtml\<close> (lines 153--160) as its five passes, a one-pass
    reference and the browser's decoding of the five character references.
  \<^item> \<open>Json_Text\<close>: the environment's \<^verbatim>\<open>JSON.stringify\<close>/\<^verbatim>\<open>JSON.parse\<close> on these values,
    with the round trip, the well-formedness of every parsed value and the totality of
    the fuelled parser.
  \<^item> \<open>Persistence\<close>: \<^verbatim>\<open>localStorage\<close> (disabled stores and the quota included), the keys
    (lines 8--9), \<^verbatim>\<open>loadComments\<close>/\<^verbatim>\<open>saveComments\<close> (lines 163--174) and the
    preference write; every storage error is a value, caught as the source's
    \<^verbatim>\<open>try\<close>/\<^verbatim>\<open>catch\<close> does.
  \<^item> \<open>Theme\<close>: \<^verbatim>\<open>applyBW\<close> (237--253), \<^verbatim>\<open>loadPref\<close> (256--262), the initial button
    classes (265--269) and the click handler (272--283).
  \<^item> \<open>Comments\<close>: the board (list, rendered list, form fields, focus),
    \<^verbatim>\<open>renderComments\<close> (185--207), the submit handler (211--226) and the clear handler
    (228--234). The locale's date formatting is a parameter \<open>fmt\<close>.
  \<^item> \<open>Toolbar\<close>: \<^verbatim>\<open>mkBtn\<close> (84--98) with the browser's splitting of \<^verbatim>\<open>className\<close>, the
    two buttons, the toolbar and panel elements, the insertions into the document
    (76, 116, 150) and \<^verbatim>\<open>onScroll\<close> (291--298).
  \<^item> \<open>Stylesheet\<close>: the injected stylesheet (15--75) as its ten rules, with the part
    of the CSS cascade that decides which declaration an element gets (\<open>css_value\<close>:
    selector matching under \<^verbatim>\<open>html.bw\<close>, \<^verbatim>\<open>!important\<close>, specificity, order).
  \<^item> \<open>Panel\<close>: the comments panel's markup (126--148) as a tree of elements and the six
    \<^verbatim>\<open>querySelector\<close> lookups (176--181) through which the script reaches it.
  \<^item> \<open>Page\<close>: the script as a state machine. \<open>startup\<close> is the whole function run on
    load, stopping at the first exception; \<open>step\<close> applies one event (form submit, clear
    with the dialog's answer, clicks, scrolling, keys (303--319), focus and typing, and
    the calls of \<^verbatim>\<open>window.__blogUI\<close> (322--328)); \<open>reachable\<close> are the pages a load and
    events produce.
  \<^item> This theory: the page's contract as an abstract machine \<open>spec_step\<close> over
    \<open>ui_spec\<close> (theme flag, comment log, visibility of the back-to-top button, form
    fields, focus, scroll requests), written from the contracts of the specification,
    and the refinement of it by the page.

  \<^medskip>\<^bold>\<open>What is shown.\<close>
  Escaping: the five passes equal the one-pass escaping, leave no markup character, and
  decode back to the text. Theme: the click handler equals \<^verbatim>\<open>applyBW\<close> of the negated
  state, two clicks restore the theme and the stored preference, \<^verbatim>\<open>loadPref\<close> reads
  exactly \<^verbatim>\<open>"1"\<close>. Comments: the behaviour of submit and clear on every branch, the
  rendering's order and markup safety, the \<^verbatim>\<open>TypeError\<close> on a \<^verbatim>\<open>null\<close> element (and on any comment that does not
  render, \<open>item_ok\<close>), every falsy-named body-less element rendered as
  \<^verbatim>\<open>Anonymous\<close>/\<^verbatim>\<open>undefined\<close>, the
  save/load round trip. Toolbar: the button classes, the document layout, the 300 pixel
  threshold. Stylesheet: media "untouched" in the light theme means forced to no
  filter, full opacity, no background image and a transparent background colour, unless
  a more specific class rule whitens them; the card background; nothing styled without
  the marker class but the button states and \<^verbatim>\<open>.sr-only\<close>; the gold accents never
  change a value. Panel: every lookup finds one element of the expected
  tag; the fields' \<^verbatim>\<open>maxlength\<close> are the bounds the board keeps; the sheet leaves
  the panel unstyled in both themes. Page: the invariant of every reachable page (by rule induction on
  \<open>reachable\<close>), the absence of exceptions once started, the dead page a stored
  \<^verbatim>\<open>null\<close>, or any stored comment that does not render, produces, the bound on the list's length, the agreement of store and list,
  the key shortcuts and their suppression while typing, the API, the fresh load, and
  the toggle button's computed colours following the theme
  (\<open>bw_button_colours\<close>, joining Theme, Toolbar, Stylesheet and Page), and the shape of
  every comment the page builds (the data model's record type, against
  which loaded comments are not checked). Here: every run of events after a load
  refines the contract (\<open>page_refines_spec\<close>), a reload on the store the page leaves
  restores theme and comments (\<open>reload_restores\<close>), and the board can always be emptied
  exactly when the script is running (\<open>board_recoverable\<close>).

  \<^medskip>\<^bold>\<open>Bounds and fuel.\<close>
  \<^verbatim>\<open>JSON.parse\<close> is a parser on fuel; \<open>2 * length s + 2\<close> units are enough for every
  input \<open>s\<close> (\<open>Json_Text.json_parse_fuel_suffices\<close>), as each unit either consumes a
  character or enters one of the two nested loops that do, so \<open>json_parse\<close> never runs out
  and its fallback is never taken. Every other loop of the script is a \<^verbatim>\<open>forEach\<close> or a
  string pass, modelled by structural recursion.

  \<^medskip>\<^bold>\<open>Not modelled.\<close>
  The page's own stylesheet and markup, which are not part of the repository: the
  injected sheet's values are those it gives (\<open>css_value\<close>), which win over the page's
  normal declarations since all its declarations but five of \<^verbatim>\<open>.sr-only\<close> are
  \<^verbatim>\<open>!important\<close>; inheritance and the properties the sheet does not set; the
  white-space text nodes of the panel's markup; the browser's rendering, layout and the
  smooth scrolling animation (a scroll request is recorded, and the scroll events it
  causes are \<open>Scroll\<close> events); numbers other than
  integers (the script writes only \<^verbatim>\<open>Date.now()\<close>; fractional scroll offsets are not
  considered); characters outside Latin-1 and \<^verbatim>\<open>JSON.parse\<close>'s fractions, exponents and
  \<^verbatim>\<open>\u\<close> escapes above U+00FF, which the model rejects; other tabs writing the same store.
\<close>

section \<open>The page's contract\<close>

record ui_spec =
  s_bw :: bool
  s_log :: "json list"
  s_top_shown :: bool
  s_name :: string
  s_body :: string
  s_focus :: focus_el
  s_scroll :: int
  s_scroll_req :: "int list"

definition spec_entry :: "string \<Rightarrow> string \<Rightarrow> int \<Rightarrow> json" where
  "spec_entry name body now = JObj [(''name'', JStr name), (''body'', JStr body), (''ts'', JNum now)]"

definition keep_recent :: "nat \<Rightarrow> 'a list \<Rightarrow> 'a list" where
  "keep_recent n xs = rev (take n (rev xs))"

definition spec_post :: "int \<Rightarrow> ui_spec \<Rightarrow> ui_spec" where
  "spec_post now a =
     (let body = js_trim (s_body a)
      in if length body < 2 then a\<lparr>s_focus := FocusBody\<rparr>
         else a\<lparr>s_log := keep_recent 200 (s_log a @ [spec_entry (js_trim (s_name a)) body now]),
                s_name := [], s_body := [], s_focus := FocusBody\<rparr>)"

definition spec_toggle :: "ui_spec \<Rightarrow> ui_spec" where
  "spec_toggle a = a\<lparr>s_bw := \<not> s_bw a\<rparr>"

definition spec_to_top :: "ui_spec \<Rightarrow> ui_spec" where
  "spec_to_top a = a\<lparr>s_scroll_req := s_scroll_req a @ [0]\<rparr>"

definition spec_key :: "string \<Rightarrow> ui_spec \<Rightarrow> ui_spec" where
  "spec_key k a =
     (if is_typing (s_focus a) then a
      else if k \<in> {''b'', ''B''} then spec_toggle a
      else if k \<in> {''t'', ''T''} then spec_to_top a
      else if k \<in> {''c'', ''C''} then a\<lparr>s_focus := FocusBody\<rparr>
      else a)"

fun spec_step :: "event \<Rightarrow> ui_spec \<Rightarrow> ui_spec" where
  "spec_step (Submit now) a = spec_post now a"
| "spec_step (ClickClear ok) a = (if ok then a\<lparr>s_log := []\<rparr> else a)"
| "spec_step ClickBW a = spec_toggle a"
| "spec_step ClickTop a = spec_to_top a"
| "spec_step (Scroll y) a = a\<lparr>s_scroll := y, s_top_shown := 300 < y\<rparr>"
| "spec_step (KeyDown k) a = spec_key k a"
| "spec_step (FocusOn f) a = a\<lparr>s_focus := f\<rparr>"
| "spec_step (TypeName s) a = a\<lparr>s_name := take 60 s\<rparr>"
| "spec_step (TypeBody s) a = a\<lparr>s_body := take 2000 s\<rparr>"
| "spec_step (ApiSetBW v) a = a\<lparr>s_bw := js_truthy v\<rparr>"
| "spec_step ApiScrollToTop a = spec_to_top a"
| "spec_step ApiFocusComment a = a\<lparr>s_focus := FocusBody\<rparr>"

definition spec_init :: "page_init \<Rightarrow> ui_spec" where
  "spec_init pi =
     \<lparr>s_bw = (getItem (pi_store pi) LS_KEY = Inr (Some ''1'')), s_log = loadComments (pi_store pi),
      s_top_shown = 300 < pi_scroll pi, s_name = [], s_body = [], s_focus = FocusElsewhere TagOther,
      s_scroll = pi_scroll pi, s_scroll_req = []\<rparr>"

definition abs_page :: "page \<Rightarrow> ui_spec" where
  "abs_page p =
     \<lparr>s_bw = isBW (pg_theme p), s_log = comments (pg_board p), s_top_shown = ''hidden'' \<notin> set (pg_top p),
      s_name = in_name (pg_board p), s_body = in_body (pg_board p), s_focus = focus (pg_board p),
      s_scroll = pg_scroll p, s_scroll_req = pg_scroll_req p\<rparr>"

definition run :: "date_fmt \<Rightarrow> event list \<Rightarrow> page \<Rightarrow> page" where
  "run fmt evs p = fold (\<lambda>ev q. fst (step fmt ev q)) evs p"

section \<open>Refinement\<close>

lemma keep_recent_slice_last: "keep_recent n xs = slice_last n xs"
  by (simp add: keep_recent_def slice_last_def take_rev)

lemma comment_entry_spec: "comment_entry n b t = spec_entry n b t"
  by (simp add: comment_entry_def spec_entry_def)

lemma abs_on_submit:
  assumes inv: "page_inv fmt p" and w: "pg_wired p"
  shows "abs_page (fst (on_submit fmt now p)) = spec_post now (abs_page p)"
proof -
  let ?b = "pg_board p"
  consider (empty) "in_body ?b = []"
    | (short) "in_body ?b \<noteq> []" "length (js_trim (in_body ?b)) < 2"
    | (ok) "in_body ?b \<noteq> []" "2 \<le> length (js_trim (in_body ?b))"
    by linarith
  then show ?thesis
  proof cases
    case empty
    then show ?thesis by (simp add: on_submit_def spec_post_def abs_page_def)
  next
    case short
    then show ?thesis using w submit_short [OF short(2)]
      by (simp add: on_submit_def spec_post_def abs_page_def)
  next
    case ok
    have nn: "list_all item_ok (comments ?b)" using inv w by (simp add: page_inv_def)
    show ?thesis
      using submit_valid [OF ok(2) nn, of fmt now "pg_store p"] ok w
      by (simp add: on_submit_def spec_post_def abs_page_def Let_def keep_recent_slice_last comment_entry_spec)
  qed
qed

lemma abs_step:
  assumes inv: "page_inv fmt p" and w: "pg_wired p"
  shows "abs_page (fst (step fmt ev p)) = spec_step ev (abs_page p)"
proof (cases ev)
  case (Submit now)
  then show ?thesis using abs_on_submit [OF inv w] by simp
next
  case (ClickClear ok)
  then show ?thesis using w by (auto simp: on_clear_def clear_all_def abs_page_def Let_def)
next
  case ClickBW
  then show ?thesis using w by (simp add: on_bw_def bw_click_applyBW abs_page_def spec_toggle_def case_prod_unfold)
next
  case (KeyDown k)
  then show ?thesis using w
    by (simp add: on_key_def on_bw_def on_top_def bw_click_applyBW abs_page_def spec_key_def spec_toggle_def
                  spec_to_top_def scroll_to_top_def focus_body_def case_prod_unfold)
qed (use w in \<open>simp_all add: handler_defs abs_page_def spec_to_top_def type_name_def type_body_def Let_def
                   case_prod_unfold not_le\<close>)

lemma abs_startup:
  "list_all item_ok (loadComments (pi_store pi)) \<Longrightarrow> abs_page (fst (startup fmt pi)) = spec_init pi"
  using startup_wired_fields [of pi fmt]
  by (simp add: abs_page_def spec_init_def startup_fields initial_board_def loadPref_cases
                init_btn_inv theme_inv_applyBW not_le)

lemma reachable_run: "reachable fmt pi p \<Longrightarrow> reachable fmt pi (run fmt evs p) \<and> pg_wired (run fmt evs p) = pg_wired p"
proof (induction evs arbitrary: p)
  case (Cons ev evs)
  then show ?case using reachable.step [OF Cons.prems, of ev] by (simp add: run_def)
qed (simp add: run_def)

lemma abs_run:
  "reachable fmt pi p \<Longrightarrow> pg_wired p \<Longrightarrow> abs_page (run fmt evs p) = fold spec_step evs (abs_page p)"
proof (induction evs arbitrary: p)
  case (Cons ev evs)
  have r: "reachable fmt pi (fst (step fmt ev p))" using Cons.prems(1) by (rule reachable.step)
  have "abs_page (fst (step fmt ev p)) = spec_step ev (abs_page p)"
    using abs_step [OF reachable_inv [OF Cons.prems(1)] Cons.prems(2)] .
  then show ?case using Cons.IH [OF r] Cons.prems(2) by (simp add: run_def)
qed (simp add: run_def)

text \<open>C1. Refinement of the page's contract: after a load on a store whose comments all
  render (none is \<^verbatim>\<open>null\<close> or holds a name, time or body that \<^verbatim>\<open>String\<close> cannot
  convert, the condition under which the first \<^verbatim>\<open>renderComments()\<close> does not throw),
  any sequence of events takes the page to the state the contract prescribes
  for that sequence: the theme flag, the comment log (appended with the trimmed entry
  and cut to the 200 most recent on a valid post, emptied on a confirmed clear), the
  back-to-top visibility, the form fields, the focus and the scroll requests.\<close>

theorem page_refines_spec:
  "list_all item_ok (loadComments (pi_store pi)) \<Longrightarrow>
   abs_page (run fmt evs (fst (startup fmt pi))) = fold spec_step evs (spec_init pi)"
proof -
  assume n: "list_all item_ok (loadComments (pi_store pi))"
  have w: "pg_wired (fst (startup fmt pi))" using n by (simp add: startup_wired)
  show ?thesis using abs_run [OF reachable.start w] abs_startup [OF n] by simp
qed

theorem page_refines_spec_witness:
  "list_all item_ok (loadComments (pi_store pi_example)) \<and>
   s_log (abs_page (run fmt_example [TypeBody ''Hello world'', TypeName ''Ann'', Submit 7, ClickBW]
                      (fst (startup fmt_example pi_example)))) = [spec_entry ''Ann'' ''Hello world'' 7] \<and>
   s_bw (abs_page (run fmt_example [TypeBody ''Hello world'', TypeName ''Ann'', Submit 7, ClickBW]
                      (fst (startup fmt_example pi_example))))"
proof -
  have l: "loadComments (pi_store pi_example) = []"
    by (simp add: pi_example_def loadComments_def getItem_def store_example_def)
  then have n: "list_all item_ok (loadComments (pi_store pi_example))" by simp
  have t1: "js_trim ''Hello world'' = ''Hello world''" and t2: "js_trim ''Ann'' = ''Ann''"
    by (simp_all add: js_trim_def js_ws_def)
  have "getItem (pi_store pi_example) LS_KEY = Inr None"
    by (simp add: pi_example_def getItem_def store_example_def)
  then show ?thesis
    using n page_refines_spec [OF n, of fmt_example "[TypeBody ''Hello world'', TypeName ''Ann'', Submit 7, ClickBW]"] l t1 t2
    by (simp add: spec_init_def spec_post_def spec_toggle_def keep_recent_def)
qed

text \<open>C19. Reloading the page on the store it leaves gives back what it showed: when the
  stored list and the stored preference are up to date, the new load runs to its end with
  the same theme, the same comment list and the same rendered list.\<close>

theorem reload_restores:
  "reachable fmt pi p \<Longrightarrow> pg_wired p \<Longrightarrow> comments_sync p \<Longrightarrow>
   getItem (pg_store p) LS_KEY = Inr (Some (pref_text (isBW (pg_theme p)))) \<Longrightarrow>
   pg_wired (fst (startup fmt (pi\<lparr>pi_store := pg_store p\<rparr>))) \<and>
   isBW (pg_theme (fst (startup fmt (pi\<lparr>pi_store := pg_store p\<rparr>)))) = isBW (pg_theme p) \<and>
   comments (pg_board (fst (startup fmt (pi\<lparr>pi_store := pg_store p\<rparr>)))) = comments (pg_board p) \<and>
   lv_nodes (view (pg_board (fst (startup fmt (pi\<lparr>pi_store := pg_store p\<rparr>))))) = lv_nodes (view (pg_board p))"
proof -
  assume r: "reachable fmt pi p" and w: "pg_wired p" and sy: "comments_sync p"
    and pr: "getItem (pg_store p) LS_KEY = Inr (Some (pref_text (isBW (pg_theme p))))"
  let ?pi = "pi\<lparr>pi_store := pg_store p\<rparr>"
  have inv: "page_inv fmt p" using r by (rule reachable_inv)
  have l: "loadComments (pi_store ?pi) = comments (pg_board p)" using sy by (simp add: comments_sync_def)
  have n: "list_all item_ok (loadComments (pi_store ?pi))" using inv w l by (simp add: page_inv_def)
  have th: "pg_theme (fst (startup fmt ?pi)) = init_btn (fst (loadPref (initial_theme (pi_root ?pi), pi_store ?pi)))"
    using startup_wired_fields [OF n] by simp
  have "init_btn (fst (loadPref (initial_theme (pi_root ?pi), pi_store ?pi))) =
        fst (loadPref (initial_theme (pi_root ?pi), pi_store ?pi))"
    by (rule init_btn_inv [OF theme_inv_loadPref])
  then have "isBW (pg_theme (fst (startup fmt ?pi))) = isBW (pg_theme p)"
    using th pr by (simp add: loadPref_isBW pref_text_def)
  moreover have "lv_nodes (view (pg_board (fst (startup fmt ?pi)))) = lv_nodes (view (pg_board p))"
    using renderComments_rendered [OF n] inv w l by (simp add: startup_fields page_inv_def)
  ultimately show ?thesis using n l by (simp add: startup_wired startup_fields initial_board_def)
qed

theorem reload_restores_witness:
  "reachable fmt_example pi_example (fst (step fmt_example ClickBW page_example)) \<and>
   pg_wired (fst (step fmt_example ClickBW page_example)) \<and>
   comments_sync (fst (step fmt_example ClickBW page_example)) \<and>
   getItem (pg_store (fst (step fmt_example ClickBW page_example))) LS_KEY =
     Inr (Some (pref_text (isBW (pg_theme (fst (step fmt_example ClickBW page_example)))))) \<and>
   isBW (pg_theme (fst (startup fmt_example (pi_example\<lparr>pi_store := pg_store (fst (step fmt_example ClickBW page_example))\<rparr>))))"
proof -
  let ?q = "fst (step fmt_example ClickBW page_example)"
  have r: "reachable fmt_example pi_example ?q"
    unfolding page_example_def by (intro reachable.step reachable.start)
  have w: "pg_wired ?q" using page_example_wired by (simp del: step.simps)
  have l: "loadComments (pi_store pi_example) = []"
    by (simp add: pi_example_def loadComments_def getItem_def store_example_def)
  have st: "pg_store page_example = store_example"
    by (simp add: page_example_def startup_fields pi_example_def)
  have th: "\<not> isBW (pg_theme page_example)"
  proof -
    have "getItem (pi_store pi_example) LS_KEY = Inr None"
      by (simp add: pi_example_def getItem_def store_example_def)
    moreover have "init_btn (fst (loadPref (initial_theme (pi_root pi_example), pi_store pi_example))) =
        fst (loadPref (initial_theme (pi_root pi_example), pi_store pi_example))"
      by (rule init_btn_inv [OF theme_inv_loadPref])
    ultimately show ?thesis
      using startup_wired_fields [of pi_example fmt_example] l
      by (simp add: page_example_def loadPref_isBW)
  qed
  have cs: "can_store store_example LS_KEY (pref_text True)"
    by (simp add: store_example_def can_store_def ls_size_def LS_KEY_def pref_text_def)
  have q: "pg_theme ?q = fst (bw_click (pg_theme page_example, store_example)) \<and>
           pg_store ?q = store_pref True store_example"
    using page_example_wired th st by (simp add: on_bw_def bw_click_applyBW case_prod_unfold)
  have sy0: "comments_sync page_example"
    unfolding page_example_def by (rule startup_sync)
  have sy: "comments_sync ?q"
    using sy0 page_example_wired q st by (simp add: on_bw_def comments_sync_def case_prod_unfold)
  have b: "isBW (pg_theme ?q)" using q th by simp
  have pr: "getItem (pg_store ?q) LS_KEY = Inr (Some (pref_text (isBW (pg_theme ?q))))"
    using q b store_pref_ok [OF cs] by simp
  show ?thesis using r w sy pr b reload_restores [OF r w sy pr] by simp
qed

lemma run_unwired:
  "\<not> pg_wired p \<Longrightarrow> comments (pg_board (run fmt evs p)) = comments (pg_board p) \<and> \<not> pg_wired (run fmt evs p)"
proof (induction evs arbitrary: p)
  case (Cons ev evs)
  have "\<not> pg_wired (fst (step fmt ev p))" using Cons.prems by (simp del: step.simps)
  then show ?case using Cons.IH [of "fst (step fmt ev p)"] unwired_step [OF Cons.prems, of fmt ev]
    by (simp add: run_def del: step.simps)
qed (simp add: run_def)

text \<open>C20. A page can always be brought back to an empty board showing only the
  placeholder, by a confirmed clear, exactly when its script is running or its list is
  already empty: a page whose load stopped at a \<^verbatim>\<open>null\<close> comment never gets there.\<close>

theorem board_recoverable:
  "reachable fmt pi p \<Longrightarrow>
   (\<exists>evs. comments (pg_board (run fmt evs p)) = [] \<and> lv_nodes (view (pg_board (run fmt evs p))) = [Placeholder])
   \<longleftrightarrow> pg_wired p \<or> comments (pg_board p) = []"
proof -
  assume r: "reachable fmt pi p"
  have inv: "page_inv fmt p" using r by (rule reachable_inv)
  show ?thesis
  proof
    assume "\<exists>evs. comments (pg_board (run fmt evs p)) = [] \<and> lv_nodes (view (pg_board (run fmt evs p))) = [Placeholder]"
    then obtain evs where "comments (pg_board (run fmt evs p)) = []" by blast
    then show "pg_wired p \<or> comments (pg_board p) = []"
      by (cases "pg_wired p") (use run_unwired [of p fmt evs] in simp_all)
  next
    assume h: "pg_wired p \<or> comments (pg_board p) = []"
    have w: "pg_wired p"
    proof (rule ccontr)
      assume nw: "\<not> pg_wired p"
      then have e: "comments (pg_board p) = []" using h by simp
      have "\<not> list_all item_ok (loadComments (pi_store pi))"
        using r nw
      proof (induction rule: reachable.induct)
        case start
        then show ?case by (simp add: startup_wired)
      next
        case (step q ev)
        then show ?case by (simp del: step.simps)
      qed
      then show False using reachable_dead [OF r] e by auto
    qed
    let ?q = "run fmt [ClickClear True] p"
    have "comments (pg_board ?q) = [] \<and> lv_nodes (view (pg_board ?q)) = [Placeholder]"
      using w inv by (auto simp: run_def on_clear_def clear_all_def page_inv_def rendered_def Let_def)
    then show "\<exists>evs. comments (pg_board (run fmt evs p)) = [] \<and> lv_nodes (view (pg_board (run fmt evs p))) = [Placeholder]"
      by blast
  qed
qed

theorem board_recoverable_witness:
  "reachable fmt_example pi_example page_example \<and> reachable fmt_example pi_null (fst (startup fmt_example pi_null)) \<and>
   (\<exists>evs. comments (pg_board (run fmt_example evs page_example)) = [] \<and>
          lv_nodes (view (pg_board (run fmt_example evs page_example))) = [Placeholder]) \<and>
   \<not> (\<exists>evs. comments (pg_board (run fmt_example evs (fst (startup fmt_example pi_null)))) = [] \<and>
          lv_nodes (view (pg_board (run fmt_example evs (fst (startup fmt_example pi_null))))) = [Placeholder])"
proof -
  have r1: "reachable fmt_example pi_example page_example"
    unfolding page_example_def by (rule reachable.start)
  have r2: "reachable fmt_example pi_null (fst (startup fmt_example pi_null))" by (rule reachable.start)
  have d: "\<not> pg_wired (fst (startup fmt_example pi_null))"
    and c: "comments (pg_board (fst (startup fmt_example pi_null))) = [JNull]"
    by (simp_all add: startup_wired startup_fields initial_board_def loadComments_pi_null)
  show ?thesis
    using r1 r2 board_recoverable [OF r1] board_recoverable [OF r2] page_example_wired d c by simp
qed

end
